(* ===== verification/Prelude.thy ===== *)
theory Prelude
  imports Main "HOL-Library.Word" "HOL-Library.Multiset"
begin

text \<open>
  Shared vocabulary of the development: the fixed-width integer types of the C++ sources, the
  collections of rewrite rules the component theories fill, and the generic facts on folds,
  lists and words that more than one component needs.
\<close>

type_synonym u8 = "8 word"
type_synonym u16 = "16 word"
type_synonym u32 = "32 word"
type_synonym u64 = "64 word"

named_theorems f32_simps \<open>rewrite rules for binary32 values\<close>
named_theorems um_simps \<open>rewrite rules for the container models\<close>
named_theorems room_frame \<open>which fields of a room an operation leaves alone\<close>

subsection \<open>Folds\<close>

text \<open>A loop over a container keeps whatever each turn of its body keeps.\<close>

lemma fold_invariant:
  assumes "\<And>x s. x \<in> set xs \<Longrightarrow> P s \<Longrightarrow> P (f x s)" and "P s"
  shows "P (fold f xs s)"
  using assms
proof (induction xs arbitrary: s)
  case Nil
  then show ?case by simp
next
  case (Cons x xs)
  have "P (f x s)" using Cons.prems by simp
  then have "P (fold f xs (f x s))"
    using Cons.prems(1) by (intro Cons.IH) auto
  then show ?case by simp
qed

text \<open>A quantity that no turn of a loop changes is the same after the loop.\<close>

lemma fold_constant:
  assumes "\<And>x s. x \<in> set xs \<Longrightarrow> g (f x s) = g s"
  shows "g (fold f xs s) = g s"
  using fold_invariant [where P = "\<lambda>t. g t = g s" and f = f and xs = xs and s = s] assms
  by simp

lemma filter_list_update:
  assumes "i < length xs"
  shows "length (filter P (xs[i := x])) + of_bool (P (xs ! i)) = length (filter P xs) + of_bool (P x)"
  using assms
proof (induction xs arbitrary: i)
  case (Cons y ys)
  then show ?case by (cases i) auto
qed simp

end
