(* ===== verification/Float32.thy ===== *)
theory Float32
  imports Prelude
begin

text \<open>
  IEEE 754 binary32, the \<^verbatim>\<open>float\<close> of the C++ sources, as an executable type. Every finite binary32
  value is an integer multiple of \<open>2 ^ -149\<close>, so \<open>Fin s m\<close> stands for \<open>(-1) ^ s * m * 2 ^ -149\<close>
  with the sign kept apart (there are two zeros). \<open>+\<close>, \<open>-\<close>, \<open>*\<close>, \<open>/\<close> and \<open>f_sqrt\<close> compute the
  exact result and round it once, to nearest with ties to even, as the sources' expressions do
  when each operation is evaluated in \<^verbatim>\<open>float\<close> (no extended precision and no fused
  multiply-add). NaN payloads are not distinguished: no source expression looks at them. \<open><\<close> and
  \<open>\<le>\<close> are the C++ comparisons, false as soon as an operand is NaN. \<open>sin\<close>, \<open>cos\<close> and \<open>atan2\<close> are
  not fixed by the C++ standard to the last bit; they are the fields of the record \<open>libm\<close>, which
  the definitions that call them take as an argument.
\<close>

subsection \<open>Values and rounding\<close>

datatype f32 = NaN | Infty bool | Fin bool int

function bitlen :: "int \<Rightarrow> nat" where
  "bitlen n = (if n \<le> 0 then 0 else Suc (bitlen (n div 2)))"
  by pat_completeness auto
termination
  by (relation "measure nat") auto

declare bitlen.simps [simp del]

lemma bitlen_shift: "2 ^ k \<le> n \<Longrightarrow> bitlen n = k + bitlen (n div 2 ^ k)"
proof (induction k arbitrary: n)
  case 0
  then show ?case by simp
next
  case (Suc k)
  have pos: "0 < n" using Suc.prems by (smt (verit) zero_less_power)
  have "2 ^ k \<le> n div 2" using Suc.prems by simp
  then have "bitlen (n div 2) = k + bitlen (n div 2 div 2 ^ k)" by (rule Suc.IH)
  with pos show ?case
    by (simp add: bitlen.simps [of n] zdiv_zmult2_eq [symmetric])
qed

lemma bitlen_code [code]:
  "bitlen n =
     (if n \<le> 0 then 0
      else if 18446744073709551616 \<le> n then 64 + bitlen (n div 18446744073709551616)
      else if 65536 \<le> n then 16 + bitlen (n div 65536)
      else Suc (bitlen (n div 2)))"
  using bitlen_shift [of 64 n] bitlen_shift [of 16 n] by (simp add: bitlen.simps [of n])


definition rne :: "int \<Rightarrow> int \<Rightarrow> int" where
  "rne n d =
     (let q = n div d; r = n mod d in
      if 2 * r < d then q
      else if 2 * r > d then q + 1
      else if even q then q else q + 1)"

definition round_mag :: "int \<Rightarrow> int \<Rightarrow> int" where
  "round_mag n d = (let s = bitlen (n div d) - 24 in rne n (d * 2 ^ s) * 2 ^ s)"

definition f_round :: "bool \<Rightarrow> int \<Rightarrow> int \<Rightarrow> f32" where
  "f_round s n d = (let m = round_mag n d in if m < 2 ^ 277 then Fin s m else Infty s)"

definition sv :: "bool \<Rightarrow> int \<Rightarrow> int" where
  "sv s m = (if s then - m else m)"

fun f_neg :: "f32 \<Rightarrow> f32" where
  "f_neg NaN = NaN"
| "f_neg (Infty s) = Infty (\<not> s)"
| "f_neg (Fin s m) = Fin (\<not> s) m"

fun f_add :: "f32 \<Rightarrow> f32 \<Rightarrow> f32" where
  "f_add (Fin a m) (Fin b n) =
     (let v = sv a m + sv b n in
      if v = 0 then Fin (a \<and> b) 0 else f_round (v < 0) \<bar>v\<bar> 1)"
| "f_add (Infty a) (Infty b) = (if a = b then Infty a else NaN)"
| "f_add (Infty a) (Fin b n) = Infty a"
| "f_add (Fin a m) (Infty b) = Infty b"
| "f_add _ _ = NaN"

fun f_mul :: "f32 \<Rightarrow> f32 \<Rightarrow> f32" where
  "f_mul (Fin a m) (Fin b n) = f_round (a \<noteq> b) (m * n) (2 ^ 149)"
| "f_mul (Infty a) (Infty b) = Infty (a \<noteq> b)"
| "f_mul (Infty a) (Fin b n) = (if n = 0 then NaN else Infty (a \<noteq> b))"
| "f_mul (Fin a m) (Infty b) = (if m = 0 then NaN else Infty (a \<noteq> b))"
| "f_mul _ _ = NaN"

fun f_div :: "f32 \<Rightarrow> f32 \<Rightarrow> f32" where
  "f_div (Fin a m) (Fin b n) =
     (if n = 0 then (if m = 0 then NaN else Infty (a \<noteq> b))
      else f_round (a \<noteq> b) (m * 2 ^ 149) n)"
| "f_div (Infty a) (Fin b n) = Infty (a \<noteq> b)"
| "f_div (Fin a m) (Infty b) = Fin (a \<noteq> b) 0"
| "f_div _ _ = NaN"

function isqrt :: "int \<Rightarrow> int" where
  "isqrt n =
     (if n \<le> 0 then 0
      else let r = 2 * isqrt (n div 4) in if (r + 1) * (r + 1) \<le> n then r + 1 else r)"
  by pat_completeness auto
termination
  by (relation "measure nat") auto

declare isqrt.simps [simp del]

fun f_sqrt :: "f32 \<Rightarrow> f32" where
  "f_sqrt NaN = NaN"
| "f_sqrt (Infty s) = (if s then NaN else Infty False)"
| "f_sqrt (Fin s m) =
     (if m = 0 then Fin s 0
      else if s then NaN
      else let n = m * 2 ^ 149; r = isqrt n
           in f_round False (2 * r + (if r * r = n then 0 else 1)) 2)"

fun f_key :: "f32 \<Rightarrow> int" where
  "f_key NaN = 0"
| "f_key (Infty s) = sv s (2 ^ 277)"
| "f_key (Fin s m) = sv s m"

instantiation f32 :: "{plus, minus, uminus, times, inverse, zero, ord}"
begin

definition plus_f32 :: "f32 \<Rightarrow> f32 \<Rightarrow> f32" where "plus_f32 = f_add"
definition uminus_f32 :: "f32 \<Rightarrow> f32" where "uminus_f32 = f_neg"
definition minus_f32 :: "f32 \<Rightarrow> f32 \<Rightarrow> f32" where "minus_f32 x y = f_add x (f_neg y)"
definition times_f32 :: "f32 \<Rightarrow> f32 \<Rightarrow> f32" where "times_f32 = f_mul"
definition divide_f32 :: "f32 \<Rightarrow> f32 \<Rightarrow> f32" where "divide_f32 = f_div"
definition inverse_f32 :: "f32 \<Rightarrow> f32" where "inverse_f32 = f_div (Fin False (2 ^ 149))"
definition zero_f32 :: f32 where "zero_f32 = Fin False 0"
definition less_f32 :: "f32 \<Rightarrow> f32 \<Rightarrow> bool" where
  "less_f32 x y \<longleftrightarrow> x \<noteq> NaN \<and> y \<noteq> NaN \<and> f_key x < f_key y"
definition less_eq_f32 :: "f32 \<Rightarrow> f32 \<Rightarrow> bool" where
  "less_eq_f32 x y \<longleftrightarrow> x \<noteq> NaN \<and> y \<noteq> NaN \<and> f_key x \<le> f_key y"

instance ..

end

definition lit :: "int \<Rightarrow> int \<Rightarrow> f32" where
  "lit n d = f_round False (n * 2 ^ 149) d"

definition f_max :: "f32 \<Rightarrow> f32 \<Rightarrow> f32" where
  "f_max a b = (if a < b then b else a)"

definition f32_of_nat :: "nat \<Rightarrow> f32" where
  "f32_of_nat n = lit (int n) 1"

definition FLT_MAX :: f32 where
  "FLT_MAX = Fin False ((2 ^ 24 - 1) * 2 ^ 253)"

fun f_ceil :: "f32 \<Rightarrow> f32" where
  "f_ceil NaN = NaN"
| "f_ceil (Infty s) = Infty s"
| "f_ceil (Fin s m) =
     (if s then Fin True (m div 2 ^ 149 * 2 ^ 149)
      else Fin False (- (- m div 2 ^ 149) * 2 ^ 149))"

text \<open>Truncation to an unsigned size. The sources convert only finite non-negative values; the
  conversion of any other value is undefined in C++ and is 0 here.\<close>

fun f_to_nat :: "f32 \<Rightarrow> nat" where
  "f_to_nat (Fin False m) = nat (m div 2 ^ 149)"
| "f_to_nat _ = 0"

record libm =
  sinf :: "f32 \<Rightarrow> f32"
  cosf :: "f32 \<Rightarrow> f32"
  atan2f :: "f32 \<Rightarrow> f32 \<Rightarrow> f32"

subsection \<open>The integer part of rounding\<close>

lemma bitlen_bounds: "0 < n \<Longrightarrow> 2 ^ (bitlen n - 1) \<le> n \<and> n < 2 ^ bitlen n"
proof (induction n rule: bitlen.induct)
  case (1 n)
  show ?case
  proof (cases "n = 1")
    case True
    then show ?thesis by (simp add: bitlen.simps)
  next
    case False
    with "1.prems" have h: "0 < n div 2" by simp
    with "1.IH" "1.prems" have IH: "2 ^ (bitlen (n div 2) - 1) \<le> n div 2 \<and> n div 2 < 2 ^ bitlen (n div 2)"
      by simp
    have pos: "0 < bitlen (n div 2)" using h by (simp add: bitlen.simps [of "n div 2"])
    then obtain k where k: "bitlen (n div 2) = Suc k" by (cases "bitlen (n div 2)") auto
    have "bitlen n = Suc (Suc k)" using "1.prems" k by (simp add: bitlen.simps [of n])
    with IH k have "2 ^ k \<le> n div 2" "n div 2 < 2 * 2 ^ k" "bitlen n = Suc (Suc k)" by simp_all
    moreover from this(1,2) have "2 * 2 ^ k \<le> n" "n < 4 * 2 ^ k" by presburger+
    ultimately show ?thesis by simp
  qed
qed

lemma bitlen_le_iff: "0 \<le> n \<Longrightarrow> n < 2 ^ k \<Longrightarrow> bitlen n \<le> k"
proof (cases "n = 0")
  case True
  then show ?thesis by (simp add: bitlen.simps)
next
  case False
  assume "0 \<le> n" "n < 2 ^ k"
  with False bitlen_bounds [of n] have "(2::int) ^ (bitlen n - 1) < 2 ^ k" by linarith
  then have "bitlen n - 1 < k" by (rule power_less_imp_less_exp [rotated]) simp
  then show ?thesis by simp
qed

lemma rne_le: "0 < d \<Longrightarrow> n \<le> y * d \<Longrightarrow> rne n d \<le> y"
proof -
  assume d: "0 < d" and n: "n \<le> y * d"
  have q: "n div d \<le> y" using zdiv_mono1 [OF n d] d by simp
  show "rne n d \<le> y"
  proof (cases "n div d = y")
    case True
    have "n mod d = n - y * d" using True by (metis minus_div_mult_eq_mod)
    moreover have "0 \<le> n mod d" using d by simp
    ultimately have "n mod d = 0" using n by simp
    then show ?thesis using True d by (simp add: rne_def)
  next
    case False
    with q show ?thesis by (auto simp: rne_def Let_def)
  qed
qed

lemma rne_ge: "0 < d \<Longrightarrow> y * d \<le> n \<Longrightarrow> y \<le> rne n d"
proof -
  assume d: "0 < d" and n: "y * d \<le> n"
  have "y \<le> n div d" using zdiv_mono1 [OF n d] d by simp
  then show "y \<le> rne n d" by (auto simp: rne_def Let_def)
qed

definition representable :: "int \<Rightarrow> bool" where
  "representable m \<longleftrightarrow> 0 \<le> m \<and> 2 ^ (bitlen m - 24) dvd m"

lemma representable_dvd:
  assumes y: "representable y" and big: "2 ^ (23 + s) \<le> y"
  shows "2 ^ s dvd y"
proof -
  have pos: "0 < y" using big by (smt (verit) zero_less_power)
  have "(2::int) ^ (23 + s) < 2 ^ bitlen y"
    using big bitlen_bounds [OF pos] by linarith
  then have "23 + s < bitlen y" by simp
  then have "(2::int) ^ s dvd 2 ^ (bitlen y - 24)" by (intro le_imp_power_dvd) simp
  then show ?thesis using y dvd_trans by (auto simp: representable_def)
qed

lemma round_mag_le:
  assumes n: "0 \<le> n" and d: "0 < d" and y: "representable y" and le: "n \<le> y * d"
  shows "round_mag n d \<le> y"
proof -
  define s where "s = bitlen (n div d) - 24"
  have ds: "0 < d * 2 ^ s" using d by simp
  have "rne n (d * 2 ^ s) * 2 ^ s \<le> y"
  proof (cases "s = 0")
    case True
    then show ?thesis using rne_le [OF d le] by simp
  next
    case False
    then have big: "bitlen (n div d) - 1 = 23 + s" and nz: "bitlen (n div d) \<noteq> 0"
      by (auto simp: s_def)
    have "0 < n div d" using nz by (auto simp: bitlen.simps [of "n div d"] split: if_splits)
    from bitlen_bounds [OF this] have "2 ^ (23 + s) \<le> n div d" unfolding big by blast
    moreover have "n div d \<le> y" using zdiv_mono1 [OF le d] d by simp
    ultimately have "2 ^ (23 + s) \<le> y" by linarith
    then obtain c where c: "y = 2 ^ s * c" using representable_dvd [OF y] by (auto elim: dvdE)
    then have "n \<le> c * (d * 2 ^ s)" using le by (simp add: algebra_simps)
    from rne_le [OF ds this] show ?thesis using c by (simp add: mult.commute)
  qed
  then show ?thesis by (simp add: round_mag_def Let_def s_def)
qed

lemma round_mag_ge:
  assumes n: "0 \<le> n" and d: "0 < d" and y: "representable y" and le: "y * d \<le> n"
  shows "y \<le> round_mag n d"
proof -
  define s where "s = bitlen (n div d) - 24"
  have ds: "0 < d * 2 ^ s" using d by simp
  have "y \<le> rne n (d * 2 ^ s) * 2 ^ s"
  proof (cases "s = 0")
    case True
    then show ?thesis using rne_ge [OF d le] by simp
  next
    case False
    then have big: "bitlen (n div d) - 1 = 23 + s" and nz: "bitlen (n div d) \<noteq> 0"
      by (auto simp: s_def)
    have "0 < n div d" using nz by (auto simp: bitlen.simps [of "n div d"] split: if_splits)
    from bitlen_bounds [OF this] have q: "2 ^ (23 + s) \<le> n div d" unfolding big by blast
    have qd: "n div d * d \<le> n" using d by (simp add: minus_mod_eq_div_mult [symmetric])
    show ?thesis
    proof (cases "2 ^ (23 + s) \<le> y")
      case True
      then obtain c where c: "y = 2 ^ s * c" using representable_dvd [OF y] by (auto elim: dvdE)
      then have "c * (d * 2 ^ s) \<le> n" using le by (simp add: algebra_simps)
      from rne_ge [OF ds this] show ?thesis using c by (simp add: mult.commute)
    next
      case False
      have "2 ^ (23 + s) * d \<le> n"
        using mult_right_mono [OF q, of d] qd d by linarith
      then have "2 ^ 23 * (d * 2 ^ s) \<le> n" by (simp add: power_add mult.commute mult.left_commute)
      from rne_ge [OF ds this] have "2 ^ 23 * 2 ^ s \<le> rne n (d * 2 ^ s) * 2 ^ s"
        by (intro mult_right_mono) auto
      then show ?thesis using False unfolding power_add by linarith
    qed
  qed
  then show ?thesis by (simp add: round_mag_def Let_def s_def)
qed

lemma representable_0 [simp]: "representable 0"
  by (simp add: representable_def)

lemma representable_scaled:
  assumes "0 \<le> c" and "c \<le> 2 ^ 24"
  shows "representable (c * 2 ^ s)"
proof (cases "c = 2 ^ 24")
  case True
  then have eq: "c * 2 ^ s = 2 ^ (24 + s)" by (simp add: power_add)
  have "bitlen (2 ^ (24 + s)) \<le> 25 + s" by (rule bitlen_le_iff) auto
  then have "(2::int) ^ (bitlen (2 ^ (24 + s)) - 24) dvd 2 ^ (24 + s)"
    by (intro le_imp_power_dvd) simp
  then show ?thesis by (simp add: representable_def eq)
next
  case False
  with assms have "c * 2 ^ s < 2 ^ 24 * 2 ^ s" by simp
  then have "bitlen (c * 2 ^ s) \<le> 24 + s"
    using assms by (intro bitlen_le_iff) (simp_all add: power_add)
  then have "(2::int) ^ (bitlen (c * 2 ^ s) - 24) dvd 2 ^ s"
    by (intro le_imp_power_dvd) simp
  then show ?thesis using assms by (simp add: representable_def)
qed

lemma representable_round_mag:
  assumes n: "0 \<le> n" and d: "0 < d"
  shows "representable (round_mag n d)"
proof -
  define s where "s = bitlen (n div d) - 24"
  have ds: "0 < d * 2 ^ s" using d by simp
  have q0: "0 \<le> n div d" using n d by (simp add: pos_imp_zdiv_nonneg_iff)
  have "n div d < 2 ^ (24 + s)"
  proof (cases "n div d = 0")
    case False
    with q0 have "0 < n div d" by simp
    from bitlen_bounds [OF this] have "n div d < 2 ^ bitlen (n div d)" by simp
    also have "(2::int) ^ bitlen (n div d) \<le> 2 ^ (24 + s)"
      by (intro power_increasing) (simp_all add: s_def)
    finally show ?thesis .
  qed simp
  then have "n \<le> 2 ^ (24 + s) * d"
    using d by (smt (verit) div_pos_geq mult.commute nonzero_mult_div_cancel_left zdiv_mono1)
  then have "n \<le> 2 ^ 24 * (d * 2 ^ s)" by (simp add: power_add algebra_simps)
  from rne_le [OF ds this] have le: "rne n (d * 2 ^ s) \<le> 2 ^ 24" .
  have "0 \<le> rne n (d * 2 ^ s)" using rne_ge [OF ds, of 0 n] n by simp
  from representable_scaled [OF this le] show ?thesis
    by (simp add: round_mag_def Let_def s_def)
qed


subsection \<open>Well-formed values and the order\<close>

fun f_ok :: "f32 \<Rightarrow> bool" where
  "f_ok NaN = True"
| "f_ok (Infty s) = True"
| "f_ok (Fin s m) \<longleftrightarrow> representable m \<and> m < 2 ^ 277"

lemma f_ok_0 [simp]: "f_ok 0"
  by (simp add: zero_f32_def)

lemma f_ok_round: "0 \<le> n \<Longrightarrow> 0 < d \<Longrightarrow> f_ok (f_round s n d)"
  by (simp add: f_round_def Let_def representable_round_mag)

lemma f_round_not_NaN [simp]: "f_round s n d \<noteq> NaN"
  by (simp add: f_round_def Let_def)

lemma representable_nonneg: "representable m \<Longrightarrow> 0 \<le> m"
  by (simp add: representable_def)

lemma f_ok_add [simp]: "f_ok (x + y)"
  unfolding plus_f32_def
  by (induction x y rule: f_add.induct) (auto simp: Let_def intro!: f_ok_round)

lemma f_ok_neg [simp]: "f_ok (- x) = f_ok x"
  unfolding uminus_f32_def by (cases x) auto

lemma f_ok_minus [simp]: "f_ok (x - y)"
  using f_ok_add [of x "- y"] by (simp add: plus_f32_def minus_f32_def uminus_f32_def)

lemma f_ok_times [simp]: "f_ok x \<Longrightarrow> f_ok y \<Longrightarrow> f_ok (x * y)"
  unfolding times_f32_def
  by (induction x y rule: f_mul.induct)
     (auto simp: Let_def representable_nonneg intro!: f_ok_round)

lemma f_ok_lit [simp]: "0 \<le> n \<Longrightarrow> 0 < d \<Longrightarrow> f_ok (lit n d)"
  by (simp add: lit_def f_ok_round)

lemma lit_not_NaN [simp]: "lit n d \<noteq> NaN"
  by (simp add: lit_def)

lemma f_ok_max [simp]: "f_ok x \<Longrightarrow> f_ok y \<Longrightarrow> f_ok (f_max x y)"
  by (simp add: f_max_def)

lemma f_less_trans: "(x::f32) < y \<Longrightarrow> y < z \<Longrightarrow> x < z"
  by (auto simp: less_f32_def)

lemma f_le_trans: "(x::f32) \<le> y \<Longrightarrow> y \<le> z \<Longrightarrow> x \<le> z"
  by (auto simp: less_eq_f32_def)

lemma f_less_le_trans: "(x::f32) < y \<Longrightarrow> y \<le> z \<Longrightarrow> x < z"
  by (auto simp: less_f32_def less_eq_f32_def)

lemma f_less_irrefl [simp]: "\<not> (x::f32) < x"
  by (simp add: less_f32_def)

lemma f_less_imp_le: "(x::f32) < y \<Longrightarrow> x \<le> y"
  by (auto simp: less_f32_def less_eq_f32_def)

lemma f_le_not_less: "(x::f32) \<le> y \<Longrightarrow> \<not> y < x"
  by (auto simp: less_f32_def less_eq_f32_def)

lemma f_not_less: "x \<noteq> NaN \<Longrightarrow> y \<noteq> NaN \<Longrightarrow> \<not> x < y \<longleftrightarrow> y \<le> x"
  by (auto simp: less_f32_def less_eq_f32_def)

lemma f_le_refl: "x \<noteq> NaN \<Longrightarrow> x \<le> (x::f32)"
  by (simp add: less_eq_f32_def)

lemma f_le_NaN [simp]: "\<not> NaN \<le> x" "\<not> x \<le> NaN" "\<not> NaN < x" "\<not> x < NaN"
  by (auto simp: less_f32_def less_eq_f32_def)

text \<open>Rounding never crosses a representable value, from either side.\<close>

lemma key_round_le:
  assumes "0 \<le> n" and z: "f_ok z" "z \<noteq> NaN" and le: "sv s n \<le> f_key z"
  shows "f_key (f_round s n 1) \<le> f_key z"
proof (cases z)
  case (Infty t)
  have "0 \<le> round_mag n 1" using round_mag_ge [of n 1 0] assms(1) by simp
  moreover have "2 ^ 277 \<le> n \<Longrightarrow> 2 ^ 277 \<le> round_mag n 1"
    using round_mag_ge [of n 1 "2 ^ 277"] representable_scaled [of 1 277] assms(1) by simp
  ultimately show ?thesis
    using le Infty assms(1) by (cases s; cases t) (auto simp: f_round_def Let_def sv_def)
next
  case (Fin t k)
  with z have k: "representable k" "k < 2 ^ 277" "0 \<le> k" by (auto simp: representable_nonneg)
  have nn: "0 \<le> round_mag n 1" using round_mag_ge [of n 1 0] assms(1) by simp
  show ?thesis
  proof (cases s)
    case True
    then show ?thesis
      using le Fin k nn round_mag_ge [of n 1 k] assms(1)
      by (cases t) (auto simp: f_round_def Let_def sv_def)
  next
    case False
    show ?thesis
    proof (cases t)
      case True
      then have "n = 0 \<and> k = 0" using le False Fin k assms(1) by (auto simp: sv_def)
      then show ?thesis
        using True Fin False round_mag_le [of 0 1 0] nn by (auto simp: f_round_def Let_def sv_def)
    next
      case False
      then show ?thesis
        using le Fin k \<open>\<not> s\<close> round_mag_le [of n 1 k] assms(1)
        by (auto simp: f_round_def Let_def sv_def)
    qed
  qed
qed (use z in simp)

lemma f_key_neg: "f_key (- x) = - f_key x"
  unfolding uminus_f32_def by (cases x) (auto simp: sv_def)

lemma key_round_ge:
  assumes "0 \<le> n" and z: "f_ok z" "z \<noteq> NaN" and le: "f_key z \<le> sv s n"
  shows "f_key z \<le> f_key (f_round s n 1)"
proof -
  have "- z \<noteq> NaN" using z by (cases z) (auto simp: uminus_f32_def)
  then have "f_key (f_round (\<not> s) n 1) \<le> f_key (- z)"
    using assms by (intro key_round_le) (auto simp: f_key_neg sv_def)
  then show ?thesis by (simp add: f_key_neg f_round_def Let_def sv_def split: if_splits)
qed

lemma f_ok_key_bound: "f_ok x \<Longrightarrow> \<bar>f_key x\<bar> \<le> 2 ^ 277"
  by (cases x) (auto simp: sv_def representable_nonneg)

lemma f_key_add_le:
  assumes "f_ok z" and "z \<noteq> NaN" and "sv a m + sv b n \<le> f_key z"
  shows "f_key (Fin a m + Fin b n) \<le> f_key z"
proof (cases "sv a m + sv b n = 0")
  case True
  then show ?thesis using assms(3) by (simp add: plus_f32_def sv_def)
next
  case False
  have "sv (sv a m + sv b n < 0) \<bar>sv a m + sv b n\<bar> = sv a m + sv b n" by (auto simp: sv_def)
  then show ?thesis using key_round_le assms False by (simp add: plus_f32_def Let_def)
qed

lemma f_key_add_ge:
  assumes "f_ok z" and "z \<noteq> NaN" and "f_key z \<le> sv a m + sv b n"
  shows "f_key z \<le> f_key (Fin a m + Fin b n)"
proof (cases "sv a m + sv b n = 0")
  case True
  then show ?thesis using assms(3) by (simp add: plus_f32_def sv_def)
next
  case False
  have "sv (sv a m + sv b n < 0) \<bar>sv a m + sv b n\<bar> = sv a m + sv b n" by (auto simp: sv_def)
  then show ?thesis using key_round_ge assms False by (simp add: plus_f32_def Let_def)
qed

lemma Fin_add_not_NaN [simp]: "Fin a m + Fin b n \<noteq> NaN"
  by (simp add: plus_f32_def Let_def)

text \<open>What the simulation relies on: adding a non-negative amount never decreases a value, and
  subtracting a finite non-negative amount never increases it.\<close>

lemma f_add_ge:
  assumes "f_ok x" "0 \<le> y" and "x \<noteq> NaN" and "x \<noteq> Infty True"
  shows "x \<le> x + y"
proof (cases x)
  case (Fin a m)
  show ?thesis
  proof (cases y)
    case (Fin b n)
    with assms(2) have "0 \<le> sv b n" by (simp add: less_eq_f32_def zero_f32_def sv_def)
    then show ?thesis
      using f_key_add_ge [of x a m b n] assms \<open>x = Fin a m\<close> Fin
      by (simp add: less_eq_f32_def)
  next
    case (Infty b)
    with assms(2) have "\<not> b" by (auto simp: less_eq_f32_def zero_f32_def sv_def split: if_splits)
    then show ?thesis using \<open>x = Fin a m\<close> Infty assms(1) f_ok_key_bound [of x]
      by (auto simp: less_eq_f32_def plus_f32_def sv_def)
  qed (use assms in simp)
next
  case (Infty a)
  then show ?thesis
    using assms by (cases y) (auto simp: less_eq_f32_def plus_f32_def zero_f32_def sv_def split: if_splits)
qed (use assms in simp)

lemma f_add_nonneg: "f_ok x \<Longrightarrow> 0 \<le> x \<Longrightarrow> 0 \<le> y \<Longrightarrow> 0 \<le> x + y"
proof -
  assume a: "f_ok x" "0 \<le> x" "0 \<le> y"
  then have "x \<noteq> NaN" "x \<noteq> Infty True" by (auto simp: less_eq_f32_def zero_f32_def sv_def)
  with a show "0 \<le> x + y" using f_add_ge f_le_trans by blast
qed

lemma f_sub_le:
  assumes "f_ok x" "x \<noteq> NaN" "y = Fin b n" "0 \<le> y"
  shows "x - y \<le> x"
proof (cases x)
  case (Fin a m)
  have "0 \<le> sv b n" using assms(3,4) by (simp add: less_eq_f32_def zero_f32_def sv_def)
  then have "sv a m + sv (\<not> b) n \<le> f_key x" using Fin by (auto simp: sv_def split: if_splits)
  from f_key_add_le [OF assms(1,2) this] show ?thesis
    using Fin assms Fin_add_not_NaN [of a m "\<not> b" n]
    by (simp add: less_eq_f32_def minus_f32_def plus_f32_def)
next
  case (Infty a)
  then show ?thesis using assms(3) by (simp add: less_eq_f32_def minus_f32_def)
qed (use assms in simp)

lemma f_max_ge: "0 \<le> f_max 0 x"
  by (cases x) (auto simp: f_max_def less_f32_def less_eq_f32_def zero_f32_def)

lemma f_max_not_NaN: "f_max 0 x \<noteq> NaN"
  by (cases x) (auto simp: f_max_def less_f32_def zero_f32_def)

lemma round_mag_0: "0 < d \<Longrightarrow> round_mag 0 d = 0"
  using round_mag_le [of 0 d 0] round_mag_ge [of 0 d 0] by simp

lemma f_times_nonneg:
  assumes "f_ok x" "f_ok y" "0 \<le> x" "0 \<le> y" "x * y \<noteq> NaN"
  shows "0 \<le> x * y"
proof -
  have sgn: "a \<Longrightarrow> m = 0" if "0 \<le> Fin a m" "f_ok (Fin a m)" for a m
    using that by (auto simp: less_eq_f32_def zero_f32_def sv_def representable_def)
  have "0 \<le> f_key (x * y)"
  proof (cases x; cases y)
    fix a m b n
    assume xy: "x = Fin a m" "y = Fin b n"
    then have "0 \<le> m * n" using assms(1,2) by (simp add: representable_nonneg)
    then have "0 \<le> round_mag (m * n) (2 ^ 149)" using round_mag_ge [of "m * n" "2 ^ 149" 0] by simp
    moreover have "a \<noteq> b \<Longrightarrow> m * n = 0" using sgn assms xy by (cases a; cases b) auto
    ultimately show ?thesis
      using xy by (auto simp: times_f32_def f_round_def Let_def sv_def round_mag_0)
  qed (use assms in \<open>auto simp: times_f32_def less_eq_f32_def zero_f32_def sv_def
        representable_def split: if_splits\<close>)
  then show ?thesis using assms(5) by (simp add: less_eq_f32_def zero_f32_def sv_def)
qed

text \<open>A value that is already representable is not changed by rounding.\<close>

lemma f_round_exact: "representable m \<Longrightarrow> m < 2 ^ 277 \<Longrightarrow> f_round s m 1 = Fin s m"
  using round_mag_le [of m 1 m] round_mag_ge [of m 1 m]
  by (auto simp: f_round_def Let_def representable_def)

text \<open>The integer square root under \<open>f_sqrt\<close> is the floor of the real one.\<close>

lemma isqrt_bounds:
  "0 \<le> n \<Longrightarrow> 0 \<le> isqrt n \<and> isqrt n * isqrt n \<le> n \<and> n < (isqrt n + 1) * (isqrt n + 1)"
proof (induction n rule: isqrt.induct)
  case (1 n)
  show ?case
  proof (cases "n = 0")
    case True
    then show ?thesis by (simp add: isqrt.simps)
  next
    case False
    define k where "k = isqrt (n div 4)"
    from False "1.prems" "1.IH" have k: "0 \<le> k" "k * k \<le> n div 4" "n div 4 < (k + 1) * (k + 1)"
      by (auto simp: k_def)
    from k(2) have lo: "4 * (k * k) \<le> n" by linarith
    from k(3) have "n div 4 + 1 \<le> (k + 1) * (k + 1)" by linarith
    then have hi: "n < 4 * ((k + 1) * (k + 1))" by linarith
    have "isqrt n = (if (2 * k + 1) * (2 * k + 1) \<le> n then 2 * k + 1 else 2 * k)"
      using False "1.prems" by (simp add: isqrt.simps [of n] k_def Let_def)
    then show ?thesis using k(1) lo hi by (auto simp: algebra_simps)
  qed
qed

end
