(* ===== verification/Containers.thy ===== *)
theory Containers
  imports Prelude
begin

text \<open>
  The standard containers the servers keep their state in. A \<^verbatim>\<open>std::unordered_map\<close> is an association
  list with distinct keys, a \<^verbatim>\<open>std::unordered_set\<close> a list with distinct elements, both in insertion
  order. The order in which C++ iterates over an unordered container is not specified; a model of
  code that iterates takes it as an argument of type \<open>iter_order\<close>, which rearranges the insertion
  order of the container it is applied to (every element is visited exactly once, \<open>iter_ok\<close>).
  The map operations the sources call are specified by the locale \<open>unordered_map\<close>, which the
  association lists interpret.
\<close>

type_synonym ('k, 'v) umap = "('k \<times> 'v) list"
type_synonym 'k uset = "'k list"

definition um_find :: "('k, 'v) umap \<Rightarrow> 'k \<Rightarrow> 'v option" where
  "um_find m k = map_of m k"

definition um_keys :: "('k, 'v) umap \<Rightarrow> 'k list" where
  "um_keys m = map fst m"

definition um_emplace :: "'k \<Rightarrow> 'v \<Rightarrow> ('k, 'v) umap \<Rightarrow> ('k, 'v) umap" where
  "um_emplace k v m = (case um_find m k of None \<Rightarrow> m @ [(k, v)] | Some _ \<Rightarrow> m)"

definition um_adjust :: "'k \<Rightarrow> ('v \<Rightarrow> 'v) \<Rightarrow> ('k, 'v) umap \<Rightarrow> ('k, 'v) umap" where
  "um_adjust k f m = map (\<lambda>(j, v). if j = k then (j, f v) else (j, v)) m"

definition um_assign :: "'k \<Rightarrow> 'v \<Rightarrow> ('k, 'v) umap \<Rightarrow> ('k, 'v) umap" where
  "um_assign k v m =
     (case um_find m k of None \<Rightarrow> m @ [(k, v)] | Some _ \<Rightarrow> um_adjust k (\<lambda>_. v) m)"

definition um_erase :: "'k \<Rightarrow> ('k, 'v) umap \<Rightarrow> ('k, 'v) umap" where
  "um_erase k m = filter (\<lambda>(j, _). j \<noteq> k) m"

definition um_erase_if :: "('v \<Rightarrow> bool) \<Rightarrow> ('k, 'v) umap \<Rightarrow> ('k, 'v) umap" where
  "um_erase_if p m = filter (\<lambda>(_, v). \<not> p v) m"

definition um_ok :: "('k, 'v) umap \<Rightarrow> bool" where
  "um_ok m \<longleftrightarrow> distinct (um_keys m)"

definition us_insert :: "'k \<Rightarrow> 'k uset \<Rightarrow> 'k uset" where
  "us_insert x s = (if x \<in> set s then s else s @ [x])"

text \<open>The unordered containers of the servers that are iterated over.\<close>

datatype container =
  CUnits | CBuildings | CFields | CDrops | CPlayers | CPlayerRes
  | CDirty | CBuildingDirty | CResourceDirty | CRooms

type_synonym iter_order = "container \<Rightarrow> u64 list \<Rightarrow> u64 list"

definition iter_ok :: "iter_order \<Rightarrow> bool" where
  "iter_ok ord \<longleftrightarrow> (\<forall>c xs. mset (ord c xs) = mset xs)"

subsection \<open>The association list against the map operations\<close>

lemma um_find_Nil [simp, um_simps]: "um_find [] k = None"
  by (simp add: um_find_def)

lemma um_keys_Nil [simp, um_simps]: "um_keys [] = []"
  by (simp add: um_keys_def)

lemma um_ok_Nil [simp, um_simps]: "um_ok []"
  by (simp add: um_ok_def)

lemma um_find_None_iff [um_simps]: "um_find m k = None \<longleftrightarrow> k \<notin> set (um_keys m)"
  by (simp add: um_find_def um_keys_def map_of_eq_None_iff)

lemma um_find_in_set: "um_find m k = Some v \<Longrightarrow> (k, v) \<in> set m"
  by (simp add: um_find_def map_of_SomeD)

lemma um_find_SomeI: "um_ok m \<Longrightarrow> (k, v) \<in> set m \<Longrightarrow> um_find m k = Some v"
  by (simp add: um_find_def um_ok_def um_keys_def)

lemma um_find_emplace [simp, um_simps]:
  "um_find (um_emplace k v m) j =
     (if j = k \<and> um_find m k = None then Some v else um_find m j)"
  by (auto simp: um_emplace_def um_find_def map_add_def split: option.splits)

lemma um_find_adjust [simp, um_simps]:
  "um_find (um_adjust k f m) j = (if j = k then map_option f (um_find m k) else um_find m j)"
  by (induction m) (auto simp: um_adjust_def um_find_def)

lemma um_keys_adjust [simp, um_simps]: "um_keys (um_adjust k f m) = um_keys m"
  by (induction m) (auto simp: um_adjust_def um_keys_def)

lemma um_find_assign [simp, um_simps]:
  "um_find (um_assign k v m) j = (if j = k then Some v else um_find m j)"
proof (cases "um_find m k")
  case None
  then show ?thesis by (auto simp: um_assign_def um_find_def map_add_def split: option.splits)
next
  case (Some w)
  then show ?thesis by (simp add: um_assign_def)
qed

lemma um_find_erase [simp, um_simps]:
  "um_find (um_erase k m) j = (if j = k then None else um_find m j)"
  by (induction m) (auto simp: um_erase_def um_find_def)

lemma um_keys_erase: "um_keys (um_erase k m) = filter (\<lambda>j. j \<noteq> k) (um_keys m)"
  by (induction m) (auto simp: um_erase_def um_keys_def)

lemma um_keys_emplace:
  "um_keys (um_emplace k v m) = (if um_find m k = None then um_keys m @ [k] else um_keys m)"
  by (auto simp: um_emplace_def um_keys_def split: option.splits)

lemma um_ok_emplace [simp, intro]: "um_ok m \<Longrightarrow> um_ok (um_emplace k v m)"
  by (auto simp: um_ok_def um_keys_emplace um_find_None_iff)

lemma um_ok_adjust [simp, intro]: "um_ok (um_adjust k f m) = um_ok m"
  by (simp add: um_ok_def)

lemma um_ok_assign [simp, intro]: "um_ok m \<Longrightarrow> um_ok (um_assign k v m)"
  by (auto simp: um_assign_def um_ok_def um_keys_def um_find_None_iff [unfolded um_keys_def]
      um_keys_adjust [unfolded um_keys_def] split: option.splits)

lemma um_ok_erase [simp, intro]: "um_ok m \<Longrightarrow> um_ok (um_erase k m)"
  by (simp add: um_ok_def um_keys_erase)

lemma um_keys_erase_if_subset: "set (um_keys (um_erase_if p m)) \<subseteq> set (um_keys m)"
  by (auto simp: um_erase_if_def um_keys_def)

lemma um_ok_erase_if [simp, intro]: "um_ok m \<Longrightarrow> um_ok (um_erase_if p m)"
  by (induction m) (auto simp: um_ok_def um_keys_def um_erase_if_def)

lemma um_find_erase_if [um_simps]:
  assumes "um_ok m"
  shows "um_find (um_erase_if p m) j =
     (case um_find m j of None \<Rightarrow> None | Some v \<Rightarrow> if p v then None else Some v)"
  using assms
proof (induction m)
  case Nil
  then show ?case by (simp add: um_erase_if_def)
next
  case (Cons a m)
  then have IH: "um_find (um_erase_if p m) j =
      (case um_find m j of None \<Rightarrow> None | Some v \<Rightarrow> if p v then None else Some v)"
    and fresh: "um_find m (fst a) = None"
    by (auto simp: um_ok_def um_keys_def um_find_None_iff)
  show ?case
    using IH fresh
    by (cases a; cases "j = fst a") (auto simp: um_erase_if_def um_find_def split: option.splits)
qed

lemma um_adjust_in_set:
  "(j, w) \<in> set (um_adjust k f m) \<Longrightarrow>
     (j, w) \<in> set m \<and> j \<noteq> k \<or> (\<exists>v. (k, v) \<in> set m \<and> j = k \<and> w = f v)"
  by (auto simp: um_adjust_def split: if_splits)

lemma um_emplace_in_set:
  "p \<in> set (um_emplace k v m) \<longleftrightarrow> p \<in> set m \<or> (um_find m k = None \<and> p = (k, v))"
  by (auto simp: um_emplace_def split: option.splits)

lemma um_erase_in_set: "(j, v) \<in> set (um_erase k m) \<longleftrightarrow> (j, v) \<in> set m \<and> j \<noteq> k"
  by (auto simp: um_erase_def)

lemma um_erase_if_in_set: "(j, v) \<in> set (um_erase_if p m) \<longleftrightarrow> (j, v) \<in> set m \<and> \<not> p v"
  by (auto simp: um_erase_if_def)

lemma set_us_insert [simp, um_simps]: "set (us_insert x s) = insert x (set s)"
  by (auto simp: us_insert_def)

lemma distinct_us_insert: "distinct s \<Longrightarrow> distinct (us_insert x s)"
  by (simp add: us_insert_def)

subsection \<open>Iteration\<close>

lemma iter_ok_set: "iter_ok ord \<Longrightarrow> set (ord c xs) = set xs"
  by (metis iter_ok_def set_mset_mset)

lemma iter_ok_distinct: "iter_ok ord \<Longrightarrow> distinct (ord c xs) = distinct xs"
  by (metis iter_ok_def mset_eq_imp_distinct_iff)

lemma iter_ok_length: "iter_ok ord \<Longrightarrow> length (ord c xs) = length xs"
  by (metis iter_ok_def mset_eq_length)

lemma iter_ok_insertion: "iter_ok (\<lambda>_ xs. xs)"
  by (simp add: iter_ok_def)

lemma iter_ok_rev: "iter_ok (\<lambda>_ xs. rev xs)"
  by (simp add: iter_ok_def)

subsection \<open>The interface\<close>

text \<open>
  What a client of \<^verbatim>\<open>std::unordered_map\<close> may rely on: the result of a lookup after each operation,
  that the keys are those that a lookup finds, each once, and that no operation breaks this.
  \<open>emplace\<close> does not overwrite, \<open>assign\<close> (\<^verbatim>\<open>m[k] = v\<close>) does.
\<close>

locale unordered_map =
  fixes find :: "'m \<Rightarrow> 'k \<Rightarrow> 'v option"
    and emplace :: "'k \<Rightarrow> 'v \<Rightarrow> 'm \<Rightarrow> 'm"
    and assign :: "'k \<Rightarrow> 'v \<Rightarrow> 'm \<Rightarrow> 'm"
    and erase :: "'k \<Rightarrow> 'm \<Rightarrow> 'm"
    and keys :: "'m \<Rightarrow> 'k list"
    and invar :: "'m \<Rightarrow> bool"
  assumes find_emplace: "find (emplace k v m) j =
      (if j = k \<and> find m k = None then Some v else find m j)"
    and find_assign: "find (assign k v m) j = (if j = k then Some v else find m j)"
    and find_erase: "find (erase k m) j = (if j = k then None else find m j)"
    and keys_find: "k \<in> set (keys m) \<longleftrightarrow> find m k \<noteq> None"
    and keys_distinct: "invar m \<Longrightarrow> distinct (keys m)"
    and invar_emplace: "invar m \<Longrightarrow> invar (emplace k v m)"
    and invar_assign: "invar m \<Longrightarrow> invar (assign k v m)"
    and invar_erase: "invar m \<Longrightarrow> invar (erase k m)"
begin

lemma keys_emplace: "set (keys (emplace k v m)) = insert k (set (keys m))"
  by (auto simp: keys_find find_emplace split: if_splits)

lemma keys_assign: "set (keys (assign k v m)) = insert k (set (keys m))"
  by (auto simp: keys_find find_assign split: if_splits)

lemma keys_erase: "set (keys (erase k m)) = set (keys m) - {k}"
  by (auto simp: keys_find find_erase split: if_splits)

text \<open>The number of entries after an operation, which the capacity checks of a room read.\<close>

lemma size_keys: "invar m \<Longrightarrow> length (keys m) = card (set (keys m))"
  by (simp add: keys_distinct distinct_card)

lemma size_emplace_fresh:
  assumes "invar m" and "find m k = None"
  shows "length (keys (emplace k v m)) = Suc (length (keys m))"
proof -
  have "k \<notin> set (keys m)" using assms(2) by (simp add: keys_find)
  then show ?thesis
    using assms by (simp add: size_keys invar_emplace keys_emplace)
qed

lemma size_erase:
  assumes "invar m"
  shows "length (keys (erase k m)) =
     (if find m k = None then length (keys m) else length (keys m) - 1)"
  using assms by (simp add: size_keys invar_erase keys_erase keys_find)

end

interpretation um: unordered_map um_find um_emplace um_assign um_erase um_keys um_ok
proof unfold_locales
  show "k \<in> set (um_keys m) \<longleftrightarrow> um_find m k \<noteq> None" for k :: 'a and m :: "('a, 'b) umap"
    by (simp add: um_find_None_iff)
qed (auto simp: um_ok_def [symmetric])

end
