(* ===== verification/DungeonTypes.thy ===== *)
theory DungeonTypes
  imports Float32 Containers
begin

text \<open>
  The data of a game room (\<^verbatim>\<open>src/GameServer/include/DungeonRoom.h\<close>, the part before the class and
  the class's private fields): the gameplay constants, the cost tables, the entities, the player
  ledger, commands and rejections, and the state of a room as one record, field by field (the class
  field \<^verbatim>\<open>name_\<close> is \<open>dr_name\<close>). Entity
  structs are records whose fields carry a one-letter prefix; a freshly declared C++ struct is the
  \<open>default\<close> value of its record.
\<close>

subsection \<open>Positions and constants\<close>

record Vec3f =
  vx :: f32
  vy :: f32
  vz :: f32

definition Vec3f_default :: Vec3f where
  "Vec3f_default = \<lparr>vx = 0, vy = 0, vz = 0\<rparr>"

definition kStateIdle :: u32 where [simp]: "kStateIdle = 0"
definition kStateMoving :: u32 where [simp]: "kStateMoving = 1"
definition kStateWorking :: u32 where [simp]: "kStateWorking = 2"
definition kStateAttacking :: u32 where [simp]: "kStateAttacking = 3"

definition kUnitVillager :: u32 where [simp]: "kUnitVillager = 0"

definition kBuildingResourceCamp :: u32 where [simp]: "kBuildingResourceCamp = 0"
definition kBuildingVillagerInn :: u32 where [simp]: "kBuildingVillagerInn = 1"
definition kBuildingBarracks :: u32 where [simp]: "kBuildingBarracks = 2"
definition kBuildingCrystal :: u32 where [simp]: "kBuildingCrystal = 3"

definition kResFood :: u32 where [simp]: "kResFood = 0"
definition kResWood :: u32 where [simp]: "kResWood = 1"
definition kResGold :: u32 where [simp]: "kResGold = 2"
definition kResNone :: u32 where [simp]: "kResNone = 3"

definition kRawBerries :: u32 where [simp]: "kRawBerries = 0"
definition kRawGold :: u32 where [simp]: "kRawGold = 1"
definition kRawWood :: u32 where [simp]: "kRawWood = 2"
definition kRawFarm :: u32 where [simp]: "kRawFarm = 3"

definition kAttackRange :: f32 where "kAttackRange = lit 2 1"
definition kAttackDamage :: f32 where "kAttackDamage = lit 20 1"
definition kAttackCooldown :: f32 where "kAttackCooldown = lit 1 1"
definition kBuildingAttackRange :: f32 where "kBuildingAttackRange = lit 4 1"
definition kTrainSpawnFront :: f32 where "kTrainSpawnFront = lit 4 1"
definition kTrainWalkOut :: f32 where "kTrainWalkOut = lit 3 1"
definition kTrainLateralSpacing :: f32 where "kTrainLateralSpacing = lit 15 10"
definition kVillagerMoveSpeed :: f32 where "kVillagerMoveSpeed = lit 6 1"
definition kAggroRange :: f32 where "kAggroRange = lit 8 1"
definition kAggroLeash :: f32 where "kAggroLeash = lit 14 1"
definition kAggroScanTicks :: u32 where [simp]: "kAggroScanTicks = 5"
definition kDefendRange :: f32 where "kDefendRange = lit 3 1"

definition kVillagerCarryCapacity :: u32 where [simp]: "kVillagerCarryCapacity = 10"
definition kHarvestInterval :: f32 where "kHarvestInterval = lit 1 1"
definition kHarvestAmount :: u32 where [simp]: "kHarvestAmount = 1"
definition kCarryLiftDuration :: f32 where "kCarryLiftDuration = lit 22 10"
definition kBuildRange :: f32 where "kBuildRange = lit 25 10"
definition kConstructPercentPerSec :: f32 where "kConstructPercentPerSec = lit 25 1"

definition kStartFood :: u32 where [simp]: "kStartFood = 200"
definition kStartWood :: u32 where [simp]: "kStartWood = 200"
definition kStartGold :: u32 where [simp]: "kStartGold = 100"

subsection \<open>Cost tables\<close>

record ResCost =
  c_food :: u32
  c_wood :: u32
  c_gold :: u32

definition BuildingCost :: "u32 \<Rightarrow> ResCost" where
  "BuildingCost building_type =
     (if building_type = kBuildingResourceCamp then \<lparr>c_food = 0, c_wood = 50, c_gold = 0\<rparr>
      else if building_type = kBuildingVillagerInn then \<lparr>c_food = 0, c_wood = 100, c_gold = 0\<rparr>
      else if building_type = kBuildingBarracks then \<lparr>c_food = 0, c_wood = 150, c_gold = 0\<rparr>
      else if building_type = kBuildingCrystal then \<lparr>c_food = 0, c_wood = 0, c_gold = 0\<rparr>
      else \<lparr>c_food = 0, c_wood = 0, c_gold = 0\<rparr>)"

definition BuildingMaxHp :: "u32 \<Rightarrow> f32" where
  "BuildingMaxHp building_type =
     (if building_type = kBuildingResourceCamp then lit 200 1
      else if building_type = kBuildingVillagerInn then lit 300 1
      else if building_type = kBuildingBarracks then lit 400 1
      else if building_type = kBuildingCrystal then lit 300 1
      else lit 200 1)"

definition UnitCost :: "u32 \<Rightarrow> ResCost" where
  "UnitCost unit_type =
     (if unit_type = kUnitVillager then \<lparr>c_food = 50, c_wood = 0, c_gold = 0\<rparr>
      else \<lparr>c_food = 50, c_wood = 0, c_gold = 0\<rparr>)"

definition UnitTrainTime :: "u32 \<Rightarrow> f32" where
  "UnitTrainTime unit_type = lit 2 1"

definition BuildingTrainsUnit :: "u32 \<Rightarrow> u32 \<Rightarrow> bool" where
  "BuildingTrainsUnit building_type unit_type =
     (if unit_type = kUnitVillager
      then building_type = kBuildingVillagerInn \<or> building_type = kBuildingCrystal
      else building_type = kBuildingBarracks)"

definition RawToResourceType :: "u32 \<Rightarrow> u32" where
  "RawToResourceType raw =
     (if raw = kRawBerries then kResFood
      else if raw = kRawFarm then kResFood
      else if raw = kRawWood then kResWood
      else if raw = kRawGold then kResGold
      else kResNone)"

subsection \<open>Entities\<close>

datatype WorkerTask =
  TaskNone | Gathering | PreparingReturn | Returning | TaskPickup | Constructing

record Unit =
  u_id :: u64
  u_owner_uid :: u64
  u_team :: u32
  u_unit_type :: u32
  u_pos :: Vec3f
  u_target :: Vec3f
  u_has_target :: bool
  u_path :: "Vec3f list"
  u_path_index :: nat
  u_yaw :: f32
  u_hp :: f32
  u_speed :: f32
  u_state :: u32
  u_attack_target :: u64
  u_attack_cd :: f32
  u_task :: WorkerTask
  u_gather_field_id :: u64
  u_dropoff_id :: u64
  u_pickup_drop_id :: u64
  u_build_target_id :: u64
  u_interaction_offset :: Vec3f
  u_carried_amount :: u32
  u_carried_raw :: u32
  u_work_cd :: f32
  u_auto_aggro :: bool
  u_aggro_origin :: Vec3f

definition Unit_default :: Unit where
  "Unit_default =
     \<lparr>u_id = 0, u_owner_uid = 0, u_team = 0, u_unit_type = 0, u_pos = Vec3f_default,
      u_target = Vec3f_default, u_has_target = False, u_path = [], u_path_index = 0, u_yaw = 0,
      u_hp = 0, u_speed = 0, u_state = 0, u_attack_target = 0, u_attack_cd = 0,
      u_task = TaskNone, u_gather_field_id = 0, u_dropoff_id = 0, u_pickup_drop_id = 0,
      u_build_target_id = 0, u_interaction_offset = Vec3f_default, u_carried_amount = 0,
      u_carried_raw = 0, u_work_cd = 0, u_auto_aggro = False, u_aggro_origin = Vec3f_default\<rparr>"

record TrainItem =
  t_unit_type :: u32
  t_remaining :: f32

record Building =
  b_id :: u64
  b_owner_uid :: u64
  b_team :: u32
  b_building_type :: u32
  b_pos :: Vec3f
  b_yaw :: f32
  b_hp :: f32
  b_max_hp :: f32
  b_constructed_percent :: f32
  b_under_construction :: bool
  b_train_queue :: "TrainItem list"

record ResourceFieldEntity =
  f_id :: u64
  f_raw :: u32
  f_pos :: Vec3f
  f_yaw :: f32
  f_amount_left :: u32

record ResourceDropEntity =
  d_id :: u64
  d_raw :: u32
  d_pos :: Vec3f
  d_amount :: u32

record RoomPlayerState =
  p_uid :: u64
  p_team :: u32
  p_ready :: bool

subsection \<open>The player ledger\<close>

record PlayerRes =
  r_food :: u32
  r_wood :: u32
  r_gold :: u32

definition PlayerRes_default :: PlayerRes where
  "PlayerRes_default = \<lparr>r_food = 0, r_wood = 0, r_gold = 0\<rparr>"

definition CanAfford :: "PlayerRes \<Rightarrow> ResCost \<Rightarrow> bool" where
  "CanAfford p c \<longleftrightarrow> c_food c \<le> r_food p \<and> c_wood c \<le> r_wood p \<and> c_gold c \<le> r_gold p"

definition Pay :: "ResCost \<Rightarrow> PlayerRes \<Rightarrow> PlayerRes" where
  "Pay c p = p\<lparr>r_food := r_food p - c_food c, r_wood := r_wood p - c_wood c,
     r_gold := r_gold p - c_gold c\<rparr>"

definition AddRes :: "u32 \<Rightarrow> u32 \<Rightarrow> PlayerRes \<Rightarrow> PlayerRes" where
  "AddRes res_type amount p =
     (if res_type = kResFood then p\<lparr>r_food := r_food p + amount\<rparr>
      else if res_type = kResWood then p\<lparr>r_wood := r_wood p + amount\<rparr>
      else if res_type = kResGold then p\<lparr>r_gold := r_gold p + amount\<rparr>
      else p)"

subsection \<open>Commands\<close>

datatype CommandType =
  CmdMove | CmdStop | CmdAttack | CmdHarvest | CmdStore | CmdPickup | CmdBuild | CmdConstruct
  | CmdTrain

record PendingCommand =
  pc_type :: CommandType
  pc_owner_uid :: u64
  pc_client_seq :: u64
  pc_unit_ids :: "u64 list"
  pc_target :: Vec3f
  pc_path :: "Vec3f list"
  pc_target_entity :: u64
  pc_aux_type :: u32
  pc_yaw :: f32

definition PendingCommand_default :: PendingCommand where
  "PendingCommand_default =
     \<lparr>pc_type = CmdMove, pc_owner_uid = 0, pc_client_seq = 0, pc_unit_ids = [],
      pc_target = Vec3f_default, pc_path = [], pc_target_entity = 0, pc_aux_type = 0, pc_yaw = 0\<rparr>"

record RejectedCommand =
  rj_uid :: u64
  rj_client_seq :: u64
  rj_code :: int

definition kErrInvalidRequest :: int where [simp]: "kErrInvalidRequest = 1"
definition kErrInvalidEntity :: int where [simp]: "kErrInvalidEntity = 6"
definition kErrNotEnoughResources :: int where [simp]: "kErrNotEnoughResources = 7"

subsection \<open>The room\<close>

record DungeonRoom =
  dr_room_id :: u64
  dr_room_name :: string
  dr_max_players :: u32
  dr_started :: bool
  dr_aggro_scan_tick :: u32
  dr_server_tick :: u64
  dr_next_command_id :: u64
  dr_players :: "(u64, RoomPlayerState) umap"
  dr_player_res :: "(u64, PlayerRes) umap"
  dr_next_entity_id :: u64
  dr_units :: "(u64, Unit) umap"
  dr_buildings :: "(u64, Building) umap"
  dr_fields :: "(u64, ResourceFieldEntity) umap"
  dr_drops :: "(u64, ResourceDropEntity) umap"
  dr_dirty :: "u64 uset"
  dr_spawned :: "u64 list"
  dr_despawned :: "u64 list"
  dr_building_dirty :: "u64 uset"
  dr_building_spawned :: "u64 list"
  dr_building_despawned :: "u64 list"
  dr_field_dirty :: "u64 uset"
  dr_field_spawned :: "u64 list"
  dr_field_despawned :: "u64 list"
  dr_drop_spawned :: "u64 list"
  dr_drop_despawned :: "u64 list"
  dr_resource_dirty :: "u64 uset"
  dr_pending :: "PendingCommand list"
  dr_rejected :: "RejectedCommand list"
  dr_initial_team_count :: u32
  dr_initial_crystal_team_count :: u32
  dr_battle_begun :: bool
  dr_game_over :: bool

definition DungeonRoom_new :: "u64 \<Rightarrow> string \<Rightarrow> u32 \<Rightarrow> DungeonRoom" where
  "DungeonRoom_new room_id room_name max_players =
     \<lparr>dr_room_id = room_id, dr_room_name = room_name,
      dr_max_players = (if max_players = 0 then 2 else max_players),
      dr_started = False, dr_aggro_scan_tick = 0, dr_server_tick = 0, dr_next_command_id = 0,
      dr_players = [], dr_player_res = [], dr_next_entity_id = 1, dr_units = [], dr_buildings = [],
      dr_fields = [], dr_drops = [], dr_dirty = [], dr_spawned = [], dr_despawned = [],
      dr_building_dirty = [], dr_building_spawned = [], dr_building_despawned = [], dr_field_dirty = [],
      dr_field_spawned = [], dr_field_despawned = [], dr_drop_spawned = [], dr_drop_despawned = [],
      dr_resource_dirty = [], dr_pending = [], dr_rejected = [], dr_initial_team_count = 0,
      dr_initial_crystal_team_count = 0, dr_battle_begun = False, dr_game_over = False\<rparr>"

subsection \<open>Ledger arithmetic\<close>

text \<open>A payment that the ledger can afford subtracts exactly the cost: nothing wraps around.\<close>

lemma Pay_exact:
  assumes "CanAfford p c"
  shows "unat (r_food (Pay c p)) + unat (c_food c) = unat (r_food p)"
    and "unat (r_wood (Pay c p)) + unat (c_wood c) = unat (r_wood p)"
    and "unat (r_gold (Pay c p)) + unat (c_gold c) = unat (r_gold p)"
  using assms by (simp_all add: CanAfford_def Pay_def unat_sub word_le_nat_alt)

definition res_total :: "PlayerRes \<Rightarrow> nat" where
  "res_total p = unat (r_food p) + unat (r_wood p) + unat (r_gold p)"

lemma unat_plus_le: "unat (a + b :: 'a :: len word) \<le> unat a + unat b"
  by (metis add_leE le_add2 le_cases mod_less_eq_dividend unat_word_ariths(1))

lemma AddRes_total: "res_total (AddRes t n p) \<le> res_total p + unat n"
  using unat_plus_le [of "r_food p" n] unat_plus_le [of "r_wood p" n] unat_plus_le [of "r_gold p" n]
  by (auto simp: AddRes_def res_total_def)

lemma Pay_total: "CanAfford p c \<Longrightarrow> res_total (Pay c p) \<le> res_total p"
  using Pay_exact [of p c] by (simp add: res_total_def)

end
