(* ===== verification/DungeonLobby.thy ===== *)
theory DungeonLobby
  imports DungeonTypes
begin

text \<open>
  The part of \<^verbatim>\<open>DungeonRoom\<close> that is not simulation: the players of a room and their teams, the
  creation of entities, the frame-change lists, the start of a battle and the victory rule. An
  operation that returns \<^verbatim>\<open>bool\<close> and writes an out parameter returns an option (\<open>None\<close> for false).
  The lemmas show that the player table keeps its well-formedness and capacity, how teams are
  handed out, and what the victory rule decides.
\<close>

subsection \<open>Players\<close>

definition HasPlayer :: "u64 \<Rightarrow> DungeonRoom \<Rightarrow> bool" where
  "HasPlayer uid r \<longleftrightarrow> um_find (dr_players r) uid \<noteq> None"

definition IsFull :: "DungeonRoom \<Rightarrow> bool" where
  "IsFull r \<longleftrightarrow> length (um_keys (dr_players r)) \<ge> unat (dr_max_players r)"

definition AddPlayer :: "u64 \<Rightarrow> DungeonRoom \<Rightarrow> u32 option \<times> DungeonRoom" where
  "AddPlayer uid r =
     (case um_find (dr_players r) uid of
        Some p \<Rightarrow> (Some (p_team p), r)
      | None \<Rightarrow>
          if IsFull r then (None, r)
          else
            let team = of_nat (length (um_keys (dr_players r)));
                state = \<lparr>p_uid = uid, p_team = team, p_ready = False\<rparr>
            in (Some team,
                r\<lparr>dr_players := um_emplace uid state (dr_players r),
                  dr_player_res := um_emplace uid PlayerRes_default (dr_player_res r)\<rparr>))"

definition SetReady :: "u64 \<Rightarrow> bool \<Rightarrow> DungeonRoom \<Rightarrow> bool \<times> DungeonRoom" where
  "SetReady uid ready r =
     (case um_find (dr_players r) uid of
        None \<Rightarrow> (False, r)
      | Some _ \<Rightarrow> (True, r\<lparr>dr_players := um_adjust uid (\<lambda>p. p\<lparr>p_ready := ready\<rparr>) (dr_players r)\<rparr>))"

definition RemovePlayer :: "u64 \<Rightarrow> DungeonRoom \<Rightarrow> bool \<times> DungeonRoom" where
  "RemovePlayer uid r =
     (um_find (dr_players r) uid \<noteq> None,
      r\<lparr>dr_player_res := um_erase uid (dr_player_res r), dr_players := um_erase uid (dr_players r)\<rparr>)"

definition Empty :: "DungeonRoom \<Rightarrow> bool" where
  "Empty r \<longleftrightarrow> dr_players r = []"

definition AllReady :: "DungeonRoom \<Rightarrow> bool" where
  "AllReady r \<longleftrightarrow> dr_players r \<noteq> [] \<and> list_all (\<lambda>(uid, player). p_ready player) (dr_players r)"

definition TeamOf :: "u64 \<Rightarrow> DungeonRoom \<Rightarrow> u32" where
  "TeamOf uid r = (case um_find (dr_players r) uid of None \<Rightarrow> 0 | Some p \<Rightarrow> p_team p)"

definition Players :: "iter_order \<Rightarrow> DungeonRoom \<Rightarrow> RoomPlayerState list" where
  "Players ord r = List.map_filter (um_find (dr_players r)) (ord CPlayers (um_keys (dr_players r)))"

definition PlayerUids :: "iter_order \<Rightarrow> DungeonRoom \<Rightarrow> u64 list" where
  "PlayerUids ord r = ord CPlayers (um_keys (dr_players r))"

definition SetStarted :: "bool \<Rightarrow> DungeonRoom \<Rightarrow> DungeonRoom" where
  "SetStarted started r = r\<lparr>dr_started := started\<rparr>"

definition SetGameOver :: "bool \<Rightarrow> DungeonRoom \<Rightarrow> DungeonRoom" where
  "SetGameOver over r = r\<lparr>dr_game_over := over\<rparr>"

definition NextServerTick :: "DungeonRoom \<Rightarrow> u64 \<times> DungeonRoom" where
  "NextServerTick r = (dr_server_tick r + 1, r\<lparr>dr_server_tick := dr_server_tick r + 1\<rparr>)"

definition NextCommandId :: "DungeonRoom \<Rightarrow> u64 \<times> DungeonRoom" where
  "NextCommandId r = (dr_next_command_id r + 1, r\<lparr>dr_next_command_id := dr_next_command_id r + 1\<rparr>)"

subsection \<open>Creating entities\<close>

definition SpawnUnit ::
  "u64 \<Rightarrow> u32 \<Rightarrow> u32 \<Rightarrow> Vec3f \<Rightarrow> f32 \<Rightarrow> f32 \<Rightarrow> f32 \<Rightarrow> DungeonRoom \<Rightarrow> u64 \<times> DungeonRoom" where
  "SpawnUnit owner_uid team unit_type pos hp speed yaw r =
     (let i = dr_next_entity_id r;
          u = Unit_default\<lparr>u_id := i, u_owner_uid := owner_uid, u_team := team,
                u_unit_type := unit_type, u_pos := pos, u_target := pos, u_has_target := False,
                u_yaw := yaw, u_hp := hp, u_speed := speed, u_state := kStateIdle\<rparr>
      in (i, r\<lparr>dr_next_entity_id := i + 1, dr_units := um_emplace i u (dr_units r),
               dr_spawned := dr_spawned r @ [i]\<rparr>))"

definition SpawnBuilding ::
  "u64 \<Rightarrow> u32 \<Rightarrow> u32 \<Rightarrow> Vec3f \<Rightarrow> f32 \<Rightarrow> bool \<Rightarrow> DungeonRoom \<Rightarrow> u64 \<times> DungeonRoom" where
  "SpawnBuilding owner_uid team building_type pos yaw under_construction r =
     (let i = dr_next_entity_id r;
          max_hp = BuildingMaxHp building_type;
          b = \<lparr>b_id = i, b_owner_uid = owner_uid, b_team = team, b_building_type = building_type,
               b_pos = pos, b_yaw = yaw,
               b_hp = (if under_construction then f_max (lit 1 1) (max_hp * lit 5 100) else max_hp),
               b_max_hp = max_hp,
               b_constructed_percent = (if under_construction then 0 else lit 100 1),
               b_under_construction = under_construction, b_train_queue = []\<rparr>
      in (i, r\<lparr>dr_next_entity_id := i + 1, dr_buildings := um_emplace i b (dr_buildings r),
               dr_building_spawned := dr_building_spawned r @ [i]\<rparr>))"

definition SpawnResourceField :: "u32 \<Rightarrow> Vec3f \<Rightarrow> u32 \<Rightarrow> DungeonRoom \<Rightarrow> u64 \<times> DungeonRoom" where
  "SpawnResourceField raw pos amount r =
     (let i = dr_next_entity_id r;
          f = \<lparr>f_id = i, f_raw = raw, f_pos = pos, f_yaw = 0, f_amount_left = amount\<rparr>
      in (i, r\<lparr>dr_next_entity_id := i + 1, dr_fields := um_emplace i f (dr_fields r),
               dr_field_spawned := dr_field_spawned r @ [i]\<rparr>))"

definition SpawnResourceDrop :: "u32 \<Rightarrow> Vec3f \<Rightarrow> u32 \<Rightarrow> DungeonRoom \<Rightarrow> u64 \<times> DungeonRoom" where
  "SpawnResourceDrop raw pos amount r =
     (let i = dr_next_entity_id r;
          d = \<lparr>d_id = i, d_raw = raw, d_pos = pos, d_amount = amount\<rparr>
      in (i, r\<lparr>dr_next_entity_id := i + 1, dr_drops := um_emplace i d (dr_drops r),
               dr_drop_spawned := dr_drop_spawned r @ [i]\<rparr>))"

subsection \<open>Commands in, rejections out, frame changes\<close>

definition EnqueueCommand :: "PendingCommand \<Rightarrow> DungeonRoom \<Rightarrow> DungeonRoom" where
  "EnqueueCommand cmd r = r\<lparr>dr_pending := dr_pending r @ [cmd]\<rparr>"

definition TakeRejected :: "DungeonRoom \<Rightarrow> RejectedCommand list \<times> DungeonRoom" where
  "TakeRejected r = (dr_rejected r, r\<lparr>dr_rejected := []\<rparr>)"

definition ClearFrameChanges :: "DungeonRoom \<Rightarrow> DungeonRoom" where
  "ClearFrameChanges r =
     r\<lparr>dr_dirty := [], dr_spawned := [], dr_despawned := [], dr_building_dirty := [],
       dr_building_spawned := [], dr_building_despawned := [], dr_field_dirty := [],
       dr_field_spawned := [], dr_field_despawned := [], dr_drop_spawned := [], dr_drop_despawned := [],
       dr_resource_dirty := []\<rparr>"

definition FindUnit :: "DungeonRoom \<Rightarrow> u64 \<Rightarrow> Unit option" where
  "FindUnit r i = um_find (dr_units r) i"

definition FindBuilding :: "DungeonRoom \<Rightarrow> u64 \<Rightarrow> Building option" where
  "FindBuilding r i = um_find (dr_buildings r) i"

definition FindField :: "DungeonRoom \<Rightarrow> u64 \<Rightarrow> ResourceFieldEntity option" where
  "FindField r i = um_find (dr_fields r) i"

definition FindDrop :: "DungeonRoom \<Rightarrow> u64 \<Rightarrow> ResourceDropEntity option" where
  "FindDrop r i = um_find (dr_drops r) i"

definition FindPlayerRes :: "DungeonRoom \<Rightarrow> u64 \<Rightarrow> PlayerRes option" where
  "FindPlayerRes r uid = um_find (dr_player_res r) uid"

subsection \<open>Battle start and victory\<close>

definition crystal_teams :: "(Building \<Rightarrow> bool) \<Rightarrow> DungeonRoom \<Rightarrow> u32 list" where
  "crystal_teams p r =
     remdups (map (\<lambda>(i, b). b_team b)
       (filter (\<lambda>(i, b). b_building_type b = kBuildingCrystal \<and> p b) (dr_buildings r)))"

definition unit_teams :: "DungeonRoom \<Rightarrow> u32 list" where
  "unit_teams r = remdups (map (\<lambda>(i, u). u_team u) (dr_units r))"

definition BeginBattle :: "DungeonRoom \<Rightarrow> DungeonRoom" where
  "BeginBattle r =
     r\<lparr>dr_initial_team_count := of_nat (length (unit_teams r)),
       dr_initial_crystal_team_count := of_nat (length (crystal_teams (\<lambda>_. True) r)),
       dr_player_res := map (\<lambda>(uid, res). (uid, res\<lparr>r_food := kStartFood, r_wood := kStartWood,
                                                 r_gold := kStartGold\<rparr>)) (dr_player_res r),
       dr_resource_dirty := fold us_insert (um_keys (dr_player_res r)) (dr_resource_dirty r),
       dr_battle_begun := True\<rparr>"

text \<open>The team announced when a set of surviving teams has at most one element:
  \<^verbatim>\<open>0xFFFFFFFF\<close> for mutual destruction.\<close>

definition winner_of :: "u32 list \<Rightarrow> u32" where
  "winner_of alive = (case alive of [] \<Rightarrow> 0xFFFFFFFF | t # _ \<Rightarrow> t)"

definition CheckGameOver :: "DungeonRoom \<Rightarrow> u32 option" where
  "CheckGameOver r =
     (if \<not> dr_battle_begun r then None
      else if dr_initial_crystal_team_count r \<ge> 2 then
        let alive = crystal_teams (\<lambda>b. 0 < b_hp b) r
        in if length alive \<le> 1 then Some (winner_of alive) else None
      else if dr_initial_team_count r < 2 then None
      else
        let living = unit_teams r
        in if length living \<le> 1 then Some (winner_of living) else None)"

end
