(* ===== verification/DungeonCommands.thy ===== *)
theory DungeonCommands
  imports DungeonLobby
begin

text \<open>
  The commands of a room (\<^verbatim>\<open>ApplyPending\<close> and the \<^verbatim>\<open>Apply*\<close> members it dispatches to). A C++ reference
  \<^verbatim>\<open>Unit& u = it->second\<close> is \<open>with_unit k body\<close>: the body gets the unit stored under key \<open>k\<close> and the
  room, returns both, and the unit is written back under \<open>k\<close>. What the commands keep is proved in
  \<open>RoomInvariants\<close> and the theories on top of it, whose entities they touch and what they cost in
  \<open>RoomRules\<close>.
\<close>

subsection \<open>References, marks and rejections\<close>

definition with_unit ::
  "u64 \<Rightarrow> (Unit \<Rightarrow> DungeonRoom \<Rightarrow> Unit \<times> DungeonRoom) \<Rightarrow> DungeonRoom \<Rightarrow> DungeonRoom" where
  "with_unit k body r =
     (case um_find (dr_units r) k of
        None \<Rightarrow> r
      | Some u \<Rightarrow>
          let (u', r') = body u r in r'\<lparr>dr_units := um_adjust k (\<lambda>_. u') (dr_units r')\<rparr>)"

definition unit_ref :: "DungeonRoom \<Rightarrow> u64 \<Rightarrow> Unit" where
  "unit_ref r k = (case um_find (dr_units r) k of None \<Rightarrow> Unit_default | Some u \<Rightarrow> u)"

definition mark_dirty :: "u64 \<Rightarrow> DungeonRoom \<Rightarrow> DungeonRoom" where
  "mark_dirty i r = r\<lparr>dr_dirty := us_insert i (dr_dirty r)\<rparr>"

definition mark_building_dirty :: "u64 \<Rightarrow> DungeonRoom \<Rightarrow> DungeonRoom" where
  "mark_building_dirty i r = r\<lparr>dr_building_dirty := us_insert i (dr_building_dirty r)\<rparr>"

definition mark_resource_dirty :: "u64 \<Rightarrow> DungeonRoom \<Rightarrow> DungeonRoom" where
  "mark_resource_dirty uid r = r\<lparr>dr_resource_dirty := us_insert uid (dr_resource_dirty r)\<rparr>"

definition Reject :: "PendingCommand \<Rightarrow> int \<Rightarrow> DungeonRoom \<Rightarrow> DungeonRoom" where
  "Reject cmd code r =
     r\<lparr>dr_rejected := dr_rejected r @
       [\<lparr>rj_uid = pc_owner_uid cmd, rj_client_seq = pc_client_seq cmd, rj_code = code\<rparr>]\<rparr>"

definition ClearWorkerTask :: "Unit \<Rightarrow> Unit" where
  "ClearWorkerTask u =
     u\<lparr>u_task := TaskNone, u_gather_field_id := 0, u_dropoff_id := 0, u_pickup_drop_id := 0,
       u_build_target_id := 0, u_interaction_offset := Vec3f_default, u_work_cd := 0,
       u_path := [], u_path_index := 0\<rparr>"

definition DropCarried :: "Unit \<Rightarrow> DungeonRoom \<Rightarrow> Unit \<times> DungeonRoom" where
  "DropCarried u r =
     (if 0 < u_carried_amount u
      then (u\<lparr>u_carried_amount := 0\<rparr>,
            snd (SpawnResourceDrop (u_carried_raw u) (u_pos u) (u_carried_amount u) r))
      else (u, r))"

subsection \<open>Selection and formation\<close>

definition owned_by :: "u64 \<Rightarrow> DungeonRoom \<Rightarrow> u64 \<Rightarrow> bool" where
  "owned_by owner_uid r i \<longleftrightarrow>
     (case um_find (dr_units r) i of None \<Rightarrow> False | Some u \<Rightarrow> u_owner_uid u = owner_uid)"

definition CollectOwnedUnits :: "u64 \<Rightarrow> u64 list \<Rightarrow> DungeonRoom \<Rightarrow> u64 list" where
  "CollectOwnedUnits owner_uid unit_ids r =
     sort_key (\<lambda>i. u_id (unit_ref r i)) (filter (owned_by owner_uid r) unit_ids)"

definition formation_columns :: "nat \<Rightarrow> nat" where
  "formation_columns cnt = f_to_nat (f_ceil (f_sqrt (f32_of_nat cnt)))"

definition FormationSlot :: "nat \<Rightarrow> nat \<Rightarrow> f32 \<Rightarrow> f32 \<Rightarrow> Vec3f" where
  "FormationSlot index cnt forward_x forward_z =
     (if cnt \<le> 1 then Vec3f_default
      else
        let columns = formation_columns cnt;
            rows = (cnt + columns - 1) div columns;
            row = index div columns;
            column = index mod columns;
            row_count = min columns (cnt - row * columns);
            lateral = (f32_of_nat column - (f32_of_nat row_count - lit 1 1) * lit 5 10) * lit 28 10;
            longitudinal = ((f32_of_nat rows - lit 1 1) * lit 5 10 - f32_of_nat row) * lit 3 1;
            right_x = forward_z;
            right_z = - forward_x
        in \<lparr>vx = right_x * lateral + forward_x * longitudinal, vy = 0,
            vz = right_z * lateral + forward_z * longitudinal\<rparr>)"

definition InteractionSlot :: "libm \<Rightarrow> nat \<Rightarrow> nat \<Rightarrow> Vec3f" where
  "InteractionSlot m index cnt =
     (if cnt = 0 then Vec3f_default
      else
        let kPi = lit 314159265358979323846 100000000000000000000;
            kInteractionRadius = lit 18 10;
            angle = lit 2 1 * kPi * f32_of_nat index / f32_of_nat cnt
        in \<lparr>vx = cosf m angle * kInteractionRadius, vy = 0,
            vz = sinf m angle * kInteractionRadius\<rparr>)"

subsection \<open>Movement and combat orders\<close>

definition move_center :: "u64 list \<Rightarrow> DungeonRoom \<Rightarrow> Vec3f" where
  "move_center selected r =
     (let total = fold (\<lambda>i c. let p = u_pos (unit_ref r i)
                             in \<lparr>vx = vx c + vx p, vy = vy c + vy p, vz = vz c + vz p\<rparr>)
                    selected Vec3f_default;
          inverse_count = lit 1 1 / f32_of_nat (length selected)
      in \<lparr>vx = vx total * inverse_count, vy = vy total * inverse_count,
          vz = vz total * inverse_count\<rparr>)"

definition move_forward :: "Vec3f \<Rightarrow> Vec3f \<Rightarrow> f32 \<times> f32" where
  "move_forward target center =
     (let forward_x = vx target - vx center;
          forward_z = vz target - vz center;
          direction_length = f_sqrt (forward_x * forward_x + forward_z * forward_z)
      in if lit 1 10000 < direction_length
         then (forward_x / direction_length, forward_z / direction_length)
         else (0, lit 1 1))"

definition move_order :: "Vec3f \<Rightarrow> Vec3f list \<Rightarrow> Vec3f \<Rightarrow> Unit \<Rightarrow> DungeonRoom \<Rightarrow> Unit \<times> DungeonRoom"
  where
  "move_order target path off u r =
     ((ClearWorkerTask u)
        \<lparr>u_target := \<lparr>vx = vx target + vx off, vy = vy target, vz = vz target + vz off\<rparr>,
         u_path := map (\<lambda>w. w\<lparr>vx := vx w + vx off, vz := vz w + vz off\<rparr>) path,
         u_path_index := 0, u_has_target := True, u_attack_target := 0,
         u_state := kStateMoving\<rparr>,
      mark_dirty (u_id u) r)"

definition ApplyMove ::
  "u64 \<Rightarrow> u64 list \<Rightarrow> Vec3f \<Rightarrow> Vec3f list \<Rightarrow> DungeonRoom \<Rightarrow> DungeonRoom" where
  "ApplyMove owner_uid unit_ids target path r =
     (let selected = CollectOwnedUnits owner_uid unit_ids r in
      if selected = [] then r
      else
        let (forward_x, forward_z) = move_forward target (move_center selected r)
        in fold (\<lambda>(index, i).
                   with_unit i (move_order target path
                     (FormationSlot index (length selected) forward_x forward_z)))
             (enumerate 0 selected) r)"

definition stop_order :: "u64 \<Rightarrow> Unit \<Rightarrow> DungeonRoom \<Rightarrow> Unit \<times> DungeonRoom" where
  "stop_order i u r =
     (let (u, r) = DropCarried u r
      in ((ClearWorkerTask u)\<lparr>u_has_target := False, u_attack_target := 0, u_state := kStateIdle\<rparr>,
          mark_dirty i r))"

definition ApplyStop :: "u64 \<Rightarrow> u64 list \<Rightarrow> DungeonRoom \<Rightarrow> DungeonRoom" where
  "ApplyStop owner_uid unit_ids r =
     fold (\<lambda>i r. if owned_by owner_uid r i then with_unit i (stop_order i) r else r) unit_ids r"

definition attack_order :: "u64 \<Rightarrow> u64 \<Rightarrow> Unit \<Rightarrow> DungeonRoom \<Rightarrow> Unit \<times> DungeonRoom" where
  "attack_order target_entity i u r =
     ((ClearWorkerTask u)\<lparr>u_attack_target := target_entity, u_auto_aggro := False,
         u_has_target := False, u_state := kStateAttacking\<rparr>,
      mark_dirty i r)"

definition ApplyAttack :: "u64 \<Rightarrow> u64 list \<Rightarrow> u64 \<Rightarrow> DungeonRoom \<Rightarrow> DungeonRoom" where
  "ApplyAttack owner_uid unit_ids target_entity r =
     fold (\<lambda>i r.
             if owned_by owner_uid r i \<and> i \<noteq> target_entity
             then with_unit i (attack_order target_entity i) r else r)
       unit_ids r"

subsection \<open>Worker orders\<close>

definition harvest_order ::
  "ResourceFieldEntity \<Rightarrow> u64 \<Rightarrow> Vec3f \<Rightarrow> Unit \<Rightarrow> DungeonRoom \<Rightarrow> Unit \<times> DungeonRoom" where
  "harvest_order field field_id off u r =
     ((ClearWorkerTask u)\<lparr>u_interaction_offset := off, u_attack_target := 0, u_has_target := False,
         u_task := Gathering, u_gather_field_id := field_id, u_target := f_pos field,
         u_state := kStateMoving\<rparr>,
      mark_dirty (u_id u) r)"

definition ApplyHarvest :: "libm \<Rightarrow> u64 \<Rightarrow> u64 list \<Rightarrow> u64 \<Rightarrow> DungeonRoom \<Rightarrow> DungeonRoom" where
  "ApplyHarvest m owner_uid unit_ids field_id r =
     (case um_find (dr_fields r) field_id of
        None \<Rightarrow> r
      | Some field \<Rightarrow>
          let selected = CollectOwnedUnits owner_uid unit_ids r
          in fold (\<lambda>(index, i).
                     with_unit i (harvest_order field field_id
                       (InteractionSlot m index (length selected))))
               (enumerate 0 selected) r)"

definition store_order :: "u64 \<Rightarrow> Vec3f \<Rightarrow> Unit \<Rightarrow> DungeonRoom \<Rightarrow> Unit \<times> DungeonRoom" where
  "store_order camp_id off u r =
     ((ClearWorkerTask u)\<lparr>u_interaction_offset := off, u_attack_target := 0, u_has_target := False,
         u_task := Returning, u_dropoff_id := camp_id, u_state := kStateMoving\<rparr>,
      mark_dirty (u_id u) r)"

definition ApplyStore :: "libm \<Rightarrow> u64 \<Rightarrow> u64 list \<Rightarrow> u64 \<Rightarrow> DungeonRoom \<Rightarrow> DungeonRoom" where
  "ApplyStore m owner_uid unit_ids camp_id r =
     (let selected = CollectOwnedUnits owner_uid unit_ids r
      in fold (\<lambda>(index, i).
                 with_unit i (store_order camp_id (InteractionSlot m index (length selected))))
           (enumerate 0 selected) r)"

definition pickup_order :: "u64 \<Rightarrow> Vec3f \<Rightarrow> Unit \<Rightarrow> DungeonRoom \<Rightarrow> Unit \<times> DungeonRoom" where
  "pickup_order drop_id off u r =
     ((ClearWorkerTask u)\<lparr>u_interaction_offset := off, u_attack_target := 0, u_has_target := False,
         u_task := TaskPickup, u_pickup_drop_id := drop_id, u_state := kStateMoving\<rparr>,
      mark_dirty (u_id u) r)"

definition ApplyPickup :: "libm \<Rightarrow> u64 \<Rightarrow> u64 list \<Rightarrow> u64 \<Rightarrow> DungeonRoom \<Rightarrow> DungeonRoom" where
  "ApplyPickup m owner_uid unit_ids drop_id r =
     (if um_find (dr_drops r) drop_id = None then r
      else
        let selected = CollectOwnedUnits owner_uid unit_ids r
        in fold (\<lambda>(index, i).
                   with_unit i (pickup_order drop_id (InteractionSlot m index (length selected))))
             (enumerate 0 selected) r)"

subsection \<open>Building and training\<close>

definition construct_order :: "u64 \<Rightarrow> u64 \<Rightarrow> Unit \<Rightarrow> DungeonRoom \<Rightarrow> Unit \<times> DungeonRoom" where
  "construct_order building_id i u r =
     ((ClearWorkerTask u)\<lparr>u_attack_target := 0, u_has_target := False, u_task := Constructing,
         u_build_target_id := building_id, u_state := kStateMoving\<rparr>,
      mark_dirty i r)"

definition AssignConstructors :: "u64 \<Rightarrow> u64 list \<Rightarrow> u64 \<Rightarrow> DungeonRoom \<Rightarrow> DungeonRoom" where
  "AssignConstructors owner_uid unit_ids building_id r =
     fold (\<lambda>i r. if owned_by owner_uid r i then with_unit i (construct_order building_id i) r else r)
       unit_ids r"

definition pay_cost :: "u64 \<Rightarrow> ResCost \<Rightarrow> DungeonRoom \<Rightarrow> DungeonRoom" where
  "pay_cost uid cost r =
     mark_resource_dirty uid (r\<lparr>dr_player_res := um_adjust uid (Pay cost) (dr_player_res r)\<rparr>)"

definition ApplyBuild :: "PendingCommand \<Rightarrow> DungeonRoom \<Rightarrow> DungeonRoom" where
  "ApplyBuild cmd r =
     (case um_find (dr_player_res r) (pc_owner_uid cmd) of
        None \<Rightarrow> Reject cmd kErrInvalidRequest r
      | Some res \<Rightarrow>
          let building_type = pc_aux_type cmd in
          if building_type = kBuildingCrystal then Reject cmd kErrInvalidRequest r
          else if \<not> CanAfford res (BuildingCost building_type)
          then Reject cmd kErrNotEnoughResources r
          else
            let team = TeamOf (pc_owner_uid cmd) r;
                r = pay_cost (pc_owner_uid cmd) (BuildingCost building_type) r;
                (building_id, r) = SpawnBuilding (pc_owner_uid cmd) team building_type
                                     (pc_target cmd) (pc_yaw cmd) True r
            in AssignConstructors (pc_owner_uid cmd) (pc_unit_ids cmd) building_id r)"

definition ApplyConstruct :: "u64 \<Rightarrow> u64 list \<Rightarrow> u64 \<Rightarrow> DungeonRoom \<Rightarrow> DungeonRoom" where
  "ApplyConstruct owner_uid unit_ids building_id r =
     (case um_find (dr_buildings r) building_id of
        None \<Rightarrow> r
      | Some b \<Rightarrow>
          if \<not> b_under_construction b then r
          else AssignConstructors owner_uid unit_ids building_id r)"

definition ApplyTrain :: "PendingCommand \<Rightarrow> DungeonRoom \<Rightarrow> DungeonRoom" where
  "ApplyTrain cmd r =
     (case um_find (dr_buildings r) (pc_target_entity cmd) of
        None \<Rightarrow> Reject cmd kErrInvalidEntity r
      | Some b \<Rightarrow>
          if b_owner_uid b \<noteq> pc_owner_uid cmd \<or> b_under_construction b
          then Reject cmd kErrInvalidEntity r
          else
            let unit_type = pc_aux_type cmd in
            if \<not> BuildingTrainsUnit (b_building_type b) unit_type
            then Reject cmd kErrInvalidRequest r
            else
              case um_find (dr_player_res r) (pc_owner_uid cmd) of
                None \<Rightarrow> Reject cmd kErrInvalidRequest r
              | Some res \<Rightarrow>
                  if \<not> CanAfford res (UnitCost unit_type)
                  then Reject cmd kErrNotEnoughResources r
                  else
                    let r = pay_cost (pc_owner_uid cmd) (UnitCost unit_type) r;
                        item = \<lparr>t_unit_type = unit_type, t_remaining = UnitTrainTime unit_type\<rparr>
                    in mark_building_dirty (b_id b)
                         (r\<lparr>dr_buildings := um_adjust (pc_target_entity cmd)
                              (\<lambda>b. b\<lparr>b_train_queue := b_train_queue b @ [item]\<rparr>)
                              (dr_buildings r)\<rparr>))"

subsection \<open>The tick boundary\<close>

fun apply_command :: "libm \<Rightarrow> PendingCommand \<Rightarrow> DungeonRoom \<Rightarrow> DungeonRoom" where
  "apply_command m cmd r =
     (case pc_type cmd of
        CmdMove \<Rightarrow> ApplyMove (pc_owner_uid cmd) (pc_unit_ids cmd) (pc_target cmd) (pc_path cmd) r
      | CmdStop \<Rightarrow> ApplyStop (pc_owner_uid cmd) (pc_unit_ids cmd) r
      | CmdAttack \<Rightarrow> ApplyAttack (pc_owner_uid cmd) (pc_unit_ids cmd) (pc_target_entity cmd) r
      | CmdHarvest \<Rightarrow> ApplyHarvest m (pc_owner_uid cmd) (pc_unit_ids cmd) (pc_target_entity cmd) r
      | CmdStore \<Rightarrow> ApplyStore m (pc_owner_uid cmd) (pc_unit_ids cmd) (pc_target_entity cmd) r
      | CmdPickup \<Rightarrow> ApplyPickup m (pc_owner_uid cmd) (pc_unit_ids cmd) (pc_target_entity cmd) r
      | CmdBuild \<Rightarrow> ApplyBuild cmd r
      | CmdConstruct \<Rightarrow> ApplyConstruct (pc_owner_uid cmd) (pc_unit_ids cmd) (pc_target_entity cmd) r
      | CmdTrain \<Rightarrow> ApplyTrain cmd r)"

definition ApplyPending :: "libm \<Rightarrow> DungeonRoom \<Rightarrow> DungeonRoom" where
  "ApplyPending m r = (fold (apply_command m) (dr_pending r) r)\<lparr>dr_pending := []\<rparr>"

end
