(* ===== verification/DungeonStep.thy ===== *)
theory DungeonStep
  imports DungeonCommands
begin

text \<open>
  One simulation step of a room (\<^verbatim>\<open>DungeonRoom::Step\<close> and the \<^verbatim>\<open>Step*\<close> members): movement, automatic
  target acquisition, combat, gathering, returning, pickup, construction, training and the removal
  of the dead. Every member that gets a \<^verbatim>\<open>Unit&\<close> is a function from the unit and the room to both.
  The loops of the source are recursive functions with a termination proof: \<open>step_move_loop\<close> walks
  the remaining waypoints, \<open>harvest_loop\<close> takes one unit of resource per elapsed interval.
\<close>

subsection \<open>Movement\<close>

definition MoveToward :: "libm \<Rightarrow> Unit \<Rightarrow> Vec3f \<Rightarrow> f32 \<Rightarrow> f32 \<Rightarrow> bool \<times> Unit" where
  "MoveToward m u dest arrive_dist dt =
     (let dx = vx dest - vx (u_pos u);
          dz = vz dest - vz (u_pos u);
          dist = f_sqrt (dx * dx + dz * dz)
      in if dist \<le> arrive_dist then (True, u)
         else
           let step = u_speed u * dt
           in if 0 < step \<and> lit 1 10000 < dist
              then (False, u\<lparr>u_pos := (u_pos u)\<lparr>vx := vx (u_pos u) + dx / dist * step,
                                               vz := vz (u_pos u) + dz / dist * step\<rparr>,
                             u_yaw := atan2f m dx dz\<rparr>)
              else (False, u))"

definition FaceToward :: "libm \<Rightarrow> Unit \<Rightarrow> Vec3f \<Rightarrow> Unit" where
  "FaceToward m u target =
     (let dx = vx target - vx (u_pos u);
          dz = vz target - vz (u_pos u)
      in if lit 1 10000 < dx * dx + dz * dz then u\<lparr>u_yaw := atan2f m dx dz\<rparr> else u)"

function step_move_loop :: "libm \<Rightarrow> f32 \<Rightarrow> Unit \<Rightarrow> Unit" where
  "step_move_loop m remaining u =
     (if \<not> lit 1 100000 < remaining then u
      else
        let on_path = (u_path u \<noteq> [] \<and> u_path_index u < length (u_path u));
            dest = (if on_path then u_path u ! u_path_index u else u_target u);
            dx = vx dest - vx (u_pos u);
            dz = vz dest - vz (u_pos u);
            dist = f_sqrt (dx * dx + dz * dz)
        in if dist \<le> remaining \<or> dist < lit 1 10000 then
             if on_path then
               if u_path_index u + 1 \<ge> length (u_path u)
               then u\<lparr>u_pos := dest, u_path := [], u_path_index := 0, u_has_target := False,
                      u_state := kStateIdle\<rparr>
               else step_move_loop m (remaining - (if 0 < dist then dist else 0))
                      (u\<lparr>u_pos := dest, u_path_index := u_path_index u + 1\<rparr>)
             else u\<lparr>u_pos := dest, u_has_target := False, u_state := kStateIdle\<rparr>
           else u\<lparr>u_pos := (u_pos u)\<lparr>vx := vx (u_pos u) + dx / dist * remaining,
                                     vz := vz (u_pos u) + dz / dist * remaining\<rparr>,
                  u_yaw := atan2f m dx dz, u_state := kStateMoving\<rparr>)"
  by pat_completeness auto
termination
  by (relation "measure (\<lambda>(m, remaining, u). length (u_path u) - u_path_index u)") auto

declare step_move_loop.simps [simp del]

definition StepMove :: "libm \<Rightarrow> f32 \<Rightarrow> Unit \<Rightarrow> DungeonRoom \<Rightarrow> Unit \<times> DungeonRoom" where
  "StepMove m dt u r = (step_move_loop m (u_speed u * dt) u, mark_dirty (u_id u) r)"

definition ChaseToward :: "libm \<Rightarrow> Unit \<Rightarrow> Vec3f \<Rightarrow> f32 \<Rightarrow> f32 \<Rightarrow> bool \<times> Unit" where
  "ChaseToward m u tpos dt rng =
     (let dx = vx tpos - vx (u_pos u);
          dz = vz tpos - vz (u_pos u);
          dist = f_sqrt (dx * dx + dz * dz);
          u = (if lit 1 10000 < dist then u\<lparr>u_yaw := atan2f m dx dz\<rparr> else u)
      in if rng < dist then
           let step = u_speed u * dt
           in (False,
               if 0 < step
               then u\<lparr>u_pos := (u_pos u)\<lparr>vx := vx (u_pos u) + dx / dist * step,
                                         vz := vz (u_pos u) + dz / dist * step\<rparr>\<rparr>
               else u)
         else (True, u))"

subsection \<open>Automatic targets\<close>

definition dist2 :: "Vec3f \<Rightarrow> Vec3f \<Rightarrow> f32" where
  "dist2 a b = (let dx = vx a - vx b; dz = vz a - vz b in dx * dx + dz * dz)"

definition enemy_scan :: "Unit \<Rightarrow> DungeonRoom \<Rightarrow> u64 \<Rightarrow> f32 \<times> u64 \<Rightarrow> f32 \<times> u64" where
  "enemy_scan u r i best =
     (case um_find (dr_units r) i of
        None \<Rightarrow> best
      | Some other \<Rightarrow>
          if u_team other = u_team u \<or> u_hp other \<le> 0 then best
          else
            let d2 = dist2 (u_pos other) (u_pos u)
            in if d2 < fst best then (d2, i) else best)"

definition NearestEnemy :: "iter_order \<Rightarrow> Unit \<Rightarrow> f32 \<Rightarrow> DungeonRoom \<Rightarrow> u64" where
  "NearestEnemy ord u rng r =
     snd (fold (enemy_scan u r) (ord CUnits (um_keys (dr_units r))) (rng * rng, 0))"

definition StopAttack :: "Unit \<Rightarrow> DungeonRoom \<Rightarrow> Unit \<times> DungeonRoom" where
  "StopAttack u r =
     (u\<lparr>u_attack_target := 0, u_auto_aggro := False, u_state := kStateIdle\<rparr>, mark_dirty (u_id u) r)"

definition EngageAuto :: "u64 \<Rightarrow> Unit \<Rightarrow> DungeonRoom \<Rightarrow> Unit \<times> DungeonRoom" where
  "EngageAuto target u r =
     (u\<lparr>u_attack_target := target, u_auto_aggro := True, u_aggro_origin := u_pos u,
        u_state := kStateAttacking\<rparr>,
      mark_dirty (u_id u) r)"

definition AcquireAutoTarget :: "iter_order \<Rightarrow> Unit \<Rightarrow> DungeonRoom \<Rightarrow> Unit \<times> DungeonRoom" where
  "AcquireAutoTarget ord u r =
     (let target = NearestEnemy ord u kAggroRange r
      in if target \<noteq> 0 then EngageAuto target u r else (u, r))"

subsection \<open>Combat\<close>

definition hit_unit :: "u64 \<Rightarrow> Unit \<Rightarrow> DungeonRoom \<Rightarrow> DungeonRoom" where
  "hit_unit k target r =
     mark_dirty (u_id target)
       (r\<lparr>dr_units := um_adjust k (\<lambda>t. t\<lparr>u_hp := f_max 0 (u_hp t - kAttackDamage)\<rparr>) (dr_units r)\<rparr>)"

definition hit_building :: "u64 \<Rightarrow> Building \<Rightarrow> DungeonRoom \<Rightarrow> DungeonRoom" where
  "hit_building k target r =
     mark_building_dirty (b_id target)
       (r\<lparr>dr_buildings :=
            um_adjust k (\<lambda>t. t\<lparr>b_hp := f_max 0 (b_hp t - kAttackDamage)\<rparr>) (dr_buildings r)\<rparr>)"

definition leash_broken :: "Unit \<Rightarrow> bool" where
  "leash_broken u \<longleftrightarrow>
     u_auto_aggro u \<and> kAggroLeash * kAggroLeash < dist2 (u_pos u) (u_aggro_origin u)"

definition StepCombat :: "libm \<Rightarrow> f32 \<Rightarrow> Unit \<Rightarrow> DungeonRoom \<Rightarrow> Unit \<times> DungeonRoom" where
  "StepCombat m dt u r =
     (if leash_broken u then
        (u\<lparr>u_auto_aggro := False, u_attack_target := 0, u_has_target := True,
           u_target := u_aggro_origin u, u_state := kStateMoving\<rparr>,
         mark_dirty (u_id u) r)
      else
        case um_find (dr_units r) (u_attack_target u) of
          Some target \<Rightarrow>
            if u_hp target \<le> 0 \<or> u_team target = u_team u then StopAttack u r
            else
              let u = u\<lparr>u_state := kStateAttacking\<rparr>;
                  (in_range, u) = ChaseToward m u (u_pos target) dt kAttackRange
              in if in_range \<and> u_attack_cd u \<le> 0
                 then (u\<lparr>u_attack_cd := kAttackCooldown\<rparr>,
                       mark_dirty (u_id u) (hit_unit (u_attack_target u) target r))
                 else (u, mark_dirty (u_id u) r)
        | None \<Rightarrow>
            (case um_find (dr_buildings r) (u_attack_target u) of
               Some target \<Rightarrow>
                 if b_hp target \<le> 0 \<or> b_team target = u_team u then StopAttack u r
                 else
                   let u = u\<lparr>u_state := kStateAttacking\<rparr>;
                       (in_range, u) = ChaseToward m u (b_pos target) dt kBuildingAttackRange
                   in if in_range \<and> u_attack_cd u \<le> 0
                      then (u\<lparr>u_attack_cd := kAttackCooldown\<rparr>,
                            mark_dirty (u_id u) (hit_building (u_attack_target u) target r))
                      else (u, mark_dirty (u_id u) r)
             | None \<Rightarrow> StopAttack u r))"

subsection \<open>Gathering\<close>

definition SwitchToPreparingReturn ::
  "libm \<Rightarrow> Vec3f \<Rightarrow> Unit \<Rightarrow> DungeonRoom \<Rightarrow> Unit \<times> DungeonRoom" where
  "SwitchToPreparingReturn m face_target u r =
     (FaceToward m (u\<lparr>u_task := PreparingReturn, u_target := face_target, u_has_target := False,
                      u_work_cd := kCarryLiftDuration, u_state := kStateWorking\<rparr>) face_target,
      mark_dirty (u_id u) r)"

definition SwitchToReturn :: "Unit \<Rightarrow> DungeonRoom \<Rightarrow> Unit \<times> DungeonRoom" where
  "SwitchToReturn u r =
     (u\<lparr>u_task := Returning, u_work_cd := 0, u_state := kStateMoving\<rparr>, mark_dirty (u_id u) r)"

definition become_idle :: "Unit \<Rightarrow> DungeonRoom \<Rightarrow> Unit \<times> DungeonRoom" where
  "become_idle u r = ((ClearWorkerTask u)\<lparr>u_state := kStateIdle\<rparr>, mark_dirty (u_id u) r)"

definition harvest_take :: "u32 \<Rightarrow> u32 \<Rightarrow> u32" where
  "harvest_take carried left = min kHarvestAmount (min left (kVillagerCarryCapacity - carried))"

function harvest_loop :: "f32 \<Rightarrow> u32 \<Rightarrow> u32 \<Rightarrow> f32 \<times> u32 \<times> u32" where
  "harvest_loop work_cd carried left =
     (if kHarvestInterval \<le> work_cd \<and> carried < kVillagerCarryCapacity \<and> 0 < left
      then harvest_loop (work_cd - kHarvestInterval) (carried + harvest_take carried left)
             (left - harvest_take carried left)
      else (work_cd, carried, left))"
  by pat_completeness auto

lemma harvest_take_one:
  assumes "carried < kVillagerCarryCapacity" and "0 < left"
  shows "harvest_take carried left = 1"
proof -
  have "unat (10 - carried) = 10 - unat carried" and "unat carried < 10"
    using assms(1) by (simp_all add: unat_sub word_less_nat_alt word_le_nat_alt)
  then have "1 \<le> 10 - carried" and "1 \<le> left"
    using assms(2) by (simp_all add: word_le_nat_alt word_less_nat_alt)
  then show ?thesis by (simp add: harvest_take_def min_def)
qed

lemma carried_succ:
  "carried < kVillagerCarryCapacity \<Longrightarrow> unat (carried + 1) = Suc (unat carried)"
  by (simp add: word_less_nat_alt unat_word_ariths)

termination harvest_loop
  by (relation "measure (\<lambda>(w, carried, left). 10 - unat carried)")
     (auto simp: harvest_take_one carried_succ simp del: kVillagerCarryCapacity_def,
      simp add: word_less_nat_alt)

declare harvest_loop.simps [simp del]

definition offset_position :: "Vec3f \<Rightarrow> Vec3f \<Rightarrow> Vec3f" where
  "offset_position p off = \<lparr>vx = vx p + vx off, vy = vy p, vz = vz p + vz off\<rparr>"

text \<open>The field's side of a harvest: the new amount, and the field's removal when it is empty.\<close>

definition drain_field :: "u64 \<Rightarrow> ResourceFieldEntity \<Rightarrow> u32 \<Rightarrow> DungeonRoom \<Rightarrow> DungeonRoom" where
  "drain_field k field left r =
     (let r = r\<lparr>dr_fields := um_adjust k (\<lambda>f. f\<lparr>f_amount_left := left\<rparr>) (dr_fields r),
                dr_field_dirty := us_insert (f_id field) (dr_field_dirty r)\<rparr>
      in if left = 0
         then r\<lparr>dr_field_despawned := dr_field_despawned r @ [f_id field],
                dr_fields := um_erase k (dr_fields r)\<rparr>
         else r)"

text \<open>The end of \<^verbatim>\<open>StepGather\<close>, for a worker that stands at its slot beside the field.\<close>

definition harvest_field ::
  "libm \<Rightarrow> f32 \<Rightarrow> ResourceFieldEntity \<Rightarrow> Unit \<Rightarrow> DungeonRoom \<Rightarrow> Unit \<times> DungeonRoom" where
  "harvest_field m dt field u r =
     (let u = FaceToward m u (f_pos field);
          (work_cd, carried, left) =
            harvest_loop (u_work_cd u + dt) (u_carried_amount u) (f_amount_left field);
          u = u\<lparr>u_state := kStateWorking, u_carried_raw := f_raw field,
                u_work_cd := work_cd, u_carried_amount := carried\<rparr>;
          r = drain_field (u_gather_field_id u) field left r
      in if left = 0 \<and> 0 < carried then SwitchToPreparingReturn m (f_pos field) u r
         else if kVillagerCarryCapacity \<le> carried
         then SwitchToPreparingReturn m (f_pos field) u r
         else (u, mark_dirty (u_id u) r))"

definition StepGather :: "libm \<Rightarrow> f32 \<Rightarrow> Unit \<Rightarrow> DungeonRoom \<Rightarrow> Unit \<times> DungeonRoom" where
  "StepGather m dt u r =
     (if kVillagerCarryCapacity \<le> u_carried_amount u then
        SwitchToPreparingReturn m
          (case FindField r (u_gather_field_id u) of Some f \<Rightarrow> f_pos f | None \<Rightarrow> u_target u) u r
      else
        case um_find (dr_fields r) (u_gather_field_id u) of
          None \<Rightarrow>
            if 0 < u_carried_amount u then SwitchToPreparingReturn m (u_target u) u r
            else become_idle u r
        | Some field \<Rightarrow>
            if f_amount_left field = 0 then
              if 0 < u_carried_amount u then SwitchToPreparingReturn m (u_target u) u r
              else become_idle u r
            else
              let u = u\<lparr>u_target := f_pos field\<rparr>;
                  (arrived, u) = MoveToward m u (offset_position (f_pos field) (u_interaction_offset u))
                                   (lit 15 100) dt
              in if \<not> arrived then (u\<lparr>u_state := kStateMoving\<rparr>, mark_dirty (u_id u) r)
                 else harvest_field m dt field u r)"

definition StepPreparingReturn :: "libm \<Rightarrow> f32 \<Rightarrow> Unit \<Rightarrow> DungeonRoom \<Rightarrow> Unit \<times> DungeonRoom" where
  "StepPreparingReturn m dt u r =
     (let u = FaceToward m u (u_target u);
          u = u\<lparr>u_state := kStateWorking, u_work_cd := u_work_cd u - dt\<rparr>
      in if 0 < u_work_cd u then (u, mark_dirty (u_id u) r) else SwitchToReturn u r)"

subsection \<open>Returning and picking up\<close>

definition dropoff_scan :: "u32 \<Rightarrow> Vec3f \<Rightarrow> DungeonRoom \<Rightarrow> u64 \<Rightarrow> f32 \<times> Building option
    \<Rightarrow> f32 \<times> Building option" where
  "dropoff_scan team from_pos r i best =
     (case um_find (dr_buildings r) i of
        None \<Rightarrow> best
      | Some b \<Rightarrow>
          if b_team b \<noteq> team \<or> b_under_construction b then best
          else if b_building_type b \<noteq> kBuildingResourceCamp \<and> b_building_type b \<noteq> kBuildingCrystal
          then best
          else
            let d = dist2 (b_pos b) from_pos
            in if d < fst best then (d, Some b) else best)"

definition FindNearestDropoff :: "iter_order \<Rightarrow> u32 \<Rightarrow> Vec3f \<Rightarrow> DungeonRoom \<Rightarrow> Building option" where
  "FindNearestDropoff ord team from_pos r =
     snd (fold (dropoff_scan team from_pos r) (ord CBuildings (um_keys (dr_buildings r)))
            (FLT_MAX, None))"

definition assigned_dropoff :: "Unit \<Rightarrow> DungeonRoom \<Rightarrow> Building option" where
  "assigned_dropoff u r =
     (if u_dropoff_id u = 0 then None
      else case FindBuilding r (u_dropoff_id u) of
             None \<Rightarrow> None
           | Some camp \<Rightarrow>
               if b_under_construction camp \<or> b_team camp \<noteq> u_team u then None else Some camp)"

definition resume_gathering :: "Unit \<Rightarrow> DungeonRoom \<Rightarrow> Unit \<times> DungeonRoom" where
  "resume_gathering u r =
     (if u_gather_field_id u \<noteq> 0 \<and> um_find (dr_fields r) (u_gather_field_id u) \<noteq> None
      then (u\<lparr>u_task := Gathering, u_state := kStateMoving\<rparr>, mark_dirty (u_id u) r)
      else become_idle u r)"

definition deposit :: "u64 \<Rightarrow> u32 \<Rightarrow> u32 \<Rightarrow> DungeonRoom \<Rightarrow> DungeonRoom" where
  "deposit uid res_type amount r =
     (case um_find (dr_player_res r) uid of
        None \<Rightarrow> r
      | Some _ \<Rightarrow>
          mark_resource_dirty uid
            (r\<lparr>dr_player_res := um_adjust uid (AddRes res_type amount) (dr_player_res r)\<rparr>))"

definition StepReturn ::
  "iter_order \<Rightarrow> libm \<Rightarrow> f32 \<Rightarrow> Unit \<Rightarrow> DungeonRoom \<Rightarrow> Unit \<times> DungeonRoom" where
  "StepReturn ord m dt u r =
     (if u_carried_amount u = 0 then resume_gathering u r
      else
        let res_type = RawToResourceType (u_carried_raw u);
            (camp, u) =
              (case assigned_dropoff u r of
                 Some camp \<Rightarrow> (Some camp, u)
               | None \<Rightarrow>
                   (case FindNearestDropoff ord (u_team u) (u_pos u) r of
                      None \<Rightarrow> (None, u)
                    | Some camp \<Rightarrow> (Some camp, u\<lparr>u_dropoff_id := b_id camp\<rparr>)))
        in case camp of
             None \<Rightarrow> (u\<lparr>u_state := kStateIdle\<rparr>, mark_dirty (u_id u) r)
           | Some camp \<Rightarrow>
               let (arrived, u) = MoveToward m u (offset_position (b_pos camp) (u_interaction_offset u))
                                    (lit 15 100) dt
               in if \<not> arrived then (u\<lparr>u_state := kStateMoving\<rparr>, mark_dirty (u_id u) r)
                  else resume_gathering (u\<lparr>u_carried_amount := 0\<rparr>)
                         (deposit (u_owner_uid u) res_type (u_carried_amount u) r))"

definition drain_drop :: "u64 \<Rightarrow> ResourceDropEntity \<Rightarrow> u32 \<Rightarrow> DungeonRoom \<Rightarrow> DungeonRoom" where
  "drain_drop k d n r =
     (let r = r\<lparr>dr_drops := um_adjust k (\<lambda>d. d\<lparr>d_amount := d_amount d - n\<rparr>) (dr_drops r)\<rparr>
      in if d_amount d - n = 0
         then r\<lparr>dr_drop_despawned := dr_drop_despawned r @ [d_id d],
                dr_drops := um_erase k (dr_drops r)\<rparr>
         else r)"

definition StepPickup :: "libm \<Rightarrow> f32 \<Rightarrow> Unit \<Rightarrow> DungeonRoom \<Rightarrow> Unit \<times> DungeonRoom" where
  "StepPickup m dt u r =
     (case um_find (dr_drops r) (u_pickup_drop_id u) of
        None \<Rightarrow> if 0 < u_carried_amount u then SwitchToReturn u r else become_idle u r
      | Some d \<Rightarrow>
          let (arrived, u) = MoveToward m u (offset_position (d_pos d) (u_interaction_offset u))
                               (lit 15 100) dt
          in if \<not> arrived then (u\<lparr>u_state := kStateMoving\<rparr>, mark_dirty (u_id u) r)
             else
               let space = kVillagerCarryCapacity - u_carried_amount u;
                   take = min space (d_amount d);
                   u = u\<lparr>u_carried_raw := d_raw d, u_carried_amount := u_carried_amount u + take\<rparr>;
                   r = drain_drop (u_pickup_drop_id u) d take r;
                   (u, r) = SwitchToReturn u r
               in (u, mark_dirty (u_id u) r))"

subsection \<open>Construction\<close>

definition construct_progress :: "f32 \<Rightarrow> Building \<Rightarrow> Building" where
  "construct_progress dt b =
     (let percent = b_constructed_percent b + kConstructPercentPerSec * dt
      in if lit 100 1 \<le> percent
         then b\<lparr>b_constructed_percent := lit 100 1, b_under_construction := False,
                b_hp := b_max_hp b\<rparr>
         else b\<lparr>b_constructed_percent := percent,
                b_hp := f_max (b_hp b) (b_max_hp b * percent / lit 100 1)\<rparr>)"

definition StepConstruct :: "libm \<Rightarrow> f32 \<Rightarrow> Unit \<Rightarrow> DungeonRoom \<Rightarrow> Unit \<times> DungeonRoom" where
  "StepConstruct m dt u r =
     (case um_find (dr_buildings r) (u_build_target_id u) of
        None \<Rightarrow> become_idle u r
      | Some b \<Rightarrow>
          if \<not> b_under_construction b then become_idle u r
          else
            let (arrived, u) = MoveToward m u (b_pos b) kBuildRange dt
            in if \<not> arrived then (u\<lparr>u_state := kStateMoving\<rparr>, mark_dirty (u_id u) r)
               else
                 let b' = construct_progress dt b;
                     r = mark_building_dirty (b_id b)
                           (r\<lparr>dr_buildings := um_adjust (u_build_target_id u)
                                (construct_progress dt) (dr_buildings r)\<rparr>)
                 in if b_under_construction b'
                    then (u\<lparr>u_state := kStateWorking\<rparr>, mark_dirty (u_id u) r)
                    else ((ClearWorkerTask u)\<lparr>u_state := kStateIdle\<rparr>, mark_dirty (u_id u) r))"

subsection \<open>Training\<close>

definition train_spawn :: "libm \<Rightarrow> Building \<Rightarrow> TrainItem \<Rightarrow> DungeonRoom \<Rightarrow> DungeonRoom" where
  "train_spawn m b item r =
     (let fx = sinf m (b_yaw b);
          fz = cosf m (b_yaw b);
          spawn_pos = (b_pos b)\<lparr>vx := vx (b_pos b) + fx * kTrainSpawnFront,
                                vz := vz (b_pos b) + fz * kTrainSpawnFront\<rparr>;
          (new_id, r) = SpawnUnit (b_owner_uid b) (b_team b) (t_unit_type item) spawn_pos
                          (lit 100 1) kVillagerMoveSpeed (b_yaw b) r;
          rx = fz;
          rz = - fx;
          lateral = (f32_of_nat (unat (new_id mod 5)) - lit 2 1) * kTrainLateralSpacing;
          rally = \<lparr>vx = vx (b_pos b) + fx * (kTrainSpawnFront + kTrainWalkOut) + rx * lateral,
                   vy = 0,
                   vz = vz (b_pos b) + fz * (kTrainSpawnFront + kTrainWalkOut) + rz * lateral\<rparr>
      in r\<lparr>dr_units := um_adjust new_id (\<lambda>u. u\<lparr>u_target := rally, u_has_target := True\<rparr>)
             (dr_units r)\<rparr>)"

definition step_building :: "libm \<Rightarrow> f32 \<Rightarrow> u64 \<Rightarrow> DungeonRoom \<Rightarrow> DungeonRoom" where
  "step_building m dt k r =
     (case um_find (dr_buildings r) k of
        None \<Rightarrow> r
      | Some b \<Rightarrow>
          (case b_train_queue b of
             [] \<Rightarrow> r
           | item # rest \<Rightarrow>
               if b_under_construction b then r
               else
                 let item = item\<lparr>t_remaining := t_remaining item - dt\<rparr>;
                     done = (t_remaining item \<le> 0);
                     r = (if done then train_spawn m b item r else r)
                 in mark_building_dirty (b_id b)
                      (r\<lparr>dr_buildings := um_adjust k
                           (\<lambda>b. b\<lparr>b_train_queue := (if done then rest else item # rest)\<rparr>)
                           (dr_buildings r)\<rparr>)))"

definition StepBuildings :: "iter_order \<Rightarrow> libm \<Rightarrow> f32 \<Rightarrow> DungeonRoom \<Rightarrow> DungeonRoom" where
  "StepBuildings ord m dt r =
     fold (step_building m dt) (ord CBuildings (um_keys (dr_buildings r))) r"

subsection \<open>The whole step\<close>

definition unit_dead :: "DungeonRoom \<Rightarrow> u64 \<Rightarrow> bool" where
  "unit_dead r k \<longleftrightarrow> (case um_find (dr_units r) k of None \<Rightarrow> False | Some u \<Rightarrow> u_hp u \<le> 0)"

definition building_dead :: "DungeonRoom \<Rightarrow> u64 \<Rightarrow> bool" where
  "building_dead r k \<longleftrightarrow> (case um_find (dr_buildings r) k of None \<Rightarrow> False | Some b \<Rightarrow> b_hp b \<le> 0)"

definition RemoveDead :: "iter_order \<Rightarrow> DungeonRoom \<Rightarrow> DungeonRoom" where
  "RemoveDead ord r =
     r\<lparr>dr_despawned := dr_despawned r @
         filter (unit_dead r) (ord CUnits (um_keys (dr_units r))),
       dr_units := um_erase_if (\<lambda>u. u_hp u \<le> 0) (dr_units r),
       dr_building_despawned := dr_building_despawned r @
         filter (building_dead r) (ord CBuildings (um_keys (dr_buildings r))),
       dr_buildings := um_erase_if (\<lambda>b. b_hp b \<le> 0) (dr_buildings r)\<rparr>"

definition cool_down :: "f32 \<Rightarrow> Unit \<Rightarrow> Unit" where
  "cool_down dt u =
     (if 0 < u_attack_cd u
      then let cd = u_attack_cd u - dt in u\<lparr>u_attack_cd := (if cd < 0 then 0 else cd)\<rparr>
      else u)"

definition step_aggro :: "iter_order \<Rightarrow> Unit \<Rightarrow> DungeonRoom \<Rightarrow> Unit \<times> DungeonRoom" where
  "step_aggro ord u r =
     (if u_task u = TaskNone \<and> \<not> u_has_target u then AcquireAutoTarget ord u r
      else if u_task u \<noteq> TaskNone then
        let threat = NearestEnemy ord u kDefendRange r
        in if threat \<noteq> 0 then
             let (u, r) = DropCarried u r
             in EngageAuto threat ((ClearWorkerTask u)\<lparr>u_has_target := False\<rparr>) r
           else (u, r)
      else (u, r))"

definition step_task ::
  "iter_order \<Rightarrow> libm \<Rightarrow> f32 \<Rightarrow> Unit \<Rightarrow> DungeonRoom \<Rightarrow> Unit \<times> DungeonRoom" where
  "step_task ord m dt u r =
     (case u_task u of
        Gathering \<Rightarrow> StepGather m dt u r
      | PreparingReturn \<Rightarrow> StepPreparingReturn m dt u r
      | Returning \<Rightarrow> StepReturn ord m dt u r
      | TaskPickup \<Rightarrow> StepPickup m dt u r
      | Constructing \<Rightarrow> StepConstruct m dt u r
      | TaskNone \<Rightarrow> if u_has_target u then StepMove m dt u r else (u, r))"

definition step_unit ::
  "iter_order \<Rightarrow> libm \<Rightarrow> f32 \<Rightarrow> bool \<Rightarrow> Unit \<Rightarrow> DungeonRoom \<Rightarrow> Unit \<times> DungeonRoom" where
  "step_unit ord m dt do_aggro u r =
     (if u_hp u \<le> 0 then (u, r)
      else
        let u = cool_down dt u;
            (u, r) = (if do_aggro \<and> u_attack_target u = 0 then step_aggro ord u r else (u, r))
        in if u_attack_target u \<noteq> 0 then StepCombat m dt u r else step_task ord m dt u r)"

definition step_units :: "iter_order \<Rightarrow> libm \<Rightarrow> f32 \<Rightarrow> bool \<Rightarrow> DungeonRoom \<Rightarrow> DungeonRoom" where
  "step_units ord m dt do_aggro r =
     fold (\<lambda>k. with_unit k (step_unit ord m dt do_aggro)) (ord CUnits (um_keys (dr_units r))) r"

definition Step :: "iter_order \<Rightarrow> libm \<Rightarrow> f32 \<Rightarrow> DungeonRoom \<Rightarrow> DungeonRoom" where
  "Step ord m dt r =
     (let r = r\<lparr>dr_aggro_scan_tick := dr_aggro_scan_tick r + 1\<rparr>;
          do_aggro = (dr_aggro_scan_tick r mod kAggroScanTicks = 0)
      in RemoveDead ord (StepBuildings ord m dt (step_units ord m dt do_aggro r)))"

end
