(* ===== verification/RoomActions.thy ===== *)
theory RoomActions
  imports DungeonStep
begin

text \<open>
  An abstract view of what one unit may do to its room. The relation \<open>act dt u r u' r'\<close> lists the
  atomic effects a body \<^verbatim>\<open>Step*(Unit& u, dt)\<close> or a command's order can have on the unit it holds by
  reference and on the room: an edit that no snapshot shows, an edit with its dirty mark, dropping
  the load, a hit, a harvest, a deposit, a pickup, progress on a construction, the removal of an
  empty field or drop. \<open>acts\<close> is its closure. The lemmas \<open>acts_*\<close> show that every body of the code
  is such a sequence, so that an invariant of rooms is proved once per effect, by rule induction,
  and then holds of all of them.
\<close>

subsection \<open>The effects\<close>

text \<open>What no movement or task edit of a unit changes, and what a snapshot shows of it.\<close>

definition same_body :: "Unit \<Rightarrow> Unit \<Rightarrow> bool" where
  "same_body u v \<longleftrightarrow>
     u_id v = u_id u \<and> u_owner_uid v = u_owner_uid u \<and> u_team v = u_team u \<and>
     u_unit_type v = u_unit_type u \<and> u_hp v = u_hp u \<and> u_speed v = u_speed u \<and>
     u_carried_amount v = u_carried_amount u \<and> u_carried_raw v = u_carried_raw u"

definition same_view :: "Unit \<Rightarrow> Unit \<Rightarrow> bool" where
  "same_view u v \<longleftrightarrow> same_body u v \<and> u_pos v = u_pos u \<and> u_yaw v = u_yaw u \<and> u_state v = u_state u"

inductive act :: "f32 \<Rightarrow> Unit \<Rightarrow> DungeonRoom \<Rightarrow> Unit \<Rightarrow> DungeonRoom \<Rightarrow> bool" for dt where
  act_quiet: "same_view u u' \<Longrightarrow> act dt u r u' r"
| act_edit: "same_body u u' \<Longrightarrow> act dt u r u' (mark_dirty (u_id u) r)"
| act_drop: "0 < u_carried_amount u \<Longrightarrow>
    act dt u r (u\<lparr>u_carried_amount := 0\<rparr>)
      (mark_dirty (u_id u)
        (snd (SpawnResourceDrop (u_carried_raw u) (u_pos u) (u_carried_amount u) r)))"
| act_hit_unit: "um_find (dr_units r) k = Some v \<Longrightarrow> u_team v \<noteq> u_team u \<Longrightarrow>
    act dt u r u (hit_unit k v r)"
| act_hit_building: "um_find (dr_buildings r) k = Some b \<Longrightarrow> b_team b \<noteq> u_team u \<Longrightarrow>
    act dt u r u (hit_building k b r)"
| act_harvest: "um_find (dr_fields r) k = Some f \<Longrightarrow>
    harvest_loop w (u_carried_amount u) (f_amount_left f) = (w', c, l) \<Longrightarrow>
    act dt u r (u\<lparr>u_carried_raw := f_raw f, u_carried_amount := c\<rparr>)
      (mark_dirty (u_id u)
        (r\<lparr>dr_fields := um_adjust k (\<lambda>f. f\<lparr>f_amount_left := l\<rparr>) (dr_fields r),
           dr_field_dirty := us_insert (f_id f) (dr_field_dirty r)\<rparr>))"
| act_erase_field: "um_find (dr_fields r) k = Some f \<Longrightarrow> f_amount_left f = 0 \<Longrightarrow>
    act dt u r u (r\<lparr>dr_field_despawned := dr_field_despawned r @ [f_id f],
                    dr_fields := um_erase k (dr_fields r)\<rparr>)"
| act_deposit: "act dt u r (u\<lparr>u_carried_amount := 0\<rparr>)
      (mark_dirty (u_id u) (deposit (u_owner_uid u) t (u_carried_amount u) r))"
| act_pickup: "um_find (dr_drops r) k = Some d \<Longrightarrow>
    n = min (kVillagerCarryCapacity - u_carried_amount u) (d_amount d) \<Longrightarrow>
    act dt u r (u\<lparr>u_carried_raw := d_raw d, u_carried_amount := u_carried_amount u + n\<rparr>)
      (mark_dirty (u_id u)
        (r\<lparr>dr_drops := um_adjust k (\<lambda>d. d\<lparr>d_amount := d_amount d - n\<rparr>) (dr_drops r)\<rparr>))"
| act_erase_drop: "um_find (dr_drops r) k = Some d \<Longrightarrow> d_amount d = 0 \<Longrightarrow>
    act dt u r u (r\<lparr>dr_drop_despawned := dr_drop_despawned r @ [d_id d],
                    dr_drops := um_erase k (dr_drops r)\<rparr>)"
| act_construct: "um_find (dr_buildings r) k = Some b \<Longrightarrow> b_under_construction b \<Longrightarrow>
    act dt u r u (mark_building_dirty (b_id b)
      (r\<lparr>dr_buildings := um_adjust k (construct_progress dt) (dr_buildings r)\<rparr>))"

inductive acts :: "f32 \<Rightarrow> Unit \<Rightarrow> DungeonRoom \<Rightarrow> Unit \<Rightarrow> DungeonRoom \<Rightarrow> bool" for dt where
  acts_refl: "acts dt u r u r"
| acts_step: "acts dt u r v s \<Longrightarrow> act dt v s w t \<Longrightarrow> acts dt u r w t"

lemma acts_one: "act dt u r v s \<Longrightarrow> acts dt u r v s"
  by (rule acts_step [OF acts_refl])

lemma acts_trans: "acts dt v s w t \<Longrightarrow> acts dt u r v s \<Longrightarrow> acts dt u r w t"
  by (induction rule: acts.induct) (auto intro: acts.intros)

lemmas acts_edit = acts_one [OF act_edit]
lemmas acts_quiet = acts_one [OF act_quiet]

subsection \<open>Edits of the unit\<close>

lemma same_body_refl [simp]: "same_body u u"
  by (simp add: same_body_def)

lemma same_body_trans: "same_body u v \<Longrightarrow> same_body v w \<Longrightarrow> same_body u w"
  by (simp add: same_body_def)

lemma same_body_clear [simp]: "same_body u (ClearWorkerTask u)"
  by (simp add: same_body_def ClearWorkerTask_def)

lemma same_body_face [simp]: "same_body u (FaceToward m u p)"
  by (simp add: same_body_def FaceToward_def Let_def)

lemma same_body_move: "MoveToward m u p a dt = (b, v) \<Longrightarrow> same_body u v"
  by (auto simp: MoveToward_def Let_def same_body_def split: if_splits)

lemma same_body_chase: "ChaseToward m u p dt g = (b, v) \<Longrightarrow> same_body u v"
  by (auto simp: ChaseToward_def Let_def same_body_def split: if_splits)

lemma same_body_step_move_loop: "same_body u (step_move_loop m w u)"
proof (induction m w u rule: step_move_loop.induct)
  case (1 m remaining u)
  then show ?case
    by (subst step_move_loop.simps) (auto simp: Let_def same_body_def)
qed

lemma mark_dirty_twice [simp]: "mark_dirty i (mark_dirty i r) = mark_dirty i r"
  by (simp add: mark_dirty_def us_insert_def)

lemma mark_dirty_sel [simp]:
  "dr_units (mark_dirty i r) = dr_units r" "dr_buildings (mark_dirty i r) = dr_buildings r"
  "dr_fields (mark_dirty i r) = dr_fields r" "dr_drops (mark_dirty i r) = dr_drops r"
  "dr_field_dirty (mark_dirty i r) = dr_field_dirty r"
  "dr_field_despawned (mark_dirty i r) = dr_field_despawned r"
  "dr_drop_despawned (mark_dirty i r) = dr_drop_despawned r"
  "dr_player_res (mark_dirty i r) = dr_player_res r"
  by (simp_all add: mark_dirty_def)

lemma mark_dirty_erase:
  "mark_dirty i (r\<lparr>dr_field_despawned := a, dr_fields := b\<rparr>) =
     (mark_dirty i r)\<lparr>dr_field_despawned := a, dr_fields := b\<rparr>"
  "mark_dirty i (r\<lparr>dr_drop_despawned := a, dr_drops := c\<rparr>) =
     (mark_dirty i r)\<lparr>dr_drop_despawned := a, dr_drops := c\<rparr>"
  by (simp_all add: mark_dirty_def)

lemma acts_move: "acts dt u r (fst (StepMove m dt u r)) (snd (StepMove m dt u r))"
  by (simp add: StepMove_def acts_edit same_body_step_move_loop)

lemma acts_stop: "acts dt u r (fst (StopAttack u r)) (snd (StopAttack u r))"
  by (auto simp: StopAttack_def same_body_def intro: acts_edit)

lemma acts_engage: "acts dt u r (fst (EngageAuto t u r)) (snd (EngageAuto t u r))"
  by (auto simp: EngageAuto_def same_body_def intro: acts_edit)

lemma acts_idle: "acts dt u r (fst (become_idle u r)) (snd (become_idle u r))"
  by (auto simp: become_idle_def same_body_def ClearWorkerTask_def intro: acts_edit)

lemma acts_switch_return: "acts dt u r (fst (SwitchToReturn u r)) (snd (SwitchToReturn u r))"
  by (auto simp: SwitchToReturn_def same_body_def intro: acts_edit)

lemma acts_switch_prepare:
  "acts dt u r (fst (SwitchToPreparingReturn m p u r)) (snd (SwitchToPreparingReturn m p u r))"
  by (auto simp: SwitchToPreparingReturn_def same_body_def FaceToward_def Let_def intro: acts_edit)

lemma acts_resume: "acts dt u r (fst (resume_gathering u r)) (snd (resume_gathering u r))"
  using acts_idle by (auto simp: resume_gathering_def same_body_def intro: acts_edit)

text \<open>A body that ends with an edit of the unit and its dirty mark.\<close>

lemma acts_then_edit:
  assumes "acts dt u r v s" and "same_body v w"
  shows "acts dt u r w (mark_dirty (u_id w) s)"
proof -
  have "u_id w = u_id v" using assms(2) by (simp add: same_body_def)
  then show ?thesis using acts_step [OF assms(1) act_edit [OF assms(2)]] by simp
qed

lemma same_body_attack:
  assumes "ChaseToward m (u\<lparr>u_state := kStateAttacking\<rparr>) p dt g = (b, v)"
  shows "same_body u v" and "same_body u (v\<lparr>u_attack_cd := c\<rparr>)"
    and "u_attack_target v = u_attack_target u" and "u_id v = u_id u"
  using same_body_chase [OF assms] assms
  by (auto simp: same_body_def ChaseToward_def Let_def split: if_splits)

lemma acts_attack_unit:
  assumes "um_find (dr_units r) (u_attack_target u) = Some t" and "u_team t \<noteq> u_team u"
    and ch: "ChaseToward m (u\<lparr>u_state := kStateAttacking\<rparr>) p dt g = (b, v)"
  shows "acts dt u r (v\<lparr>u_attack_cd := c\<rparr>) (mark_dirty (u_id v) (hit_unit (u_attack_target v) t r))"
  using acts_then_edit [OF acts_one [OF act_hit_unit [OF assms(1,2)]] same_body_attack(2) [OF ch]]
    same_body_attack [OF ch] by simp

lemma acts_attack_building:
  assumes "um_find (dr_buildings r) (u_attack_target u) = Some t" and "b_team t \<noteq> u_team u"
    and ch: "ChaseToward m (u\<lparr>u_state := kStateAttacking\<rparr>) p dt g = (b, v)"
  shows "acts dt u r (v\<lparr>u_attack_cd := c\<rparr>)
           (mark_dirty (u_id v) (hit_building (u_attack_target v) t r))"
  using acts_then_edit [OF acts_one [OF act_hit_building [OF assms(1,2)]] same_body_attack(2) [OF ch]]
    same_body_attack [OF ch] by simp

lemma acts_swing:
  "ChaseToward m (u\<lparr>u_state := kStateAttacking\<rparr>) p dt g = (b, v) \<Longrightarrow>
     acts dt u r v (mark_dirty (u_id v) r)"
  by (rule acts_then_edit [OF acts_refl]) (rule same_body_attack)

lemma acts_combat: "acts dt u r (fst (StepCombat m dt u r)) (snd (StepCombat m dt u r))"
proof (cases "leash_broken u")
  case True
  then show ?thesis by (auto simp: StepCombat_def same_body_def intro: acts_edit)
next
  case False
  then show ?thesis
    using acts_stop [of dt u r]
    by (auto simp: StepCombat_def Let_def split: option.splits prod.splits
        intro: acts_attack_unit acts_attack_building acts_swing)
qed

lemma acts_prepare:
  "acts dt u r (fst (StepPreparingReturn m dt u r)) (snd (StepPreparingReturn m dt u r))"
proof -
  let ?v = "(FaceToward m u (u_target u))\<lparr>u_state := kStateWorking, u_work_cd := u_work_cd u - dt\<rparr>"
  have v: "same_body u ?v" and i: "u_work_cd (FaceToward m u (u_target u)) = u_work_cd u"
      "u_id (FaceToward m u (u_target u)) = u_id u"
    by (auto simp: same_body_def FaceToward_def Let_def)
  show ?thesis
    using v i by (auto simp: StepPreparingReturn_def SwitchToReturn_def same_body_def Let_def
        intro: acts_edit)
qed

lemma acts_moving:
  "MoveToward m u p a dt = (b, v) \<Longrightarrow>
     acts dt u r (v\<lparr>u_state := kStateMoving\<rparr>) (mark_dirty (u_id v) r)"
  using same_body_move [of m u p a dt b v] acts_edit [of u "v\<lparr>u_state := kStateMoving\<rparr>" dt r]
  by (simp add: same_body_def)

lemma MoveToward_arrived: "MoveToward m u p a dt = (True, v) \<Longrightarrow> v = u"
  by (auto simp: MoveToward_def Let_def split: if_splits)

lemma acts_drain_field:
  assumes f: "um_find (dr_fields r) k = Some f"
    and hl: "harvest_loop w (u_carried_amount u) (f_amount_left f) = (w', c, l)"
    and v: "same_body (u\<lparr>u_carried_raw := f_raw f, u_carried_amount := c\<rparr>) v"
  shows "acts dt u r v (mark_dirty (u_id v) (drain_field k f l r))"
proof -
  let ?v = "u\<lparr>u_carried_raw := f_raw f, u_carried_amount := c\<rparr>"
  define s where "s = r\<lparr>dr_fields := um_adjust k (\<lambda>f. f\<lparr>f_amount_left := l\<rparr>) (dr_fields r),
                  dr_field_dirty := us_insert (f_id f) (dr_field_dirty r)\<rparr>"
  have t: "drain_field k f l r = (if l = 0 then s\<lparr>dr_field_despawned := dr_field_despawned s @ [f_id f],
                                 dr_fields := um_erase k (dr_fields s)\<rparr> else s)"
    by (simp add: drain_field_def s_def Let_def)
  have "acts dt u r ?v (mark_dirty (u_id u) s)"
    unfolding s_def using act_harvest [OF f hl, of dt] by (rule acts_one)
  moreover have "act dt ?v (mark_dirty (u_id u) s) ?v (mark_dirty (u_id u) (drain_field k f l r))"
  proof (cases "l = 0")
    case True
    have "um_find (dr_fields s) k = Some (f\<lparr>f_amount_left := l\<rparr>)" using f by (simp add: s_def)
    then show ?thesis
      using act_erase_field [of "mark_dirty (u_id u) s" k "f\<lparr>f_amount_left := l\<rparr>" dt ?v] True
      unfolding t by (simp add: mark_dirty_erase)
  next
    case False
    then show ?thesis by (simp add: t act_quiet same_view_def)
  qed
  ultimately have "acts dt u r ?v (mark_dirty (u_id u) (drain_field k f l r))" by (rule acts_step)
  then show ?thesis using acts_then_edit [OF _ v] v by (fastforce simp: same_body_def)
qed

lemma acts_harvest_field:
  assumes f: "um_find (dr_fields r) (u_gather_field_id u) = Some f"
  shows "acts dt u r (fst (harvest_field m dt f u r)) (snd (harvest_field m dt f u r))"
proof -
  obtain w c l where hl: "harvest_loop (u_work_cd u + dt) (u_carried_amount u)
      (f_amount_left f) = (w, c, l)" using prod_cases3 by blast
  have keep: "u_work_cd (FaceToward m u p) = u_work_cd u"
      "u_carried_amount (FaceToward m u p) = u_carried_amount u"
      "u_gather_field_id (FaceToward m u p) = u_gather_field_id u" for p
    by (auto simp: FaceToward_def Let_def)
  note run = acts_drain_field [OF f hl]
  have "acts dt u r v (mark_dirty (u_id u) (drain_field (u_gather_field_id u) f l r))"
    if "same_body (u\<lparr>u_carried_raw := f_raw f, u_carried_amount := c\<rparr>) v" for v
    using run [OF that] that by (simp add: same_body_def)
  then show ?thesis
    by (auto simp: harvest_field_def hl keep SwitchToPreparingReturn_def same_body_def FaceToward_def
        Let_def)
qed

lemma acts_gather: "acts dt u r (fst (StepGather m dt u r)) (snd (StepGather m dt u r))"
proof (cases "um_find (dr_fields r) (u_gather_field_id u)")
  case None
  then show ?thesis
    using acts_switch_prepare acts_idle by (auto simp: StepGather_def)
next
  case (Some f)
  let ?u = "u\<lparr>u_target := f_pos f\<rparr>"
  have aim: "acts dt u r ?u r" by (rule acts_quiet) (simp add: same_view_def same_body_def)
  obtain b v where mv: "MoveToward m ?u (offset_position (f_pos f) (u_interaction_offset u))
      (lit 15 100) dt = (b, v)" by fastforce
  have walk: "acts dt u r (v\<lparr>u_state := kStateMoving\<rparr>) (mark_dirty (u_id v) r)"
    by (rule acts_trans [OF acts_moving [OF mv] aim])
  have dig: "acts dt u r (fst (harvest_field m dt f v r)) (snd (harvest_field m dt f v r))" if b
  proof -
    have "v = ?u" using mv that by (auto intro: MoveToward_arrived)
    then show ?thesis using Some by (auto intro: acts_trans [OF acts_harvest_field aim])
  qed
  show ?thesis
    using Some mv walk dig acts_switch_prepare acts_idle by (auto simp: StepGather_def Let_def)
qed

lemma acts_drain_drop:
  assumes d: "um_find (dr_drops r) k = Some d"
    and n: "n = min (kVillagerCarryCapacity - u_carried_amount u) (d_amount d)"
    and v: "same_body (u\<lparr>u_carried_raw := d_raw d, u_carried_amount := u_carried_amount u + n\<rparr>) v"
  shows "acts dt u r v (mark_dirty (u_id v) (drain_drop k d n r))"
proof -
  let ?v = "u\<lparr>u_carried_raw := d_raw d, u_carried_amount := u_carried_amount u + n\<rparr>"
  define s where "s = r\<lparr>dr_drops := um_adjust k (\<lambda>d. d\<lparr>d_amount := d_amount d - n\<rparr>) (dr_drops r)\<rparr>"
  have t: "drain_drop k d n r = (if d_amount d - n = 0
      then s\<lparr>dr_drop_despawned := dr_drop_despawned s @ [d_id d], dr_drops := um_erase k (dr_drops s)\<rparr>
      else s)"
    by (simp add: drain_drop_def s_def Let_def)
  have "acts dt u r ?v (mark_dirty (u_id u) s)"
    unfolding s_def using act_pickup [OF d n, of dt] by (rule acts_one)
  moreover have "act dt ?v (mark_dirty (u_id u) s) ?v (mark_dirty (u_id u) (drain_drop k d n r))"
  proof (cases "d_amount d - n = 0")
    case True
    have "um_find (dr_drops s) k = Some (d\<lparr>d_amount := d_amount d - n\<rparr>)" using d by (simp add: s_def)
    then show ?thesis
      using act_erase_drop [of "mark_dirty (u_id u) s" k "d\<lparr>d_amount := d_amount d - n\<rparr>" dt ?v] True
      by (simp add: t mark_dirty_erase)
  next
    case False
    then show ?thesis by (simp add: t act_quiet same_view_def)
  qed
  ultimately have "acts dt u r ?v (mark_dirty (u_id u) (drain_drop k d n r))" by (rule acts_step)
  then show ?thesis using acts_then_edit [OF _ v] v by (fastforce simp: same_body_def)
qed

lemma acts_pickup: "acts dt u r (fst (StepPickup m dt u r)) (snd (StepPickup m dt u r))"
proof (cases "um_find (dr_drops r) (u_pickup_drop_id u)")
  case None
  then show ?thesis using acts_switch_return acts_idle by (auto simp: StepPickup_def)
next
  case (Some d)
  obtain b v where mv: "MoveToward m u (offset_position (d_pos d) (u_interaction_offset u))
      (lit 15 100) dt = (b, v)" by fastforce
  have grab: "b \<Longrightarrow> v = u" using mv by (auto intro: MoveToward_arrived)
  note run = acts_drain_drop [OF Some refl]
  show ?thesis
    using Some mv grab acts_moving [OF mv, of r]
      run [where dt = dt and v = "u\<lparr>u_carried_raw := d_raw d, u_carried_amount := u_carried_amount u +
          min (kVillagerCarryCapacity - u_carried_amount u) (d_amount d),
          u_task := Returning, u_work_cd := 0, u_state := kStateMoving\<rparr>"]
    by (auto simp: StepPickup_def SwitchToReturn_def same_body_def Let_def)
qed

lemma acts_construct: "acts dt u r (fst (StepConstruct m dt u r)) (snd (StepConstruct m dt u r))"
proof (cases "um_find (dr_buildings r) (u_build_target_id u)")
  case None
  then show ?thesis using acts_idle by (auto simp: StepConstruct_def)
next
  case (Some b)
  obtain a v where mv: "MoveToward m u (b_pos b) kBuildRange dt = (a, v)" by fastforce
  have there: "a \<Longrightarrow> v = u" using mv by (auto intro: MoveToward_arrived)
  let ?s = "mark_building_dirty (b_id b)
      (r\<lparr>dr_buildings := um_adjust (u_build_target_id u) (construct_progress dt) (dr_buildings r)\<rparr>)"
  have work: "acts dt u r v' (mark_dirty (u_id v') ?s)"
    if "b_under_construction b" "same_body u v'" for v'
    using acts_then_edit [OF acts_one [OF act_construct [OF Some that(1)]] that(2)] .
  show ?thesis
    using Some mv there acts_moving [OF mv, of r] acts_idle
      work [of "u\<lparr>u_state := kStateWorking\<rparr>"] work [of "(ClearWorkerTask u)\<lparr>u_state := kStateIdle\<rparr>"]
    by (auto simp: StepConstruct_def same_body_def ClearWorkerTask_def Let_def)
qed

lemma acts_then_resume:
  assumes "acts dt u r v (mark_dirty (u_id v) s)"
  shows "acts dt u r (fst (resume_gathering v s)) (snd (resume_gathering v s))"
proof -
  have "resume_gathering v s = resume_gathering v (mark_dirty (u_id v) s)"
    by (simp add: resume_gathering_def become_idle_def)
  then show ?thesis using acts_trans [OF acts_resume assms] by simp
qed

lemma acts_return: "acts dt u r (fst (StepReturn ord m dt u r)) (snd (StepReturn ord m dt u r))"
proof (cases "u_carried_amount u = 0")
  case True
  then show ?thesis by (simp add: StepReturn_def acts_resume)
next
  case False
  define sel where "sel = (case assigned_dropoff u r of
        Some camp \<Rightarrow> (Some camp, u)
      | None \<Rightarrow> (case FindNearestDropoff ord (u_team u) (u_pos u) r of
                   None \<Rightarrow> (None, u) | Some camp \<Rightarrow> (Some camp, u\<lparr>u_dropoff_id := b_id camp\<rparr>)))"
  obtain c w where cw: "sel = (c, w)" by fastforce
  have w: "same_view u w" and raw: "u_carried_raw u = u_carried_raw w"
    using cw by (auto simp: sel_def same_view_def same_body_def split: option.splits)
  note aim = acts_quiet [OF w, where dt = dt and r = r]
  show ?thesis
  proof (cases c)
    case None
    then have "StepReturn ord m dt u r = (w\<lparr>u_state := kStateIdle\<rparr>, mark_dirty (u_id w) r)"
      using False cw by (simp add: StepReturn_def sel_def [symmetric])
    then show ?thesis using acts_then_edit [OF aim, of "w\<lparr>u_state := kStateIdle\<rparr>"]
      by (simp add: same_body_def)
  next
    case (Some camp)
    obtain b v where mv: "MoveToward m w (offset_position (b_pos camp) (u_interaction_offset w))
        (lit 15 100) dt = (b, v)" by fastforce
    have put: "acts dt u r (w\<lparr>u_carried_amount := 0\<rparr>) (mark_dirty (u_id w)
        (deposit (u_owner_uid w) t (u_carried_amount w) r))" for t
      by (rule acts_step [OF aim act_deposit])
    show ?thesis
    proof (cases b)
      case True
      then have v: "v = w" using mv by (auto intro: MoveToward_arrived)
      show ?thesis using False Some cw mv True v raw acts_then_resume put
        by (simp add: StepReturn_def sel_def [symmetric])
    next
      case nb: False
      then show ?thesis using False Some cw mv acts_trans [OF acts_moving [OF mv] aim]
        by (simp add: StepReturn_def sel_def [symmetric])
    qed
  qed
qed

lemma acts_drop_then_edit:
  assumes "same_body (fst (DropCarried u r)) v"
  shows "acts dt u r v (mark_dirty (u_id u) (snd (DropCarried u r)))"
proof (cases "0 < u_carried_amount u")
  case True
  then show ?thesis
    using assms acts_then_edit [OF acts_one [OF act_drop [OF True]], of v]
    by (simp add: DropCarried_def same_body_def)
next
  case False
  then show ?thesis using assms acts_edit by (simp add: DropCarried_def)
qed

lemma DropCarried_id [simp]: "u_id (fst (DropCarried u r)) = u_id u"
  by (simp add: DropCarried_def)

lemma acts_aggro: "acts dt u r (fst (step_aggro ord u r)) (snd (step_aggro ord u r))"
proof -
  obtain v s where d: "DropCarried u r = (v, s)" by fastforce
  have i: "u_id v = u_id u" using DropCarried_id [of u r] d by simp
  define w where "w t = fst (EngageAuto t ((ClearWorkerTask v)\<lparr>u_has_target := False\<rparr>) s)" for t
  have "same_body v (w t)" for t
    by (simp add: w_def EngageAuto_def same_body_def ClearWorkerTask_def)
  then have "acts dt u r (w t) (mark_dirty (u_id u) s)" for t
    using acts_drop_then_edit [where u = u and r = r and v = "w t"] d by simp
  moreover have "snd (EngageAuto t ((ClearWorkerTask v)\<lparr>u_has_target := False\<rparr>) s) =
      mark_dirty (u_id u) s" for t
    using i by (simp add: EngageAuto_def ClearWorkerTask_def)
  ultimately show ?thesis
    using acts_refl acts_engage d
    by (simp add: step_aggro_def AcquireAutoTarget_def Let_def w_def)
qed

lemma acts_task: "acts dt u r (fst (step_task ord m dt u r)) (snd (step_task ord m dt u r))"
  by (simp add: step_task_def acts_gather acts_prepare acts_return acts_pickup acts_construct
      acts_move acts_refl split: WorkerTask.split)

text \<open>The whole body of the unit loop of \<^verbatim>\<open>Step\<close> is a sequence of actions.\<close>

lemma acts_step_unit:
  "acts dt u r (fst (step_unit ord m dt a u r)) (snd (step_unit ord m dt a u r))"
proof -
  have c: "acts dt u r (cool_down dt u) r"
    by (rule acts_quiet) (simp add: cool_down_def same_view_def same_body_def Let_def)
  define g where "g = (if a \<and> u_attack_target (cool_down dt u) = 0
                       then step_aggro ord (cool_down dt u) r else (cool_down dt u, r))"
  have g: "acts dt u r (fst g) (snd g)"
    using c acts_trans [OF acts_aggro c] by (simp add: g_def)
  show ?thesis
    using acts_refl acts_trans [OF acts_combat g] acts_trans [OF acts_task g]
    by (auto simp: step_unit_def Let_def g_def [symmetric] split_beta)
qed

text \<open>The orders of the commands.\<close>

lemma acts_orders:
  "acts dt u r (fst (move_order tgt path off u r)) (snd (move_order tgt path off u r))"
  "acts dt u r (fst (harvest_order field fid off u r)) (snd (harvest_order field fid off u r))"
  "acts dt u r (fst (store_order cid off u r)) (snd (store_order cid off u r))"
  "acts dt u r (fst (pickup_order did off u r)) (snd (pickup_order did off u r))"
  by (simp_all add: move_order_def harvest_order_def store_order_def pickup_order_def same_body_def
      ClearWorkerTask_def acts_edit)

lemma acts_key_orders:
  assumes "u_id u = i"
  shows "acts dt u r (fst (attack_order tgt i u r)) (snd (attack_order tgt i u r))"
    and "acts dt u r (fst (construct_order bid i u r)) (snd (construct_order bid i u r))"
    and "acts dt u r (fst (stop_order i u r)) (snd (stop_order i u r))"
proof -
  show "acts dt u r (fst (attack_order tgt i u r)) (snd (attack_order tgt i u r))"
    and "acts dt u r (fst (construct_order bid i u r)) (snd (construct_order bid i u r))"
    using acts_edit [of u _ dt r] assms
    by (auto simp: attack_order_def construct_order_def same_body_def ClearWorkerTask_def)
  obtain v s where d: "DropCarried u r = (v, s)" by fastforce
  show "acts dt u r (fst (stop_order i u r)) (snd (stop_order i u r))"
    using acts_drop_then_edit [of u r "fst (stop_order i u r)" dt] d assms
    by (simp add: stop_order_def same_body_def ClearWorkerTask_def)
qed

end
