(* ===== verification/RoomInvariants.thy ===== *)
theory RoomInvariants
  imports RoomActions
begin

text \<open>
  Invariants of a room through commands and simulation. \<open>keyed\<close> is the well-formedness of the entity
  tables. The locale \<open>room_relation\<close> is the contract between the effects of a room and a property
  of before and after: whoever shows the property for each effect gets it for \<^verbatim>\<open>ApplyPending\<close> and
  for \<^verbatim>\<open>Step\<close>.
\<close>

subsection \<open>Well-formed tables\<close>

definition keyed_by :: "('v \<Rightarrow> 'k) \<Rightarrow> ('k, 'v) umap \<Rightarrow> bool" where
  "keyed_by sel m \<longleftrightarrow> um_ok m \<and> list_all (\<lambda>(k, v). sel v = k) m"

definition keyed :: "DungeonRoom \<Rightarrow> bool" where
  "keyed r \<longleftrightarrow>
     keyed_by u_id (dr_units r) \<and> keyed_by b_id (dr_buildings r) \<and> keyed_by f_id (dr_fields r) \<and>
     keyed_by d_id (dr_drops r) \<and> keyed_by p_uid (dr_players r) \<and> um_ok (dr_player_res r)"

lemma keyed_by_Nil [simp]: "keyed_by sel []"
  by (simp add: keyed_by_def)

lemma keyed_by_ok: "keyed_by sel m \<Longrightarrow> um_ok m"
  by (simp add: keyed_by_def)

lemma keyed_by_find: "keyed_by sel m \<Longrightarrow> um_find m k = Some v \<Longrightarrow> sel v = k"
  by (auto simp: keyed_by_def list_all_iff dest: um_find_in_set)

lemma keyed_by_emplace [simp, intro]:
  "keyed_by sel m \<Longrightarrow> sel v = k \<Longrightarrow> keyed_by sel (um_emplace k v m)"
  by (auto simp: keyed_by_def list_all_iff um_emplace_in_set)

lemma keyed_by_adjust [intro]:
  assumes "keyed_by sel m" and "\<And>v. um_find m k = Some v \<Longrightarrow> sel (f v) = k"
  shows "keyed_by sel (um_adjust k f m)"
  using assms
  by (auto simp: keyed_by_def list_all_iff dest!: um_adjust_in_set intro: um_find_SomeI)

lemma keyed_by_adjust_same [simp]:
  "keyed_by sel m \<Longrightarrow> (\<And>v. sel (f v) = sel v) \<Longrightarrow> keyed_by sel (um_adjust k f m)"
  by (rule keyed_by_adjust) (auto dest: keyed_by_find)

lemma keyed_by_erase [simp, intro]: "keyed_by sel m \<Longrightarrow> keyed_by sel (um_erase k m)"
  by (auto simp: keyed_by_def list_all_iff um_erase_in_set)

lemma keyed_by_erase_if [simp, intro]: "keyed_by sel m \<Longrightarrow> keyed_by sel (um_erase_if p m)"
  by (auto simp: keyed_by_def list_all_iff um_erase_if_in_set)

subsection \<open>A reference into the unit table\<close>

definition write_back :: "u64 \<Rightarrow> Unit \<Rightarrow> DungeonRoom \<Rightarrow> DungeonRoom" where
  "write_back k u r = r\<lparr>dr_units := um_adjust k (\<lambda>_. u) (dr_units r)\<rparr>"

lemma with_unit_write_back:
  "with_unit k body r =
     (case um_find (dr_units r) k of None \<Rightarrow> r
      | Some u \<Rightarrow> write_back k (fst (body u r)) (snd (body u r)))"
  by (simp add: with_unit_def write_back_def split_beta split: option.split)

text \<open>
  While a body runs on the unit stored under \<open>k\<close>, nothing else writes that entry: a unit never hits
  a unit of its own team, in particular not itself. The reference of the source is therefore
  faithfully a copy that is written back at the end.
\<close>

definition held :: "u64 \<Rightarrow> Unit \<Rightarrow> Unit \<Rightarrow> DungeonRoom \<Rightarrow> bool" where
  "held k old u r \<longleftrightarrow> um_find (dr_units r) k = Some old \<and> u_id u = u_id old \<and>
     u_owner_uid u = u_owner_uid old \<and> u_team u = u_team old \<and> u_unit_type u = u_unit_type old \<and>
     u_hp u = u_hp old \<and> u_speed u = u_speed old"

lemma hit_unit_sel [simp]:
  "dr_units (hit_unit k v r) =
     um_adjust k (\<lambda>t. t\<lparr>u_hp := f_max 0 (u_hp t - kAttackDamage)\<rparr>) (dr_units r)"
  by (simp add: hit_unit_def)

lemma act_held: "act dt u r u' r' \<Longrightarrow> held k old u r \<Longrightarrow> held k old u' r'"
proof (induction rule: act.induct)
  case (act_hit_unit r j v u)
  then have "j \<noteq> k" by (auto simp: held_def)
  then show ?case using act_hit_unit by (simp add: held_def)
qed (auto simp: held_def same_body_def same_view_def SpawnResourceDrop_def Let_def hit_building_def
    mark_building_dirty_def deposit_def mark_resource_dirty_def split: option.splits)

lemma acts_held: "acts dt u r u' r' \<Longrightarrow> held k old u r \<Longrightarrow> held k old u' r'"
  by (induction rule: acts.induct) (auto intro: act_held)

lemma acts_held_self:
  "acts dt u r u' r' \<Longrightarrow> um_find (dr_units r) k = Some u \<Longrightarrow> held k u u' r'"
  by (erule acts_held) (simp add: held_def)

subsection \<open>Every effect keeps the tables well-formed\<close>

lemma act_keyed: "act dt u r u' r' \<Longrightarrow> keyed r \<Longrightarrow> keyed r'"
  by (induction rule: act.induct)
     (auto simp: keyed_def SpawnResourceDrop_def Let_def hit_building_def hit_unit_def
      mark_dirty_def mark_building_dirty_def deposit_def mark_resource_dirty_def construct_progress_def
      split: option.splits)

lemma acts_keyed: "acts dt u r u' r' \<Longrightarrow> keyed r \<Longrightarrow> keyed r'"
  by (induction rule: acts.induct) (auto intro: act_keyed)

lemma keyed_write_back:
  assumes "keyed r" and "held k old u r"
  shows "keyed (write_back k u r)"
proof -
  have "u_id u = k" using assms keyed_by_find [of u_id "dr_units r" k old] by (auto simp: keyed_def held_def)
  then show ?thesis using assms by (auto simp: keyed_def write_back_def)
qed

lemma keyed_unit_body:
  "keyed r \<Longrightarrow> um_find (dr_units r) k = Some u \<Longrightarrow> acts dt u r u' r' \<Longrightarrow> keyed (write_back k u' r')"
  by (rule keyed_write_back [OF acts_keyed acts_held_self])

lemma keyed_pay: "keyed r \<Longrightarrow> keyed (pay_cost uid c r)"
  by (simp add: keyed_def pay_cost_def mark_resource_dirty_def)

lemma keyed_SpawnBuilding:
  "keyed r \<Longrightarrow> keyed (snd (SpawnBuilding uid team ty pos yaw con r))"
  by (simp add: keyed_def SpawnBuilding_def Let_def)

definition set_queue :: "u64 \<Rightarrow> u64 \<Rightarrow> (TrainItem list \<Rightarrow> TrainItem list) \<Rightarrow> DungeonRoom \<Rightarrow> DungeonRoom"
  where
  "set_queue k i q r = mark_building_dirty i
     (r\<lparr>dr_buildings := um_adjust k (\<lambda>b. b\<lparr>b_train_queue := q (b_train_queue b)\<rparr>) (dr_buildings r)\<rparr>)"

lemma keyed_set_queue: "keyed r \<Longrightarrow> keyed (set_queue k i q r)"
  by (simp add: keyed_def set_queue_def mark_building_dirty_def)

lemma train_spawn_buildings [simp]: "dr_buildings (train_spawn m b item r) = dr_buildings r"
  by (simp add: train_spawn_def SpawnUnit_def Let_def)

lemma keyed_train_spawn: "keyed r \<Longrightarrow> keyed (train_spawn m b item r)"
  by (simp add: keyed_def train_spawn_def SpawnUnit_def Let_def)

text \<open>What a finished training item adds: one unit of the building's owner and team, unloaded.\<close>

lemma train_spawn_shape:
  obtains u p where
    "train_spawn m b item r = r\<lparr>dr_next_entity_id := dr_next_entity_id r + 1,
       dr_spawned := dr_spawned r @ [dr_next_entity_id r],
       dr_units := um_adjust (dr_next_entity_id r) (\<lambda>u. u\<lparr>u_target := p, u_has_target := True\<rparr>)
         (um_emplace (dr_next_entity_id r) u (dr_units r))\<rparr>"
    and "u_id u = dr_next_entity_id r" and "u_owner_uid u = b_owner_uid b" and "u_team u = b_team b"
    and "u_unit_type u = t_unit_type item" and "u_hp u = lit 100 1" and "u_carried_amount u = 0"
proof -
  define q where "q = (b_pos b)\<lparr>vx := vx (b_pos b) + sinf m (b_yaw b) * kTrainSpawnFront,
    vz := vz (b_pos b) + cosf m (b_yaw b) * kTrainSpawnFront\<rparr>"
  define u where "u = Unit_default\<lparr>u_id := dr_next_entity_id r, u_owner_uid := b_owner_uid b,
      u_team := b_team b, u_unit_type := t_unit_type item, u_pos := q, u_target := q,
      u_has_target := False, u_yaw := b_yaw b, u_hp := lit 100 1, u_speed := kVillagerMoveSpeed,
      u_state := kStateIdle\<rparr>"
  have "\<exists>p. train_spawn m b item r = r\<lparr>dr_next_entity_id := dr_next_entity_id r + 1,
       dr_spawned := dr_spawned r @ [dr_next_entity_id r],
       dr_units := um_adjust (dr_next_entity_id r) (\<lambda>u. u\<lparr>u_target := p, u_has_target := True\<rparr>)
         (um_emplace (dr_next_entity_id r) u (dr_units r))\<rparr>"
    unfolding train_spawn_def SpawnUnit_def Let_def u_def q_def by (auto intro!: exI)
  then show thesis
    using that [of _ u] by (auto simp: u_def Unit_default_def)
qed

lemma keyed_RemoveDead: "keyed r \<Longrightarrow> keyed (RemoveDead ord r)"
  by (simp add: keyed_def RemoveDead_def)

lemma keyed_admin:
  "keyed r \<Longrightarrow> keyed (Reject cmd code r)"
  "keyed r \<Longrightarrow> keyed (r\<lparr>dr_aggro_scan_tick := n\<rparr>)"
  "keyed r \<Longrightarrow> keyed (r\<lparr>dr_pending := ps\<rparr>)"
  by (simp_all add: keyed_def Reject_def)


subsection \<open>The contract\<close>

definition guarded :: "(DungeonRoom \<Rightarrow> DungeonRoom \<Rightarrow> bool) \<Rightarrow> DungeonRoom \<Rightarrow> DungeonRoom \<Rightarrow> bool"
  where
  "guarded R r s \<longleftrightarrow> (keyed r \<longrightarrow> keyed s \<and> R r s)"

text \<open>
  A relation between a room before and after, that holds of each effect on a well-formed room. The
  parameter \<open>dt\<close> is the length of the simulation step.
\<close>

locale room_relation =
  fixes R :: "DungeonRoom \<Rightarrow> DungeonRoom \<Rightarrow> bool"
    and dt :: f32
  assumes R_refl: "R r r"
    and R_trans: "R r s \<Longrightarrow> R s t \<Longrightarrow> R r t"
    and R_unit: "keyed r \<Longrightarrow> um_find (dr_units r) k = Some u \<Longrightarrow> acts dt u r u' r' \<Longrightarrow>
      R r (write_back k u' r')"
    and R_pay: "keyed r \<Longrightarrow> um_find (dr_player_res r) uid = Some res \<Longrightarrow> CanAfford res c \<Longrightarrow>
      R r (pay_cost uid c r)"
    and R_building: "keyed r \<Longrightarrow> ty \<noteq> kBuildingCrystal \<Longrightarrow> R r (snd (SpawnBuilding uid team ty pos yaw True r))"
    and R_queue: "keyed r \<Longrightarrow> um_find (dr_buildings r) k = Some b \<Longrightarrow>
      R r (set_queue k (b_id b) q r)"
    and R_train: "keyed r \<Longrightarrow> um_find (dr_buildings r) k = Some b \<Longrightarrow> R r (train_spawn m b item r)"
    and R_dead: "keyed r \<Longrightarrow> iter_ok ord \<Longrightarrow> R r (RemoveDead ord r)"
    and R_reject: "R r (Reject cmd code r)"
    and R_tick: "R r (r\<lparr>dr_aggro_scan_tick := n\<rparr>)"
    and R_pending: "R r (r\<lparr>dr_pending := ps\<rparr>)"
begin

lemma g_refl [simp]: "guarded R r r"
  by (simp add: guarded_def R_refl)

lemma g_trans: "guarded R r s \<Longrightarrow> guarded R s t \<Longrightarrow> guarded R r t"
  by (auto simp: guarded_def intro: R_trans)

lemma g_fold:
  assumes "\<And>x s. x \<in> set xs \<Longrightarrow> guarded R s (f x s)"
  shows "guarded R r (fold f xs r)"
  by (rule fold_invariant) (auto intro: assms g_trans)

lemma g_with_unit:
  assumes "\<And>u. keyed r \<Longrightarrow> um_find (dr_units r) k = Some u \<Longrightarrow> u_id u = k \<Longrightarrow>
      acts dt u r (fst (body u r)) (snd (body u r))"
  shows "guarded R r (with_unit k body r)"
proof (cases "keyed r \<and> um_find (dr_units r) k \<noteq> None")
  case True
  then obtain u where u: "um_find (dr_units r) k = Some u" and k: "keyed r" by auto
  have "u_id u = k" using keyed_by_find u k by (auto simp: keyed_def)
  then have run: "acts dt u r (fst (body u r)) (snd (body u r))" by (rule assms [OF k u])
  then show ?thesis
    using u keyed_unit_body [OF k u run] R_unit [OF k u run]
    by (simp add: with_unit_write_back guarded_def)
next
  case False
  then show ?thesis by (auto simp: with_unit_write_back guarded_def R_refl)
qed

lemma g_reject: "guarded R r (Reject cmd code r)"
  by (simp add: guarded_def keyed_admin R_reject)

lemma g_ApplyMove: "guarded R r (ApplyMove uid ids tgt path r)"
  unfolding ApplyMove_def Let_def
  by (auto simp: split_beta intro!: g_fold g_with_unit acts_orders)

lemma g_ApplyHarvest: "guarded R r (ApplyHarvest m uid ids fid r)"
  unfolding ApplyHarvest_def Let_def
  by (auto split: option.split intro!: g_fold g_with_unit acts_orders)

lemma g_ApplyStore: "guarded R r (ApplyStore m uid ids cid r)"
  unfolding ApplyStore_def Let_def
  by (auto intro!: g_fold g_with_unit acts_orders)

lemma g_ApplyPickup: "guarded R r (ApplyPickup m uid ids did r)"
  unfolding ApplyPickup_def Let_def
  by (auto intro!: g_fold g_with_unit acts_orders)

lemma g_ApplyStop: "guarded R r (ApplyStop uid ids r)"
  unfolding ApplyStop_def
  by (auto intro!: g_fold g_with_unit acts_key_orders)

lemma g_ApplyAttack: "guarded R r (ApplyAttack uid ids tgt r)"
  unfolding ApplyAttack_def
  by (auto intro!: g_fold g_with_unit acts_key_orders)

lemma g_AssignConstructors: "guarded R r (AssignConstructors uid ids bid r)"
  unfolding AssignConstructors_def
  by (auto intro!: g_fold g_with_unit acts_key_orders)

lemma g_pay:
  "um_find (dr_player_res r) uid = Some res \<Longrightarrow> CanAfford res c \<Longrightarrow> guarded R r (pay_cost uid c r)"
  by (simp add: guarded_def keyed_pay R_pay)

lemma g_ApplyBuild: "guarded R r (ApplyBuild cmd r)"
proof -
  have sb: "guarded R s (snd (SpawnBuilding uid team ty pos yaw True s))" if "ty \<noteq> kBuildingCrystal" for uid team ty pos yaw s
    using R_building [OF _ that] by (simp add: guarded_def keyed_SpawnBuilding)
  show ?thesis
    unfolding ApplyBuild_def Let_def
    by (auto simp: g_reject split_beta split: option.split
        intro: g_trans [OF g_trans [OF g_pay sb] g_AssignConstructors])
qed

lemma g_ApplyConstruct: "guarded R r (ApplyConstruct uid ids bid r)"
  by (simp add: ApplyConstruct_def g_AssignConstructors split: option.split)

lemma g_ApplyTrain: "guarded R r (ApplyTrain cmd r)"
proof (cases "um_find (dr_buildings r) (pc_target_entity cmd)")
  case None
  then show ?thesis by (simp add: ApplyTrain_def g_reject)
next
  case (Some b)
  have q: "guarded R (pay_cost uid c r) (set_queue (pc_target_entity cmd) (b_id b) f (pay_cost uid c r))"
    for uid c f
    using R_queue [of "pay_cost uid c r"] Some
    by (simp add: guarded_def keyed_set_queue pay_cost_def mark_resource_dirty_def)
  show ?thesis
    using Some g_trans [OF g_pay q]
    by (auto simp: ApplyTrain_def g_reject set_queue_def Let_def split: option.split)
qed

lemma g_apply_command: "guarded R r (apply_command m cmd r)"
  by (cases "pc_type cmd")
     (simp_all add: g_ApplyMove g_ApplyStop g_ApplyAttack g_ApplyHarvest g_ApplyStore g_ApplyPickup
      g_ApplyBuild g_ApplyConstruct g_ApplyTrain)

lemma g_ApplyPending: "guarded R r (ApplyPending m r)"
proof -
  have "guarded R s (s\<lparr>dr_pending := []\<rparr>)" for s
    by (simp add: guarded_def keyed_admin R_pending)
  then show ?thesis
    unfolding ApplyPending_def by (rule g_trans [OF g_fold [OF g_apply_command]])
qed

lemma g_step_units: "guarded R r (step_units ord m dt a r)"
  unfolding step_units_def by (intro g_fold g_with_unit acts_step_unit)

lemma g_step_building: "guarded R r (step_building m d k r)"
proof (cases "um_find (dr_buildings r) k")
  case None
  then show ?thesis by (simp add: step_building_def)
next
  case (Some b)
  have q: "guarded R s (set_queue k (b_id b) f s)" if "um_find (dr_buildings s) k = Some b" for s f
    using R_queue that by (simp add: guarded_def keyed_set_queue)
  have t: "guarded R r (train_spawn m b item r)" for item
    using R_train Some by (simp add: guarded_def keyed_train_spawn)
  show ?thesis
    using Some q [OF Some] g_trans [OF t q]
    by (auto simp: step_building_def Let_def set_queue_def split: list.split)
qed

lemma g_StepBuildings: "guarded R r (StepBuildings ord m d r)"
  unfolding StepBuildings_def by (intro g_fold g_step_building)

lemma g_Step:
  assumes "iter_ok ord"
  shows "guarded R r (Step ord m dt r)"
proof -
  have dead: "guarded R s (RemoveDead ord s)" for s
    using assms by (simp add: guarded_def keyed_RemoveDead R_dead)
  have tick: "guarded R r (r\<lparr>dr_aggro_scan_tick := n\<rparr>)" for n
    by (simp add: guarded_def keyed_admin R_tick)
  show ?thesis
    unfolding Step_def Let_def
    by (rule g_trans [OF g_trans [OF g_trans [OF tick g_step_units] g_StepBuildings] dead])
qed

lemma commands: "keyed r \<Longrightarrow> R r (ApplyPending m r)"
  using g_ApplyPending by (simp add: guarded_def)

lemma simulation: "keyed r \<Longrightarrow> iter_ok ord \<Longrightarrow> R r (Step ord m dt r)"
  using g_Step by (simp add: guarded_def)

text \<open>One turn of the room loop of \<^verbatim>\<open>TickRooms\<close>: the commands of the frame, then a step.\<close>

lemma frame:
  assumes "keyed r" and "iter_ok ord"
  shows "R r (Step ord m dt (ApplyPending m r))"
  using assms g_trans [OF g_ApplyPending g_Step] by (simp add: guarded_def)

end

text \<open>The well-formedness itself: the relation that allows everything.\<close>

interpretation wf_room: room_relation "\<lambda>_ _. True" dt for dt
  by unfold_locales simp_all

lemma keyed_ApplyPending: "keyed r \<Longrightarrow> keyed (ApplyPending m r)"
  using wf_room.g_ApplyPending by (simp add: guarded_def)

lemma keyed_Step: "keyed r \<Longrightarrow> iter_ok ord \<Longrightarrow> keyed (Step ord m dt r)"
  using wf_room.g_Step by (simp add: guarded_def)


subsection \<open>From single effects to unit bodies\<close>

text \<open>
  A relation that holds of each single effect of a unit \<open>u\<close> held under \<open>k\<close>, seen on the room with
  the unit written back before and after, holds of every body.
\<close>

lemma write_back_self: "um_ok (dr_units r) \<Longrightarrow> um_find (dr_units r) k = Some u \<Longrightarrow> write_back k u r = r"
proof -
  assume "um_ok (dr_units r)" and "um_find (dr_units r) k = Some u"
  then have "(k, v) \<in> set (dr_units r) \<Longrightarrow> v = u" for v
    using um_find_SomeI by fastforce
  then have "um_adjust k (\<lambda>_. u) (dr_units r) = dr_units r"
    by (auto simp: um_adjust_def intro!: map_idI)
  then show ?thesis by (simp add: write_back_def)
qed

locale effect_relation =
  fixes R :: "DungeonRoom \<Rightarrow> DungeonRoom \<Rightarrow> bool"
    and dt :: f32
  assumes E_refl: "R r r"
    and E_trans: "R r s \<Longrightarrow> R s t \<Longrightarrow> R r t"
    and E_act: "keyed r \<Longrightarrow> held k old u r \<Longrightarrow> u_id u = k \<Longrightarrow> act dt u r u' r' \<Longrightarrow>
      R (write_back k u r) (write_back k u' r')"
    and E_pay: "keyed r \<Longrightarrow> um_find (dr_player_res r) uid = Some res \<Longrightarrow> CanAfford res c \<Longrightarrow>
      R r (pay_cost uid c r)"
    and E_building: "keyed r \<Longrightarrow> ty \<noteq> kBuildingCrystal \<Longrightarrow> R r (snd (SpawnBuilding uid team ty pos yaw True r))"
    and E_queue: "keyed r \<Longrightarrow> um_find (dr_buildings r) k = Some b \<Longrightarrow>
      R r (set_queue k (b_id b) q r)"
    and E_train: "keyed r \<Longrightarrow> um_find (dr_buildings r) k = Some b \<Longrightarrow> R r (train_spawn m b item r)"
    and E_dead: "keyed r \<Longrightarrow> iter_ok ord \<Longrightarrow> R r (RemoveDead ord r)"
    and E_reject: "R r (Reject cmd code r)"
    and E_tick: "R r (r\<lparr>dr_aggro_scan_tick := n\<rparr>)"
    and E_pending: "R r (r\<lparr>dr_pending := ps\<rparr>)"
begin

lemma acts_run:
  assumes "acts dt u r u' r'" and "keyed r" and "held k old u r" and "u_id u = k"
  shows "R (write_back k u r) (write_back k u' r')"
  using assms
proof (induction rule: acts.induct)
  case (acts_refl u r)
  then show ?case by (simp add: E_refl)
next
  case (acts_step u r v s w t)
  then have "keyed s" and h: "held k old v s"
    by (auto intro: acts_keyed acts_held)
  moreover have "u_id v = k" using h acts_step.prems by (simp add: held_def)
  ultimately have "R (write_back k v s) (write_back k w t)" using acts_step.hyps E_act by blast
  then show ?case using acts_step.IH acts_step.prems E_trans by blast
qed

end

sublocale effect_relation \<subseteq> room_relation R dt
proof
  fix r k u u' r'
  assume k: "keyed r" and u: "um_find (dr_units r) k = Some u" and run: "acts dt u r u' r'"
  have "u_id u = k" using keyed_by_find k u by (auto simp: keyed_def)
  then have "R (write_back k u r) (write_back k u' r')"
    using acts_run [OF run k] u by (auto simp: held_def)
  moreover have "write_back k u r = r"
    using k u by (intro write_back_self) (auto simp: keyed_def keyed_by_def)
  ultimately show "R r (write_back k u' r')" by simp
qed (auto intro: E_refl E_trans E_pay E_building E_queue E_train E_dead E_reject E_tick E_pending)

end
