(* ===== verification/RoomSync.thy ===== *)
theory RoomSync
  imports RoomInvariants
begin

text \<open>
  State synchronisation: what the change lists of a frame record. \<open>tracked r r'\<close> says that whatever a
  client can see of room \<open>r'\<close> and could not see of room \<open>r\<close> is announced in the change lists of \<open>r'\<close>:
  a unit or building whose snapshot differs is marked dirty (or listed as spawned), a new entity is
  listed as spawned, a vanished one as despawned, a ledger that differs is marked. The amount left
  in a resource drop is the one visible quantity without a mark.
\<close>

definition same_building_view :: "Building \<Rightarrow> Building \<Rightarrow> bool" where
  "same_building_view b c \<longleftrightarrow>
     b_id c = b_id b \<and> b_team c = b_team b \<and> b_building_type c = b_building_type b \<and>
     b_pos c = b_pos b \<and> b_yaw c = b_yaw b \<and> b_hp c = b_hp b \<and>
     b_constructed_percent c = b_constructed_percent b"

definition entity_tracked ::
  "('v \<Rightarrow> 'v \<Rightarrow> bool) \<Rightarrow> u64 list \<Rightarrow> u64 list \<Rightarrow> u64 list \<Rightarrow> (u64, 'v) umap \<Rightarrow> (u64, 'v) umap \<Rightarrow> bool"
  where
  "entity_tracked same dirty spawned despawned m m' \<longleftrightarrow>
     (\<forall>i. case um_find m' i of
            None \<Rightarrow> um_find m i \<noteq> None \<longrightarrow> i \<in> set despawned
          | Some v' \<Rightarrow>
              (case um_find m i of
                 None \<Rightarrow> i \<in> set spawned
               | Some v \<Rightarrow> same v v' \<or> i \<in> set dirty \<or> i \<in> set spawned))"

definition lists_grow :: "DungeonRoom \<Rightarrow> DungeonRoom \<Rightarrow> bool" where
  "lists_grow r s \<longleftrightarrow>
     set (dr_dirty r) \<subseteq> set (dr_dirty s) \<and> set (dr_spawned r) \<subseteq> set (dr_spawned s) \<and>
     set (dr_despawned r) \<subseteq> set (dr_despawned s) \<and>
     set (dr_building_dirty r) \<subseteq> set (dr_building_dirty s) \<and>
     set (dr_building_spawned r) \<subseteq> set (dr_building_spawned s) \<and>
     set (dr_building_despawned r) \<subseteq> set (dr_building_despawned s) \<and>
     set (dr_field_dirty r) \<subseteq> set (dr_field_dirty s) \<and>
     set (dr_field_spawned r) \<subseteq> set (dr_field_spawned s) \<and>
     set (dr_field_despawned r) \<subseteq> set (dr_field_despawned s) \<and>
     set (dr_drop_spawned r) \<subseteq> set (dr_drop_spawned s) \<and>
     set (dr_drop_despawned r) \<subseteq> set (dr_drop_despawned s) \<and>
     set (dr_resource_dirty r) \<subseteq> set (dr_resource_dirty s)"

definition tracked :: "DungeonRoom \<Rightarrow> DungeonRoom \<Rightarrow> bool" where
  "tracked r s \<longleftrightarrow>
     lists_grow r s \<and>
     entity_tracked same_view (dr_dirty s) (dr_spawned s) (dr_despawned s) (dr_units r) (dr_units s) \<and>
     entity_tracked same_building_view (dr_building_dirty s) (dr_building_spawned s)
       (dr_building_despawned s) (dr_buildings r) (dr_buildings s) \<and>
     entity_tracked (=) (dr_field_dirty s) (dr_field_spawned s) (dr_field_despawned s)
       (dr_fields r) (dr_fields s) \<and>
     entity_tracked (\<lambda>_ _. True) [] (dr_drop_spawned s) (dr_drop_despawned s)
       (dr_drops r) (dr_drops s) \<and>
     entity_tracked (=) (dr_resource_dirty s) [] [] (dr_player_res r) (dr_player_res s)"

lemma same_view_refl [simp]: "same_view u u"
  by (simp add: same_view_def)

lemma same_building_view_refl [simp]: "same_building_view b b"
  by (simp add: same_building_view_def)

lemma entity_tracked_refl [simp]: "(\<And>v. same v v) \<Longrightarrow> entity_tracked same d s x m m"
  by (simp add: entity_tracked_def split: option.split)

lemma entity_tracked_trans:
  assumes "entity_tracked same d s x m m'" and "entity_tracked same d' s' x' m' m''"
    and "set d \<subseteq> set d'" and "set s \<subseteq> set s'" and "set x \<subseteq> set x'"
    and "\<And>u v w. same u v \<Longrightarrow> same v w \<Longrightarrow> same u w"
  shows "entity_tracked same d' s' x' m m''"
  unfolding entity_tracked_def
proof
  fix i
  show "case um_find m'' i of
          None \<Rightarrow> um_find m i \<noteq> None \<longrightarrow> i \<in> set x'
        | Some v' \<Rightarrow> (case um_find m i of None \<Rightarrow> i \<in> set s'
                     | Some v \<Rightarrow> same v v' \<or> i \<in> set d' \<or> i \<in> set s')"
    using assms(1) [unfolded entity_tracked_def, rule_format, of i]
      assms(2) [unfolded entity_tracked_def, rule_format, of i] assms(3-5)
    by (cases "um_find m i"; cases "um_find m' i"; cases "um_find m'' i")
       (auto intro: assms(6))
qed

lemma entity_tracked_adjust:
  "i \<in> set d \<or> (\<forall>v. um_find m i = Some v \<longrightarrow> same v (f v)) \<Longrightarrow> (\<And>v. same v v) \<Longrightarrow>
     entity_tracked same d s x m (um_adjust i f m)"
  by (auto simp: entity_tracked_def split: option.split)

lemma entity_tracked_emplace:
  "i \<in> set s \<Longrightarrow> (\<And>v. same v v) \<Longrightarrow> entity_tracked same d s x m (um_emplace i v m)"
  by (auto simp: entity_tracked_def split: option.split)

lemma entity_tracked_erase:
  "i \<in> set x \<Longrightarrow> (\<And>v. same v v) \<Longrightarrow> entity_tracked same d s x m (um_erase i m)"
  by (auto simp: entity_tracked_def split: option.split)

lemma entity_tracked_erase_if:
  assumes "um_ok m" and "\<And>i v. um_find m i = Some v \<Longrightarrow> p v \<Longrightarrow> i \<in> set x" and "\<And>v. same v v"
  shows "entity_tracked same d s x m (um_erase_if p m)"
  using assms by (auto simp: entity_tracked_def um_find_erase_if split: option.split)

lemma entity_tracked_write:
  assumes "entity_tracked same d s x m m'" and "i \<in> set d \<or> same v v'"
  shows "entity_tracked same d s x (um_adjust i (\<lambda>_. v) m) (um_adjust i (\<lambda>_. v') m')"
  unfolding entity_tracked_def
proof
  fix j
  show "case um_find (um_adjust i (\<lambda>_. v') m') j of
          None \<Rightarrow> um_find (um_adjust i (\<lambda>_. v) m) j \<noteq> None \<longrightarrow> j \<in> set x
        | Some w' \<Rightarrow> (case um_find (um_adjust i (\<lambda>_. v) m) j of None \<Rightarrow> j \<in> set s
                     | Some w \<Rightarrow> same w w' \<or> j \<in> set d \<or> j \<in> set s)"
    using assms(1) [unfolded entity_tracked_def, rule_format, of j] assms(2)
    by (cases "um_find m j"; cases "um_find m' j") auto
qed

lemmas entity_tracked_intros = entity_tracked_refl entity_tracked_adjust entity_tracked_emplace
  entity_tracked_erase entity_tracked_write subset_insertI

lemma tracked_refl: "tracked r r"
  by (simp add: tracked_def lists_grow_def)

lemma same_view_trans: "same_view u v \<Longrightarrow> same_view v w \<Longrightarrow> same_view u w"
  by (simp add: same_view_def same_body_def)

lemma same_building_view_trans:
  "same_building_view u v \<Longrightarrow> same_building_view v w \<Longrightarrow> same_building_view u w"
  by (simp add: same_building_view_def)

lemma tracked_trans:
  assumes "tracked r s" and "tracked s t"
  shows "tracked r t"
proof -
  have g: "lists_grow r s" "lists_grow s t" using assms by (simp_all add: tracked_def)
  then have "lists_grow r t" by (auto simp: lists_grow_def)
  then show ?thesis
    using assms g unfolding tracked_def lists_grow_def
    by (auto intro: entity_tracked_trans same_view_trans same_building_view_trans)
qed


text \<open>The room updates of the effects, unfolded; each then changes a few tables and lists.\<close>

lemmas room_updates = write_back_def mark_dirty_def mark_building_dirty_def mark_resource_dirty_def
  SpawnResourceDrop_def hit_unit_def hit_building_def Let_def

lemma tracked_act:
  assumes "act dt u r u' r'" and "held k old u r" and "u_id u = k" and "keyed r"
  shows "tracked (write_back k u r) (write_back k u' r')"
  using assms
proof (induction rule: act.induct)
  case (act_hit_unit r j v u)
  then have "u_id v = j" by (auto simp: keyed_def intro: keyed_by_find)
  with act_hit_unit show ?case
    by (simp add: tracked_def lists_grow_def room_updates entity_tracked_intros)
next
  case (act_hit_building r j b u)
  then have "b_id b = j" by (auto simp: keyed_def intro: keyed_by_find)
  with act_hit_building show ?case
    by (simp add: tracked_def lists_grow_def room_updates entity_tracked_intros)
next
  case (act_harvest r j f w u w' c l)
  then have "f_id f = j" by (auto simp: keyed_def intro: keyed_by_find)
  with act_harvest show ?case
    by (simp add: tracked_def lists_grow_def room_updates entity_tracked_intros)
next
  case (act_erase_field r j f u)
  then have "f_id f = j" by (auto simp: keyed_def intro: keyed_by_find)
  with act_erase_field show ?case
    by (simp add: tracked_def lists_grow_def room_updates entity_tracked_intros)
next
  case (act_deposit u r t)
  then show ?case
    by (simp add: tracked_def lists_grow_def room_updates entity_tracked_intros deposit_def
        split: option.split)
next
  case (act_erase_drop r j d u)
  then have "d_id d = j" by (auto simp: keyed_def intro: keyed_by_find)
  with act_erase_drop show ?case
    by (simp add: tracked_def lists_grow_def room_updates entity_tracked_intros)
next
  case (act_construct r j b u)
  then have "b_id b = j" by (auto simp: keyed_def intro: keyed_by_find)
  with act_construct show ?case
    by (simp add: tracked_def lists_grow_def room_updates entity_tracked_intros)
qed (simp_all add: tracked_def lists_grow_def room_updates entity_tracked_intros)

lemma tracked_RemoveDead:
  assumes "keyed r" and "iter_ok ord"
  shows "tracked r (RemoveDead ord r)"
proof -
  have "set (ord c xs) = set xs" for c xs using assms(2) by (rule iter_ok_set)
  moreover have "um_find (dr_units r) i = Some u \<Longrightarrow> i \<in> set (um_keys (dr_units r))"
    "um_find (dr_buildings r) i = Some b \<Longrightarrow> i \<in> set (um_keys (dr_buildings r))" for i u b
    by (auto simp: um.keys_find)
  ultimately have
    "entity_tracked same_view d s (x @ filter (unit_dead r) (ord CUnits (um_keys (dr_units r))))
       (dr_units r) (um_erase_if (\<lambda>u. u_hp u \<le> 0) (dr_units r))"
    "entity_tracked same_building_view d s
       (x @ filter (building_dead r) (ord CBuildings (um_keys (dr_buildings r))))
       (dr_buildings r) (um_erase_if (\<lambda>b. b_hp b \<le> 0) (dr_buildings r))" for d s x
    using assms(1)
    by (auto simp: keyed_def keyed_by_def unit_dead_def building_dead_def intro!: entity_tracked_erase_if)
  then show ?thesis
    by (simp add: tracked_def lists_grow_def RemoveDead_def)
qed

interpretation sync: effect_relation tracked dt for dt
proof
  fix r k b q
  assume "keyed r" and "um_find (dr_buildings r) k = Some b"
  then have "b_id b = k" by (auto simp: keyed_def intro: keyed_by_find)
  then show "tracked r (set_queue k (b_id b) q r)"
    by (simp add: tracked_def lists_grow_def set_queue_def room_updates entity_tracked_intros)
next
  fix r :: DungeonRoom and k b m item
  let ?n = "dr_next_entity_id r"
  have t: "entity_tracked same_view d (s @ [?n]) x (dr_units r)
      (um_adjust ?n (\<lambda>u. u\<lparr>u_target := p, u_has_target := True\<rparr>) (um_emplace ?n v (dr_units r)))"
    for d s x p v
    by (auto simp: entity_tracked_def split: option.split)
  show "tracked r (train_spawn m b item r)"
    by (simp add: tracked_def lists_grow_def train_spawn_def SpawnUnit_def Let_def t subset_insertI)
qed (auto simp: tracked_refl tracked_RemoveDead intro: tracked_act tracked_trans
  | simp add: tracked_def lists_grow_def pay_cost_def Reject_def SpawnBuilding_def room_updates
      entity_tracked_intros)+

end
