(* ===== verification/RoomStock.thy ===== *)
theory RoomStock
  imports RoomInvariants
begin

text \<open>
  The economy of a room. \<open>stock\<close> counts every unit of resource there is: left in the fields, lying in
  drops, carried by workers and booked in the ledgers. No command and no step of the simulation
  creates resources, and no worker ever carries more than its capacity; the amounts are machine
  integers, so this includes that no subtraction wraps around.
\<close>

subsection \<open>Sums over a table\<close>

definition um_sum :: "('v \<Rightarrow> nat) \<Rightarrow> ('k, 'v) umap \<Rightarrow> nat" where
  "um_sum g m = sum_list (map (\<lambda>(k, v). g v) m)"

lemma um_sum_Nil [simp]: "um_sum g [] = 0"
  by (simp add: um_sum_def)

lemma um_sum_Cons [simp]: "um_sum g ((k, v) # m) = g v + um_sum g m"
  by (simp add: um_sum_def)

lemma um_sum_append [simp]: "um_sum g (m @ n) = um_sum g m + um_sum g n"
  by (simp add: um_sum_def)

lemma um_adjust_absent: "um_find m k = None \<Longrightarrow> um_adjust k f m = m"
  by (induction m) (auto simp: um_find_def um_adjust_def split: if_splits)

lemma um_sum_adjust:
  assumes "um_ok m" and "um_find m k = Some v"
  shows "um_sum g (um_adjust k f m) + g v = um_sum g m + g (f v)"
  using assms
proof (induction m)
  case (Cons a m)
  obtain j w where a: "a = (j, w)" by fastforce
  have adj: "um_adjust k f (a # m) = (if j = k then (j, f w) else (j, w)) # um_adjust k f m"
    by (simp add: a um_adjust_def)
  show ?case
  proof (cases "j = k")
    case True
    then have "um_find m k = None" and "w = v"
      using Cons.prems a by (auto simp: um_ok_def um_keys_def um_find_def map_of_eq_None_iff)
    then show ?thesis using True adj a by (simp add: um_adjust_absent)
  next
    case False
    then have "um_find m k = Some v" and "um_ok m"
      using Cons.prems a by (auto simp: um_find_def um_ok_def um_keys_def)
    then show ?thesis using Cons.IH False adj a by simp
  qed
qed simp

lemma um_sum_adjust_same:
  assumes "\<And>v. um_find m k = Some v \<Longrightarrow> g (f v) = g v" and "um_ok m"
  shows "um_sum g (um_adjust k f m) = um_sum g m"
proof (cases "um_find m k")
  case None
  then show ?thesis by (simp add: um_adjust_absent)
next
  case (Some v)
  then show ?thesis using um_sum_adjust [OF assms(2) Some, of g f] assms(1) by simp
qed

lemma um_sum_emplace: "um_sum g (um_emplace k v m) \<le> um_sum g m + g v"
  by (simp add: um_emplace_def split: option.split)

lemma um_sum_erase_le: "um_sum g (um_erase k m) \<le> um_sum g m"
  by (induction m) (auto simp: um_erase_def um_sum_def)

lemma um_sum_erase_if_le: "um_sum g (um_erase_if p m) \<le> um_sum g m"
  by (induction m) (auto simp: um_erase_if_def um_sum_def)

lemma list_all_adjust:
  "list_all (\<lambda>(j, v). P v) (um_adjust k f m) \<longleftrightarrow>
     list_all (\<lambda>(j, v). P (if j = k then f v else v)) m"
  by (induction m) (auto simp: um_adjust_def split: if_splits)

subsection \<open>The stock\<close>

definition wealth :: "DungeonRoom \<Rightarrow> nat" where
  "wealth r =
     um_sum (\<lambda>f. unat (f_amount_left f)) (dr_fields r) + um_sum (\<lambda>d. unat (d_amount d)) (dr_drops r) +
     um_sum res_total (dr_player_res r)"

definition load :: "Unit \<Rightarrow> nat" where
  "load u = unat (u_carried_amount u)"

definition stock :: "DungeonRoom \<Rightarrow> nat" where
  "stock r = wealth r + um_sum load (dr_units r)"

definition load_ok :: "Unit \<Rightarrow> bool" where
  "load_ok u \<longleftrightarrow> u_carried_amount u \<le> kVillagerCarryCapacity"

definition loads_ok :: "DungeonRoom \<Rightarrow> bool" where
  "loads_ok r \<longleftrightarrow> list_all (\<lambda>(k, u). load_ok u) (dr_units r)"

text \<open>The harvest loop moves units from the field to the worker and stops at the capacity.\<close>

lemma harvest_loop_moves:
  assumes "harvest_loop w carried left = (w', c, l)" and "carried \<le> kVillagerCarryCapacity"
  shows "unat c + unat l = unat carried + unat left" and "c \<le> kVillagerCarryCapacity"
    and "carried \<le> c"
proof -
  have "unat c + unat l = unat carried + unat left \<and> c \<le> kVillagerCarryCapacity \<and> carried \<le> c"
    using assms
  proof (induction w carried left rule: harvest_loop.induct)
    case (1 w carried left)
    show ?case
    proof (cases "kHarvestInterval \<le> w \<and> carried < kVillagerCarryCapacity \<and> 0 < left")
      case False
      then have "(w, carried, left) = (w', c, l)"
        using 1(2) by (subst (asm) harvest_loop.simps) auto
      then show ?thesis using 1(3) by simp
    next
      case True
      then have t: "harvest_take carried left = 1" by (simp add: harvest_take_one)
      have s: "unat (carried + 1) = Suc (unat carried)" using True carried_succ by blast
      have l: "unat (left - 1) + 1 = unat left"
        using True by (simp add: unat_sub word_le_nat_alt word_less_nat_alt Suc_le_eq)
      have c: "carried + 1 \<le> kVillagerCarryCapacity"
        using True s by (simp add: word_le_nat_alt word_less_nat_alt)
      have "harvest_loop (w - kHarvestInterval) (carried + 1) (left - 1) = (w', c, l)"
        using 1(2) True t by (subst (asm) harvest_loop.simps) simp
      then have "unat c + unat l = unat (carried + 1) + unat (left - 1) \<and>
          c \<le> kVillagerCarryCapacity \<and> carried + 1 \<le> c"
        using 1(1) [OF True] t c by simp
      then show ?thesis using s l by (auto simp: word_le_nat_alt)
    qed
  qed
  then show "unat c + unat l = unat carried + unat left" and "c \<le> kVillagerCarryCapacity"
    and "carried \<le> c" by auto
qed

text \<open>Filling a worker from a drop: nothing wraps, the capacity is respected.\<close>

lemma pickup_moves:
  fixes c d :: u32
  assumes "c \<le> kVillagerCarryCapacity" and "n = min (kVillagerCarryCapacity - c) d"
  shows "unat (c + n) + unat (d - n) = unat c + unat d" and "c + n \<le> kVillagerCarryCapacity"
proof -
  have r: "unat (10 - c) = 10 - unat c" and c: "unat c \<le> 10"
    using assms(1) by (simp_all add: unat_sub word_le_nat_alt)
  have n: "unat n = min (10 - unat c) (unat d)"
    using assms(2) r by (auto simp: min_def word_le_nat_alt)
  then have s: "unat (c + n) = unat c + unat n" using c by (simp add: unat_word_ariths)
  have "unat (d - n) = unat d - unat n" using n by (simp add: unat_sub word_le_nat_alt)
  then show "unat (c + n) + unat (d - n) = unat c + unat d" using s n by simp
  show "c + n \<le> kVillagerCarryCapacity" using s n c by (simp add: word_le_nat_alt)
qed


lemma deposit_keeps [simp]:
  "dr_units (deposit uid t n r) = dr_units r" "dr_fields (deposit uid t n r) = dr_fields r"
  "dr_drops (deposit uid t n r) = dr_drops r" "dr_buildings (deposit uid t n r) = dr_buildings r"
  by (simp_all add: deposit_def mark_resource_dirty_def split: option.split)

lemma deposit_total:
  assumes "um_ok (dr_player_res r)"
  shows "um_sum res_total (dr_player_res (deposit uid t n r)) \<le>
    um_sum res_total (dr_player_res r) + unat n"
proof (cases "um_find (dr_player_res r) uid")
  case None
  then show ?thesis by (simp add: deposit_def)
next
  case (Some p)
  then show ?thesis
    using um_sum_adjust [OF assms Some, of res_total "AddRes t n"] AddRes_total [of t n p]
    by (simp add: deposit_def mark_resource_dirty_def)
qed

subsection \<open>The effects\<close>

definition economy :: "DungeonRoom \<Rightarrow> DungeonRoom \<Rightarrow> bool" where
  "economy r s \<longleftrightarrow> (loads_ok r \<longrightarrow> loads_ok s \<and> stock s \<le> stock r)"

definition others_ok :: "u64 \<Rightarrow> DungeonRoom \<Rightarrow> bool" where
  "others_ok k r \<longleftrightarrow> list_all (\<lambda>(j, u). j \<noteq> k \<longrightarrow> load_ok u) (dr_units r)"

lemma loads_ok_write_back:
  assumes "um_find (dr_units r) k = Some old"
  shows "loads_ok (write_back k u r) \<longleftrightarrow> load_ok u \<and> others_ok k r"
proof -
  have "(k, old) \<in> set (dr_units r)" using assms by (rule um_find_in_set)
  then have "list_all (\<lambda>(j, v). load_ok (if j = k then u else v)) (dr_units r) \<longleftrightarrow>
      load_ok u \<and> list_all (\<lambda>(j, v). j \<noteq> k \<longrightarrow> load_ok v) (dr_units r)"
    by (force simp: list_all_iff)
  then show ?thesis by (simp add: loads_ok_def others_ok_def write_back_def list_all_adjust)
qed

lemma stock_write_back:
  assumes "um_find (dr_units r) k = Some old" and "um_ok (dr_units r)"
  shows "stock (write_back k u r) + load old = wealth r + um_sum load (dr_units r) + load u"
  using um_sum_adjust [OF assms(2,1), of load "\<lambda>_. u"]
  by (simp add: stock_def write_back_def wealth_def)

text \<open>An effect that leaves the other units' loads alone is judged by the held unit and the wealth.\<close>

lemma economy_held:
  assumes "held k old u r" and "um_find (dr_units r') k = Some old" and "keyed r" and "keyed r'"
    and "um_sum load (dr_units r') = um_sum load (dr_units r)" and "others_ok k r \<Longrightarrow> others_ok k r'"
    and "load_ok u \<Longrightarrow> load_ok u'" and "load_ok u \<Longrightarrow> wealth r' + load u' \<le> wealth r + load u"
  shows "economy (write_back k u r) (write_back k u' r')"
proof -
  have f: "um_find (dr_units r) k = Some old" using assms(1) by (simp add: held_def)
  have ok: "um_ok (dr_units r)" "um_ok (dr_units r')"
    using assms(3,4) by (auto simp: keyed_def keyed_by_def)
  show ?thesis
    using assms(5-) stock_write_back [OF f ok(1), of u] stock_write_back [OF assms(2) ok(2), of u']
    by (auto simp: economy_def loads_ok_write_back [OF f] loads_ok_write_back [OF assms(2)])
qed

lemma wealth_mark [simp]:
  "wealth (mark_dirty i r) = wealth r" "wealth (mark_building_dirty i r) = wealth r"
  "wealth (r\<lparr>dr_buildings := bs\<rparr>) = wealth r" "wealth (r\<lparr>dr_units := us\<rparr>) = wealth r"
  by (simp_all add: wealth_def mark_dirty_def mark_building_dirty_def)

lemma others_ok_units: "dr_units r' = dr_units r \<Longrightarrow> others_ok k r' = others_ok k r"
  by (simp add: others_ok_def)

lemma hit_unit_loads:
  "um_ok (dr_units r) \<Longrightarrow> um_sum load (dr_units (hit_unit j v r)) = um_sum load (dr_units r)"
  by (simp add: um_sum_adjust_same load_def)

lemma wealth_hit [simp]: "wealth (hit_unit j v r) = wealth r"
  by (simp add: hit_unit_def)

lemma hit_unit_others: "others_ok k r \<Longrightarrow> others_ok k (hit_unit j v r)"
  by (auto simp: others_ok_def list_all_iff load_ok_def um_adjust_def split: if_splits)

lemma wealth_harvest:
  fixes l :: u32
  assumes "um_ok (dr_fields r)" and "um_find (dr_fields r) j = Some f"
  shows "wealth (r\<lparr>dr_fields := um_adjust j (\<lambda>f. f\<lparr>f_amount_left := l\<rparr>) (dr_fields r),
                  dr_field_dirty := ds\<rparr>) + unat (f_amount_left f) = wealth r + unat l"
  using um_sum_adjust [OF assms, of "\<lambda>f. unat (f_amount_left f)" "\<lambda>f. f\<lparr>f_amount_left := l\<rparr>"]
  by (simp add: wealth_def)

lemma wealth_pickup:
  assumes "um_ok (dr_drops r)" and "um_find (dr_drops r) j = Some d"
  shows "wealth (r\<lparr>dr_drops := um_adjust j (\<lambda>d. d\<lparr>d_amount := d_amount d - n\<rparr>) (dr_drops r)\<rparr>)
      + unat (d_amount d) = wealth r + unat (d_amount d - n)"
  using um_sum_adjust [OF assms, of "\<lambda>d. unat (d_amount d)" "\<lambda>d. d\<lparr>d_amount := d_amount d - n\<rparr>"]
  by (simp add: wealth_def)

lemma wealth_drop: "wealth (snd (SpawnResourceDrop raw pos n r)) \<le> wealth r + unat n"
  using um_sum_emplace [of "\<lambda>d. unat (d_amount d)" "dr_next_entity_id r"
      "\<lparr>d_id = dr_next_entity_id r, d_raw = raw, d_pos = pos, d_amount = n\<rparr>" "dr_drops r"]
  by (simp add: wealth_def SpawnResourceDrop_def Let_def)

lemma wealth_deposit: "um_ok (dr_player_res r) \<Longrightarrow> wealth (deposit uid t n r) \<le> wealth r + unat n"
  using deposit_total by (simp add: wealth_def)

lemma economy_act:
  assumes "act dt u r u' r'" and "held k old u r" and "u_id u = k" and "keyed r"
  shows "economy (write_back k u r) (write_back k u' r')"
proof -
  have h: "um_find (dr_units r') k = Some old" using act_held [OF assms(1,2)] by (simp add: held_def)
  have ok: "um_ok (dr_units r)" "um_ok (dr_fields r)" "um_ok (dr_drops r)" "um_ok (dr_player_res r)"
    using assms(4) by (auto simp: keyed_def keyed_by_def)
  note close = economy_held [OF assms(2) h assms(4) act_keyed [OF assms(1,4)]]
  show ?thesis
    using assms(1)
  proof cases
    case act_drop
    then show ?thesis using wealth_drop [of "u_carried_raw u" "u_pos u" "u_carried_amount u" r]
      by (intro close) (auto simp: SpawnResourceDrop_def Let_def others_ok_def load_ok_def load_def)
  next
    case (act_hit_unit j v)
    then show ?thesis using ok
      by (intro close) (auto simp: um_sum_adjust_same load_def hit_unit_others)
  next
    case (act_harvest j f w w' c l)
    then show ?thesis
      using wealth_harvest [OF ok(2) act_harvest(3), where l = l and ds = "us_insert (f_id f) (dr_field_dirty r)"] harvest_loop_moves [OF act_harvest(4)]
      by (intro close) (auto simp: others_ok_def load_ok_def load_def)
  next
    case (act_erase_field j f)
    then show ?thesis using um_sum_erase_le [of "\<lambda>f. unat (f_amount_left f)" j "dr_fields r"]
      by (intro close) (auto simp: others_ok_def load_ok_def load_def wealth_def)
  next
    case (act_deposit t)
    then show ?thesis using wealth_deposit [OF ok(4), of "u_owner_uid u" t "u_carried_amount u"]
      by (intro close) (auto simp: others_ok_def load_ok_def load_def)
  next
    case (act_pickup j d n)
    then show ?thesis
      using wealth_pickup [OF ok(3) act_pickup(3), where n = n] pickup_moves [of "u_carried_amount u" n "d_amount d"]
      by (intro close) (auto simp: others_ok_def load_ok_def load_def)
  next
    case (act_erase_drop j d)
    then show ?thesis using um_sum_erase_le [of "\<lambda>d. unat (d_amount d)" j "dr_drops r"]
      by (intro close) (auto simp: others_ok_def load_ok_def load_def wealth_def)
  qed (intro close; simp add: same_view_def same_body_def others_ok_def load_ok_def load_def
      hit_building_def mark_building_dirty_def wealth_def)+
qed

text \<open>Every effect keeps the loads within capacity and creates no resources.\<close>

interpretation economy: effect_relation economy dt for dt
proof
  show "keyed r \<Longrightarrow> held k old u r \<Longrightarrow> u_id u = k \<Longrightarrow> act dt u r u' r' \<Longrightarrow>
      economy (write_back k u r) (write_back k u' r')" for r k old u u' r'
    by (rule economy_act)
next
  fix r :: DungeonRoom and uid res c
  assume "keyed r" and f: "um_find (dr_player_res r) uid = Some res" and a: "CanAfford res c"
  then have "um_ok (dr_player_res r)" by (simp add: keyed_def)
  then show "economy r (pay_cost uid c r)"
    using um_sum_adjust [OF _ f, of res_total "Pay c"] Pay_total [OF a]
    by (simp add: economy_def pay_cost_def mark_resource_dirty_def loads_ok_def stock_def wealth_def)
next
  fix r k b m item
  assume "keyed r"
  then have ok: "um_ok (dr_units r)" by (simp add: keyed_def keyed_by_def)
  have l: "um_sum load (um_adjust n (\<lambda>u. u\<lparr>u_target := p, u_has_target := True\<rparr>)
      (um_emplace n v (dr_units r))) \<le> um_sum load (dr_units r)" if "load v = 0" for n p v
    using um_sum_emplace [of load n v "dr_units r"] that ok
    by (simp add: um_sum_adjust_same load_def)
  have o: "list_all (\<lambda>(k, u). load_ok u) (um_adjust n (\<lambda>u. u\<lparr>u_target := p, u_has_target := True\<rparr>)
      (um_emplace n v (dr_units r)))" if "load_ok v" "loads_ok r" for n p v
    using that unfolding list_all_adjust
    by (auto simp: um_emplace_in_set loads_ok_def list_all_iff load_ok_def)
  obtain u p where t: "train_spawn m b item r = r\<lparr>dr_next_entity_id := dr_next_entity_id r + 1,
       dr_spawned := dr_spawned r @ [dr_next_entity_id r],
       dr_units := um_adjust (dr_next_entity_id r) (\<lambda>u. u\<lparr>u_target := p, u_has_target := True\<rparr>)
         (um_emplace (dr_next_entity_id r) u (dr_units r))\<rparr>"
    and c: "u_carried_amount u = 0"
    by (rule train_spawn_shape)
  have "load u = 0" "load_ok u" using c by (auto simp: load_def load_ok_def)
  then show "economy r (train_spawn m b item r)"
    using l o by (simp add: economy_def t stock_def wealth_def loads_ok_def)
next
  fix r ord
  show "economy r (RemoveDead ord r)"
    using um_sum_erase_if_le [of load "\<lambda>u. u_hp u \<le> 0" "dr_units r"]
    by (auto simp: economy_def RemoveDead_def stock_def wealth_def loads_ok_def list_all_iff
        um_erase_if_in_set)
qed (auto simp: economy_def set_queue_def mark_building_dirty_def Reject_def SpawnBuilding_def Let_def
    stock_def wealth_def loads_ok_def)

end
