(* ===== verification/RoomLineage.thy ===== *)
theory RoomLineage
  imports RoomInvariants
begin

text \<open>
  Where the units and buildings of a room come from. \<open>lineage\<close>: a unit or building of the later room
  either stood in the earlier one, with the same identity, owner, team and type and no more hit
  points than before (a building under construction may gain), or was created in between and is in
  the spawn list. \<open>fresh_ids\<close>: as long as the 64-bit counter does not wrap, identifiers are unique
  across units, buildings, fields and drops.
\<close>

subsection \<open>Origin and hit points\<close>

text \<open>The hit points after \<open>n\<close> hits.\<close>

definition after_hits :: "nat \<Rightarrow> f32 \<Rightarrow> f32" where
  "after_hits n = (\<lambda>h. f_max 0 (h - kAttackDamage)) ^^ n"

definition same_identity :: "Unit \<Rightarrow> Unit \<Rightarrow> bool" where
  "same_identity u v \<longleftrightarrow>
     u_id v = u_id u \<and> u_owner_uid v = u_owner_uid u \<and> u_team v = u_team u \<and>
     u_unit_type v = u_unit_type u \<and> u_speed v = u_speed u \<and>
     (\<exists>n. u_hp v = after_hits n (u_hp u))"

definition same_building :: "Building \<Rightarrow> Building \<Rightarrow> bool" where
  "same_building b c \<longleftrightarrow>
     b_id c = b_id b \<and> b_owner_uid c = b_owner_uid b \<and> b_team c = b_team b \<and>
     b_building_type c = b_building_type b \<and> b_pos c = b_pos b \<and> b_yaw c = b_yaw b \<and>
     b_max_hp c = b_max_hp b \<and> (b_under_construction c \<longrightarrow> b_under_construction b)"

definition descends :: "('v \<Rightarrow> 'v \<Rightarrow> bool) \<Rightarrow> u64 list \<Rightarrow> (u64, 'v) umap \<Rightarrow> (u64, 'v) umap \<Rightarrow> bool" where
  "descends P new m m' \<longleftrightarrow>
     (\<forall>i v'. um_find m' i = Some v' \<longrightarrow> i \<in> set new \<or> (\<exists>v. um_find m i = Some v \<and> P v v'))"

definition lineage :: "DungeonRoom \<Rightarrow> DungeonRoom \<Rightarrow> bool" where
  "lineage r s \<longleftrightarrow>
     (\<exists>us. dr_spawned s = dr_spawned r @ us \<and> descends same_identity us (dr_units r) (dr_units s)) \<and>
     (\<exists>bs. dr_building_spawned s = dr_building_spawned r @ bs \<and>
        descends same_building bs (dr_buildings r) (dr_buildings s))"

lemma descends_refl: "(\<And>v. P v v) \<Longrightarrow> descends P [] m m"
  by (simp add: descends_def)

lemma descends_trans:
  assumes "descends P xs m m'" and "descends P ys m' m''" and "\<And>u v w. P u v \<Longrightarrow> P v w \<Longrightarrow> P u w"
  shows "descends P (xs @ ys) m m''"
  unfolding descends_def
proof (intro allI impI)
  fix i w assume "um_find m'' i = Some w"
  then consider "i \<in> set ys" | v where "um_find m' i = Some v" "P v w"
    using assms(2) unfolding descends_def by blast
  then show "i \<in> set (xs @ ys) \<or> (\<exists>v. um_find m i = Some v \<and> P v w)"
  proof cases
    case 2
    then consider "i \<in> set xs" | u where "um_find m i = Some u" "P u v"
      using assms(1) unfolding descends_def by blast
    then show ?thesis using 2 assms(3) by cases auto
  qed auto
qed

lemma descends_adjust:
  "(\<And>v. um_find m k = Some v \<Longrightarrow> P v (f v)) \<Longrightarrow> (\<And>v. P v v) \<Longrightarrow> descends P [] m (um_adjust k f m)"
  by (auto simp: descends_def split: if_splits)

lemma descends_write:
  "descends P [] m m' \<Longrightarrow> P v v' \<Longrightarrow> um_find m k \<noteq> None \<Longrightarrow>
     descends P [] (um_adjust k (\<lambda>_. v) m) (um_adjust k (\<lambda>_. v') m')"
  by (auto simp: descends_def split: if_splits)

lemma descends_emplace: "(\<And>v. P v v) \<Longrightarrow> descends P [k] m (um_emplace k v m)"
  by (auto simp: descends_def split: if_splits)

lemma descends_erase_if: "um_ok m \<Longrightarrow> (\<And>v. P v v) \<Longrightarrow> descends P [] m (um_erase_if p m)"
  by (auto simp: descends_def um_find_erase_if split: if_splits option.splits)

lemmas descends_intros = descends_refl descends_adjust descends_write descends_emplace
  descends_erase_if

lemma after_hits_0 [simp]: "after_hits 0 h = h"
  by (simp add: after_hits_def)

lemma after_hits_hit: "f_max 0 (h - kAttackDamage) = after_hits 1 h"
  by (simp add: after_hits_def)

lemma after_hits_add: "after_hits n (after_hits m h) = after_hits (n + m) h"
  by (simp add: after_hits_def funpow_add)

lemma same_identity_refl [simp]: "same_identity u u"
  by (auto simp: same_identity_def intro: exI [of _ 0])

lemma same_identity_trans: "same_identity u v \<Longrightarrow> same_identity v w \<Longrightarrow> same_identity u w"
  by (auto simp: same_identity_def after_hits_add)

lemma same_building_refl [simp]: "same_building b b"
  by (simp add: same_building_def)

lemma lineage_trans:
  assumes "lineage r s" and "lineage s t"
  shows "lineage r t"
proof -
  obtain us bs where 1: "dr_spawned s = dr_spawned r @ us"
      "descends same_identity us (dr_units r) (dr_units s)"
      "dr_building_spawned s = dr_building_spawned r @ bs"
      "descends same_building bs (dr_buildings r) (dr_buildings s)"
    using assms(1) unfolding lineage_def by blast
  obtain vs cs where 2: "dr_spawned t = dr_spawned s @ vs"
      "descends same_identity vs (dr_units s) (dr_units t)"
      "dr_building_spawned t = dr_building_spawned s @ cs"
      "descends same_building cs (dr_buildings s) (dr_buildings t)"
    using assms(2) unfolding lineage_def by blast
  have "descends same_identity (us @ vs) (dr_units r) (dr_units t)"
    by (rule descends_trans [OF 1(2) 2(2) same_identity_trans])
  moreover have "descends same_building (bs @ cs) (dr_buildings r) (dr_buildings t)"
    by (rule descends_trans [OF 1(4) 2(4)]) (simp add: same_building_def)
  ultimately show ?thesis using 1 2 by (auto simp: lineage_def)
qed

lemma lineage_act:
  assumes "act dt u r u' r'" and "held k old u r"
  shows "lineage (write_back k u r) (write_back k u' r')"
proof -
  have h: "um_find (dr_units r) k \<noteq> None" using assms(2) by (simp add: held_def)
  have i: "same_identity u u'"
    using act_held [OF assms] assms(2) by (auto simp: held_def same_identity_def intro: exI [of _ 0])
  have "descends same_identity [] (dr_units r) (dr_units r') \<and> dr_spawned r' = dr_spawned r \<and>
      descends same_building [] (dr_buildings r) (dr_buildings r') \<and>
      dr_building_spawned r' = dr_building_spawned r"
    using assms(1)
  proof cases
    case (act_hit_unit j v)
    then show ?thesis
      by (auto simp: hit_unit_def mark_dirty_def same_identity_def after_hits_hit
          intro!: descends_intros exI [of _ 1])
  next
    case (act_deposit t)
    then show ?thesis
      by (auto simp: descends_intros mark_dirty_def deposit_def mark_resource_dirty_def split: option.split)
  qed (auto simp: SpawnResourceDrop_def Let_def mark_dirty_def hit_unit_def hit_building_def
      mark_building_dirty_def same_building_def construct_progress_def
      intro!: descends_intros)
  then show ?thesis using h i by (auto simp: lineage_def write_back_def intro: descends_write)
qed

interpretation lineage: effect_relation lineage dt for dt
proof
  show "keyed r \<Longrightarrow> held k old u r \<Longrightarrow> u_id u = k \<Longrightarrow> act dt u r u' r' \<Longrightarrow>
      lineage (write_back k u r) (write_back k u' r')" for r k old u u' r'
    by (rule lineage_act)
next
  fix r :: DungeonRoom and k b m item
  let ?n = "dr_next_entity_id r"
  obtain u p where t: "train_spawn m b item r = r\<lparr>dr_next_entity_id := ?n + 1,
       dr_spawned := dr_spawned r @ [?n],
       dr_units := um_adjust ?n (\<lambda>u. u\<lparr>u_target := p, u_has_target := True\<rparr>)
         (um_emplace ?n u (dr_units r))\<rparr>"
    by (rule train_spawn_shape)
  have "descends same_identity [?n] (dr_units r)
      (um_adjust ?n (\<lambda>u. u\<lparr>u_target := p, u_has_target := True\<rparr>) (um_emplace ?n u (dr_units r)))"
    by (auto simp: descends_def split: if_splits)
  then show "lineage r (train_spawn m b item r)"
    by (auto simp: lineage_def t intro: descends_refl)
next
  show "lineage r s \<Longrightarrow> lineage s t \<Longrightarrow> lineage r t" for r s t
    by (rule lineage_trans)
qed (auto simp: lineage_def pay_cost_def set_queue_def mark_building_dirty_def mark_resource_dirty_def
    Reject_def SpawnBuilding_def RemoveDead_def Let_def keyed_def keyed_by_def same_building_def
    intro!: descends_intros)

subsection \<open>Unique identifiers\<close>

text \<open>The identifiers in use: of the living entities and of those that left in the current frame.\<close>

definition all_ids :: "DungeonRoom \<Rightarrow> u64 list" where
  "all_ids r = um_keys (dr_units r) @ um_keys (dr_buildings r) @ um_keys (dr_fields r) @
     um_keys (dr_drops r) @ dr_despawned r @ dr_building_despawned r @ dr_field_despawned r @
     dr_drop_despawned r"

definition fresh_ids :: "DungeonRoom \<Rightarrow> bool" where
  "fresh_ids r \<longleftrightarrow> distinct (all_ids r) \<and> 0 < dr_next_entity_id r \<and>
     list_all (\<lambda>i. 0 < i \<and> i < dr_next_entity_id r) (all_ids r)"

definition spawn_count :: "DungeonRoom \<Rightarrow> nat" where
  "spawn_count r = length (dr_spawned r) + length (dr_building_spawned r) +
     length (dr_field_spawned r) + length (dr_drop_spawned r)"

definition ids_follow :: "DungeonRoom \<Rightarrow> DungeonRoom \<Rightarrow> bool" where
  "ids_follow r s \<longleftrightarrow> spawn_count r \<le> spawn_count s \<and>
     (fresh_ids r \<and> unat (dr_next_entity_id r) + (spawn_count s - spawn_count r) < 2 ^ 64 \<longrightarrow>
        fresh_ids s \<and>
        unat (dr_next_entity_id s) = unat (dr_next_entity_id r) + (spawn_count s - spawn_count r))"

lemma ids_follow_trans: "ids_follow r s \<Longrightarrow> ids_follow s t \<Longrightarrow> ids_follow r t"
  by (auto simp: ids_follow_def)

lemma distinct_submset: "mset xs \<subseteq># mset ys \<Longrightarrow> distinct ys \<Longrightarrow> distinct xs"
  by (metis distinct_append mset_append mset_eq_imp_distinct_iff mset_subset_eq_exists_conv ex_mset)

lemma ids_follow_shrink:
  assumes "mset (all_ids s) \<subseteq># mset (all_ids r)" and "dr_next_entity_id s = dr_next_entity_id r"
    and "spawn_count s = spawn_count r"
  shows "ids_follow r s"
  using assms distinct_submset [OF assms(1)] set_mset_mono [OF assms(1)]
  by (auto simp: ids_follow_def fresh_ids_def list_all_iff)

lemma ids_follow_spawn:
  assumes "mset (all_ids s) \<subseteq># add_mset (dr_next_entity_id r) (mset (all_ids r))"
    and "dr_next_entity_id s = dr_next_entity_id r + 1" and "spawn_count s = Suc (spawn_count r)"
  shows "ids_follow r s"
proof -
  let ?n = "dr_next_entity_id r"
  have sub: "mset (all_ids s) \<subseteq># mset (?n # all_ids r)" using assms(1) by simp
  have "fresh_ids s \<and> unat (dr_next_entity_id s) = Suc (unat ?n)"
    if f: "fresh_ids r" and b: "unat ?n + 1 < 2 ^ 64"
  proof -
    have n: "unat (?n + 1) = Suc (unat ?n)" using b by (simp add: unat_word_ariths)
    have "distinct (?n # all_ids r)" using f by (auto simp: fresh_ids_def list_all_iff)
    then have "distinct (all_ids s)" by (rule distinct_submset [OF sub])
    moreover have "\<forall>i\<in>set (all_ids s). 0 < i \<and> i < ?n + 1"
      using f n set_mset_mono [OF sub]
      by (fastforce simp: fresh_ids_def list_all_iff word_less_nat_alt)
    ultimately show ?thesis
      using f n assms(2) by (auto simp: fresh_ids_def list_all_iff word_less_nat_alt)
  qed
  then show ?thesis using assms(3) by (auto simp: ids_follow_def)
qed

lemma mset_keys_emplace: "mset (um_keys (um_emplace k v m)) \<subseteq># add_mset k (mset (um_keys m))"
  by (simp add: um_keys_emplace)

lemma mset_keys_erase:
  assumes "um_ok m" and "um_find m k = Some v"
  shows "add_mset k (mset (um_keys (um_erase k m))) = mset (um_keys m)"
proof -
  have "distinct (um_keys m)" "k \<in> set (um_keys m)"
    using assms by (auto simp: um_ok_def um.keys_find)
  moreover have "filter (\<lambda>j. j \<noteq> k) (um_keys m) = removeAll k (um_keys m)"
    by (auto simp: removeAll_filter_not_eq intro: filter_cong)
  ultimately show ?thesis
    by (simp add: um_keys_erase distinct_remove1_removeAll [symmetric])
qed

lemma mset_keys_erase_if:
  assumes "um_ok m" and "mset ks = mset (um_keys m)"
    and "\<And>k v. um_find m k = Some v \<Longrightarrow> q k = p v"
  shows "mset (filter q ks) + mset (um_keys (um_erase_if p m)) = mset (um_keys m)"
proof -
  have "um_keys (um_erase_if p m) = filter (\<lambda>k. \<not> q k) (um_keys m)"
    using assms(1,3)
  proof (induction m)
    case (Cons a m)
    obtain k v where a: "a = (k, v)" by fastforce
    have ok: "um_ok m" using Cons.prems(1) by (simp add: um_ok_def um_keys_def)
    have "um_find (a # m) j = Some w" if "um_find m j = Some w" for j w
      using that Cons.prems(1) a um_find_in_set [OF that] by (force simp: um_ok_def um_keys_def um_find_def)
    then have "um_keys (um_erase_if p m) = filter (\<lambda>k. \<not> q k) (um_keys m)"
      using Cons.IH [OF ok] Cons.prems(2) by blast
    moreover have "q k = p v" using Cons.prems(2) [of k v] a by (simp add: um_find_def)
    ultimately show ?case using a by (simp add: um_erase_if_def um_keys_def)
  qed (simp add: um_erase_if_def)
  then show ?thesis using assms(2) by (simp add: mset_filter)
qed

lemma ids_follow_act:
  assumes "act dt u r u' r'" and "keyed r"
  shows "ids_follow (write_back k u r) (write_back k u' r')"
  using assms(1)
proof cases
  case act_drop
  then show ?thesis
    using mset_keys_emplace [of "dr_next_entity_id r" _ "dr_drops r"]
    by (intro ids_follow_spawn)
       (auto simp: write_back_def all_ids_def spawn_count_def SpawnResourceDrop_def Let_def mark_dirty_def
         ac_simps)
next
  case (act_erase_field j f)
  have "um_ok (dr_fields r)" "f_id f = j"
    using assms(2) act_erase_field(3) by (auto simp: keyed_def keyed_by_def intro: keyed_by_find)
  then show ?thesis
    using act_erase_field mset_keys_erase [OF _ act_erase_field(3)]
    by (intro ids_follow_shrink)
       (simp_all add: write_back_def all_ids_def spawn_count_def flip: add_mset_add_single union_assoc)
next
  case (act_erase_drop j d)
  have "um_ok (dr_drops r)" "d_id d = j"
    using assms(2) act_erase_drop(3) by (auto simp: keyed_def keyed_by_def intro: keyed_by_find)
  then show ?thesis
    using act_erase_drop mset_keys_erase [OF _ act_erase_drop(3)]
    by (intro ids_follow_shrink)
       (simp_all add: write_back_def all_ids_def spawn_count_def flip: add_mset_add_single union_assoc)
next
  case (act_deposit t)
  then show ?thesis
    by (intro ids_follow_shrink) (auto simp: write_back_def all_ids_def spawn_count_def mark_dirty_def
        deposit_def mark_resource_dirty_def split: option.split)
qed (auto simp: write_back_def all_ids_def spawn_count_def mark_dirty_def hit_unit_def hit_building_def
    mark_building_dirty_def intro!: ids_follow_shrink)

lemma ids_follow_RemoveDead:
  assumes "keyed r" and "iter_ok ord"
  shows "ids_follow r (RemoveDead ord r)"
proof -
  have u: "mset (filter (unit_dead r) (ord CUnits (um_keys (dr_units r)))) +
      mset (um_keys (um_erase_if (\<lambda>u. u_hp u \<le> 0) (dr_units r))) = mset (um_keys (dr_units r))"
    using assms by (intro mset_keys_erase_if) (auto simp: keyed_def keyed_by_def iter_ok_def unit_dead_def)
  have b: "mset (filter (building_dead r) (ord CBuildings (um_keys (dr_buildings r)))) +
      mset (um_keys (um_erase_if (\<lambda>b. b_hp b \<le> 0) (dr_buildings r))) = mset (um_keys (dr_buildings r))"
    using assms by (intro mset_keys_erase_if) (auto simp: keyed_def keyed_by_def iter_ok_def building_dead_def)
  have "mset (all_ids (RemoveDead ord r)) = mset (all_ids r)"
    unfolding all_ids_def RemoveDead_def mset_append
    by (simp add: u [symmetric] b [symmetric] ac_simps del: mset_filter)
  then show ?thesis by (intro ids_follow_shrink) (auto simp: RemoveDead_def spawn_count_def)
qed

interpretation ids: effect_relation ids_follow dt for dt
proof
  show "keyed r \<Longrightarrow> held k old u r \<Longrightarrow> u_id u = k \<Longrightarrow> act dt u r u' r' \<Longrightarrow>
      ids_follow (write_back k u r) (write_back k u' r')" for r k old u u' r'
    by (rule ids_follow_act)
next
  fix r :: DungeonRoom and k b m item
  obtain u p where "train_spawn m b item r = r\<lparr>dr_next_entity_id := dr_next_entity_id r + 1,
       dr_spawned := dr_spawned r @ [dr_next_entity_id r],
       dr_units := um_adjust (dr_next_entity_id r) (\<lambda>u. u\<lparr>u_target := p, u_has_target := True\<rparr>)
         (um_emplace (dr_next_entity_id r) u (dr_units r))\<rparr>"
    by (rule train_spawn_shape)
  then show "ids_follow r (train_spawn m b item r)"
    using mset_keys_emplace [of "dr_next_entity_id r" u "dr_units r"]
    by (intro ids_follow_spawn) (auto simp: all_ids_def spawn_count_def ac_simps)
next
  show "ids_follow r (snd (SpawnBuilding uid team ty pos yaw True r))" for r uid team ty pos yaw
    using mset_keys_emplace [of "dr_next_entity_id r" _ "dr_buildings r"]
    by (intro ids_follow_spawn) (auto simp: all_ids_def spawn_count_def SpawnBuilding_def Let_def ac_simps)
next
  show "keyed r \<Longrightarrow> iter_ok ord \<Longrightarrow> ids_follow r (RemoveDead ord r)" for r ord
    by (rule ids_follow_RemoveDead)
next
  show "ids_follow r s \<Longrightarrow> ids_follow s t \<Longrightarrow> ids_follow r t" for r s t
    by (rule ids_follow_trans)
qed (auto simp: all_ids_def spawn_count_def pay_cost_def set_queue_def mark_building_dirty_def
    mark_resource_dirty_def Reject_def intro!: ids_follow_shrink)

end
