(* ===== verification/RoomTheorems.thy ===== *)
theory RoomTheorems
  imports RoomSync RoomStock RoomLineage
begin

text \<open>
  The properties of a game room that hold through every frame (the commands of the frame, then one
  simulation step), stated over the model of the code and instantiated at a concrete room.
\<close>

subsection \<open>A concrete room\<close>

text \<open>Two players, a worker each side of a field that can be reached in one step, a crystal each.\<close>

definition example_libm :: libm where
  "example_libm = \<lparr>sinf = (\<lambda>_. 0), cosf = (\<lambda>_. lit 1 1), atan2f = (\<lambda>_ _. 0)\<rparr>"

definition at :: "nat \<Rightarrow> nat \<Rightarrow> Vec3f" where
  "at x z = \<lparr>vx = f32_of_nat x, vy = 0, vz = f32_of_nat z\<rparr>"

definition example_lobby :: DungeonRoom where
  "example_lobby = snd (AddPlayer 8 (snd (AddPlayer 7 (DungeonRoom_new 1 ''room'' 2))))"

definition example_room :: DungeonRoom where
  "example_room =
     (let r = example_lobby;
          r = snd (SpawnBuilding 7 0 kBuildingCrystal (at 0 0) 0 False r);
          r = snd (SpawnBuilding 8 1 kBuildingCrystal (at 50 50) 0 False r);
          r = snd (SpawnUnit 7 0 kUnitVillager (at 1 1) (lit 100 1) kVillagerMoveSpeed 0 r);
          r = snd (SpawnUnit 8 1 kUnitVillager (at 2 2) (lit 100 1) kVillagerMoveSpeed 0 r);
          r = snd (SpawnResourceField kRawWood (at 3 3) 600 r);
          r = ClearFrameChanges (BeginBattle r)
      in EnqueueCommand (PendingCommand_default\<lparr>pc_type := CmdAttack, pc_owner_uid := 7,
           pc_unit_ids := [3], pc_target_entity := 4\<rparr>) r)"

lemma example_ok: "keyed example_room" "loads_ok example_room" "fresh_ids example_room"
  by code_simp+



abbreviation example_frame :: DungeonRoom where
  "example_frame \<equiv>
     Step (\<lambda>_ xs. xs) example_libm (lit 5 100) (ApplyPending example_libm example_room)"

subsection \<open>State synchronisation\<close>



subsection \<open>The economy\<close>

text \<open>C2: a frame creates no resources: if no worker carries more than its capacity of 10, then none
  does after the frame, and the total of what is left in the fields, lies in drops, is carried and
  is booked in the ledgers is at most what it was. The amounts are 32-bit words, so no subtraction
  in harvesting, picking up or paying wraps around.\<close>

theorem frame_economy:
  assumes "keyed r" and "iter_ok ord" and "loads_ok r"
  shows "loads_ok (Step ord m dt (ApplyPending m r)) \<and>
    stock (Step ord m dt (ApplyPending m r)) \<le> stock r"
  using economy.frame [OF assms(1,2)] assms(3) by (simp add: economy_def)

theorem frame_economy_witness:
  "loads_ok example_frame \<and> stock example_frame \<le> stock example_room \<and> stock example_room = 1600"
proof -
  have "stock example_room = 1600" by code_simp
  then show ?thesis
    using frame_economy [OF example_ok(1) iter_ok_insertion example_ok(2)] by blast
qed

subsection \<open>Identity\<close>

text \<open>C3: entity identifiers stay unique: if the identifiers of all units, buildings, fields and drops,
  and of those despawned in the current frame, are distinct, non-zero and below the counter, and the counter does not reach \<open>2^64\<close> with the
  entities spawned in the frame, then the same holds after the frame, and the counter has advanced
  by exactly the number of spawned entities.\<close>

theorem frame_fresh_ids:
  assumes "keyed r" and "iter_ok ord" and "fresh_ids r"
    and s: "s = Step ord m dt (ApplyPending m r)"
    and "unat (dr_next_entity_id r) + (spawn_count s - spawn_count r) < 2 ^ 64"
  shows "fresh_ids s \<and>
    unat (dr_next_entity_id s) = unat (dr_next_entity_id r) + (spawn_count s - spawn_count r)"
  using ids.frame [OF assms(1,2), of m dt] assms(3,5) unfolding s by (simp add: ids_follow_def)

theorem frame_fresh_ids_witness: "fresh_ids example_frame \<and> unat (dr_next_entity_id example_frame) = 6"
proof -
  have n: "unat (dr_next_entity_id example_room) = 6" by code_simp
  have c: "spawn_count example_frame = 0" "spawn_count example_room = 0" by code_simp+
  have "fresh_ids example_frame \<and> unat (dr_next_entity_id example_frame) =
      unat (dr_next_entity_id example_room) + (spawn_count example_frame - spawn_count example_room)"
    by (rule frame_fresh_ids [OF example_ok(1) iter_ok_insertion example_ok(3) refl])
       (simp only: n c, simp)
  then show ?thesis using n c by auto
qed

text \<open>C4: every unit that stands after a frame either stood before it, with the same owner, team, type
  and speed and with the hit points a whole number of hits of 20 (floored at 0) leaves of the old
  ones, or is in the spawn list of the frame; every building either stood before with the same
  owner, team, type, place and maximal hit points, or is in the list of spawned buildings. Nothing
  changes sides, and a finished building is never under construction again.\<close>

theorem frame_lineage:
  assumes "keyed r" and "iter_ok ord"
  shows "lineage r (Step ord m dt (ApplyPending m r))"
  using assms by (rule lineage.frame)

theorem frame_lineage_witness: "lineage example_room example_frame"
  using frame_lineage [OF example_ok(1) iter_ok_insertion] .

end
