(* ===== verification/Protocol.thy ===== *)
theory Protocol
  imports Containers
begin

unbundle bit_operations_syntax

text \<open>
  The wire format (\<^verbatim>\<open>common/Protocol.h\<close>, \<^verbatim>\<open>MsgNode.cc\<close>, the readers of \<^verbatim>\<open>GatewayLinkSession.cc\<close>): a
  ten byte header in network byte order, magic, message id, flags and body length, then the body.
  \<^verbatim>\<open>MsgId\<close> is an enum class over \<^verbatim>\<open>uint16_t\<close> into which arbitrary values are cast, so a message id is a
  16-bit word with named constants. The reader is a function on the bytes that have arrived: it
  returns the packets it hands on and whether it closes the link.
\<close>

subsection \<open>Constants\<close>

type_synonym byte = u8
type_synonym MsgId = u16

definition kPacketMagic :: u16 where "kPacketMagic = 0x5254"
definition kPacketHeaderLen :: nat where [simp]: "kPacketHeaderLen = 2 + 2 + 2 + 4"
definition kPacketFlagNone :: u16 where [simp]: "kPacketFlagNone = 0"
definition kMaxPacketBodyLen :: nat where "kMaxPacketBodyLen = 64 * 1024"
definition kMaxSendQueueDepth :: nat where "kMaxSendQueueDepth = 2048"

definition LoginReq :: MsgId where [simp]: "LoginReq = 10001"
definition LoginRsp :: MsgId where [simp]: "LoginRsp = 10002"
definition PingReq :: MsgId where [simp]: "PingReq = 10003"
definition PongRsp :: MsgId where [simp]: "PongRsp = 10004"
definition CreateRoomReq :: MsgId where [simp]: "CreateRoomReq = 10101"
definition CreateRoomRsp :: MsgId where [simp]: "CreateRoomRsp = 10102"
definition JoinRoomReq :: MsgId where [simp]: "JoinRoomReq = 10103"
definition JoinRoomRsp :: MsgId where [simp]: "JoinRoomRsp = 10104"
definition LeaveRoomReq :: MsgId where [simp]: "LeaveRoomReq = 10105"
definition RoomStateNtf :: MsgId where [simp]: "RoomStateNtf = 10106"
definition PlayerReadyReq :: MsgId where [simp]: "PlayerReadyReq = 10107"
definition GameStartNtf :: MsgId where [simp]: "GameStartNtf = 10108"
definition EnterBattleReq :: MsgId where [simp]: "EnterBattleReq = 11001"
definition MoveCmd :: MsgId where [simp]: "MoveCmd = 11002"
definition AttackCmd :: MsgId where [simp]: "AttackCmd = 11003"
definition SkillCmd :: MsgId where [simp]: "SkillCmd = 11004"
definition HarvestCmd :: MsgId where [simp]: "HarvestCmd = 11005"
definition StoreResourceCmd :: MsgId where [simp]: "StoreResourceCmd = 11006"
definition PickupResourceCmd :: MsgId where [simp]: "PickupResourceCmd = 11007"
definition BuildCmd :: MsgId where [simp]: "BuildCmd = 11008"
definition ConstructCmd :: MsgId where [simp]: "ConstructCmd = 11009"
definition TrainUnitCmd :: MsgId where [simp]: "TrainUnitCmd = 11010"
definition StopCmd :: MsgId where [simp]: "StopCmd = 11011"
definition EnterBattleRsp :: MsgId where [simp]: "EnterBattleRsp = 12001"
definition CommandRejectedNtf :: MsgId where [simp]: "CommandRejectedNtf = 12003"
definition EntitySpawnNtf :: MsgId where [simp]: "EntitySpawnNtf = 12004"
definition EntityDespawnNtf :: MsgId where [simp]: "EntityDespawnNtf = 12005"
definition WorldDeltaNtf :: MsgId where [simp]: "WorldDeltaNtf = 12006"
definition SnapshotNtf :: MsgId where [simp]: "SnapshotNtf = 12007"
definition GameOverNtf :: MsgId where [simp]: "GameOverNtf = 12009"
definition GateToGameEnvelope :: MsgId where [simp]: "GateToGameEnvelope = 20001"
definition GameToGateEnvelope :: MsgId where [simp]: "GameToGateEnvelope = 20002"
definition GateLinkHello :: MsgId where [simp]: "GateLinkHello = 20003"
definition ClientDisconnectedNtf :: MsgId where [simp]: "ClientDisconnectedNtf = 20004"
definition ErrorNtf :: MsgId where [simp]: "ErrorNtf = 60001"

definition IsClientGameplayCommand :: "MsgId \<Rightarrow> bool" where
  "IsClientGameplayCommand i \<longleftrightarrow> EnterBattleReq \<le> i \<and> i \<le> StopCmd"

subsection \<open>Byte order\<close>

text \<open>\<^verbatim>\<open>host_to_network_*\<close> followed by \<^verbatim>\<open>memcpy\<close>, and \<^verbatim>\<open>memcpy\<close> followed by \<^verbatim>\<open>network_to_host_*\<close>.\<close>

definition put16 :: "u16 \<Rightarrow> byte list" where
  "put16 w = [ucast (drop_bit 8 w), ucast w]"

definition put32 :: "u32 \<Rightarrow> byte list" where
  "put32 w = [ucast (drop_bit 24 w), ucast (drop_bit 16 w), ucast (drop_bit 8 w), ucast w]"

definition get16 :: "byte list \<Rightarrow> nat \<Rightarrow> u16" where
  "get16 bs off = push_bit 8 (ucast (bs ! off)) OR ucast (bs ! (off + 1))"

definition get32 :: "byte list \<Rightarrow> nat \<Rightarrow> u32" where
  "get32 bs off = push_bit 24 (ucast (bs ! off)) OR push_bit 16 (ucast (bs ! (off + 1))) OR
     push_bit 8 (ucast (bs ! (off + 2))) OR ucast (bs ! (off + 3))"

subsection \<open>Sending\<close>

record SendNode =
  sn_msg_id :: u16
  sn_flags :: u16
  sn_data :: "byte list"

text \<open>The constructor copies \<^verbatim>\<open>max_len\<close> bytes of the message, where the callers pass the payload's size
  cast to 32 bits.\<close>

definition SendNode_new :: "byte list \<Rightarrow> u16 \<Rightarrow> u16 \<Rightarrow> SendNode" where
  "SendNode_new msg msg_id flags =
     (let max_len = of_nat (length msg) :: u32
      in \<lparr>sn_msg_id = msg_id, sn_flags = flags,
          sn_data = put16 kPacketMagic @ put16 msg_id @ put16 flags @ put32 max_len @
            take (unat max_len) msg\<rparr>)"

definition ExtractPacketPayload :: "SendNode option \<Rightarrow> byte list" where
  "ExtractPacketPayload packet =
     (case packet of
        None \<Rightarrow> []
      | Some p \<Rightarrow>
          let d = sn_data p
          in if d = [] then []
             else if kPacketHeaderLen \<le> length d \<and> get16 d 0 = kPacketMagic
             then drop kPacketHeaderLen d
             else d)"

subsection \<open>Receiving\<close>

record RecvNode =
  rn_msg_id :: u16
  rn_flags :: u16
  rn_data :: "byte list"

text \<open>\<^verbatim>\<open>ReadHead\<close> on the ten bytes of a header: the id, the flags and the body length, or \<open>None\<close> when
  the link is closed.\<close>

definition ReadHead :: "byte list \<Rightarrow> (u16 \<times> u16 \<times> nat) option" where
  "ReadHead h =
     (let magic = get16 h 0;
          msg_id = get16 h 2;
          flags = get16 h 4;
          data_len = get32 h 6
      in if magic \<noteq> kPacketMagic then None
         else if msg_id = 0 then None
         else if kMaxPacketBodyLen < unat data_len then None
         else Some (msg_id, flags, unat data_len))"

text \<open>\<^verbatim>\<open>ReadData\<close> on the bytes that follow: the body and what remains, or \<open>None\<close> when the stream ends
  first.\<close>

definition ReadData :: "nat \<Rightarrow> byte list \<Rightarrow> (byte list \<times> byte list) option" where
  "ReadData len bs =
     (if len = 0 then Some ([], bs)
      else if length bs < len then None
      else Some (take len bs, drop len bs))"

text \<open>\<^verbatim>\<open>handle_read\<close> on the bytes that arrive before the peer closes: the packets handed to
  \<^verbatim>\<open>OnPacket\<close>, in order. The loop ends with a read error, a bad header or a short body.\<close>

function handle_read :: "byte list \<Rightarrow> RecvNode list" where
  "handle_read bs =
     (if length bs < kPacketHeaderLen then []
      else
        case ReadHead (take kPacketHeaderLen bs) of
          None \<Rightarrow> []
        | Some (msg_id, flags, len) \<Rightarrow>
            (case ReadData len (drop kPacketHeaderLen bs) of
               None \<Rightarrow> []
             | Some (body, rest) \<Rightarrow>
                 \<lparr>rn_msg_id = msg_id, rn_flags = flags, rn_data = body\<rparr> # handle_read rest))"
  by pat_completeness auto
termination
  by (relation "measure length") (auto simp: ReadData_def split: if_splits)

declare handle_read.simps [simp del]

subsection \<open>What is sent is what is received\<close>

lemma length_put [simp]: "length (put16 w) = 2" "length (put32 v) = 4"
  by (simp_all add: put16_def put32_def)

lemma join16: "push_bit 8 (ucast (ucast (drop_bit 8 w) :: byte)) OR ucast (ucast w :: byte) = (w :: u16)"
  by (rule bit_word_eqI) (auto simp: bit_simps)

lemma join32:
  "push_bit 24 (ucast (ucast (drop_bit 24 w) :: byte)) OR push_bit 16 (ucast (ucast (drop_bit 16 w) :: byte)) OR
   push_bit 8 (ucast (ucast (drop_bit 8 w) :: byte)) OR ucast (ucast w :: byte) = (w :: u32)"
  (is "?l = w")
proof (rule bit_word_eqI)
  fix n assume n: "n < LENGTH(32)"
  consider "n < 8" | "8 \<le> n" "n < 16" | "16 \<le> n" "n < 24" | "24 \<le> n" by linarith
  then show "bit ?l n \<longleftrightarrow> bit w n" using n by cases (auto simp: bit_simps)
qed

lemma get16_put16: "get16 (xs @ put16 w @ ys) (length xs) = w"
  using join16 [of w] by (simp add: get16_def put16_def nth_append)

lemma get32_put32: "get32 (xs @ put32 w @ ys) (length xs) = w"
  using join32 [of w] by (simp add: get32_def put32_def nth_append)

lemma unat_of_nat32: "n < 2 ^ 32 \<Longrightarrow> unat (of_nat n :: u32) = n"
  by (simp add: unat_of_nat)

lemma SendNode_data:
  assumes "length p < 2 ^ 32"
  shows "sn_data (SendNode_new p msg_id flags) =
    put16 kPacketMagic @ put16 msg_id @ put16 flags @ put32 (of_nat (length p)) @ p"
  using assms by (simp add: SendNode_new_def Let_def unat_of_nat32)

lemma header_fields:
  fixes len :: u32 and msg_id flags :: u16
  defines "h \<equiv> put16 kPacketMagic @ put16 msg_id @ put16 flags @ put32 len"
  shows "get16 h 0 = kPacketMagic" and "get16 h 2 = msg_id" and "get16 h 4 = flags" and "get32 h 6 = len"
    and "length h = kPacketHeaderLen"
  using get16_put16 [of "[]" kPacketMagic] get16_put16 [of "put16 kPacketMagic" msg_id]
    get16_put16 [of "put16 kPacketMagic @ put16 msg_id" flags]
    get32_put32 [of "put16 kPacketMagic @ put16 msg_id @ put16 flags" len "[]"]
  by (simp_all add: h_def)

definition sendable :: "u16 \<times> u16 \<times> byte list \<Rightarrow> bool" where
  "sendable m = (case m of (msg_id, flags, p) \<Rightarrow> msg_id \<noteq> 0 \<and> length p \<le> kMaxPacketBodyLen)"

definition wire :: "u16 \<times> u16 \<times> byte list \<Rightarrow> byte list" where
  "wire m = (case m of (msg_id, flags, p) \<Rightarrow> sn_data (SendNode_new p msg_id flags))"

definition received :: "u16 \<times> u16 \<times> byte list \<Rightarrow> RecvNode" where
  "received m = (case m of (msg_id, flags, p) \<Rightarrow> \<lparr>rn_msg_id = msg_id, rn_flags = flags, rn_data = p\<rparr>)"

lemma ReadHead_wire:
  assumes "length p < 2 ^ 32"
  shows "ReadHead (take kPacketHeaderLen (wire (msg_id, flags, p) @ rest)) =
    (if msg_id = 0 \<or> kMaxPacketBodyLen < length p then None else Some (msg_id, flags, length p))"
proof -
  let ?h = "put16 kPacketMagic @ put16 msg_id @ put16 flags @ put32 (of_nat (length p))"
  have "take kPacketHeaderLen (wire (msg_id, flags, p) @ rest) = ?h"
    using header_fields(5) assms by (simp add: wire_def SendNode_data)
  then show ?thesis
    using header_fields(1-4) [of msg_id flags "of_nat (length p)"] assms
    by (simp add: ReadHead_def Let_def unat_of_nat32)
qed

lemma drop_wire:
  "length p < 2 ^ 32 \<Longrightarrow> drop kPacketHeaderLen (wire (msg_id, flags, p) @ rest) = p @ rest"
  by (simp add: wire_def SendNode_data)

lemma handle_read_wire:
  assumes "sendable m"
  shows "handle_read (wire m @ rest) = received m # handle_read rest"
proof -
  obtain msg_id flags p where m: "m = (msg_id, flags, p)" by (cases m)
  have p: "length p < 2 ^ 32" and ok: "msg_id \<noteq> 0" "\<not> kMaxPacketBodyLen < length p"
    using assms by (simp_all add: m sendable_def kMaxPacketBodyLen_def)
  have "kPacketHeaderLen \<le> length (wire m)" using p by (simp add: m wire_def SendNode_data)
  then show ?thesis
    using ReadHead_wire [OF p, of msg_id flags rest] drop_wire [OF p, of msg_id flags rest] ok
    by (subst handle_read.simps) (simp add: m received_def ReadData_def del: kPacketHeaderLen_def)
qed

text \<open>What every reader of a stream promises: it hands on each packet it accepts and goes on behind it. The
  servers' reader is one; the readers of the load generators are others.\<close>

locale packet_reader =
  fixes reads :: "byte list \<Rightarrow> 'p list" and accepts :: "u16 \<times> u16 \<times> byte list \<Rightarrow> bool"
    and packet :: "u16 \<times> u16 \<times> byte list \<Rightarrow> 'p"
  assumes reads_end: "reads [] = []"
    and reads_wire: "accepts m \<Longrightarrow> reads (wire m @ rest) = packet m # reads rest"
begin

lemma reads_stream: "list_all accepts ms \<Longrightarrow> reads (concat (map wire ms) @ rest) = map packet ms @ reads rest"
  by (induction ms) (simp_all add: reads_wire)

lemma reads_all: "list_all accepts ms \<Longrightarrow> reads (concat (map wire ms)) = map packet ms"
  using reads_stream [of ms "[]"] by (simp add: reads_end)

end

interpretation server_reader: packet_reader handle_read sendable received
  by unfold_locales (simp add: handle_read.simps, rule handle_read_wire)

lemma handle_read_oversize:
  assumes "kMaxPacketBodyLen < length p" and "length p < 2 ^ 32"
  shows "handle_read (wire (msg_id, flags, p) @ rest) = []"
  using ReadHead_wire [OF assms(2), of msg_id flags rest] assms(1)
  by (subst handle_read.simps) (simp del: kPacketHeaderLen_def)

lemma ExtractPacketPayload_SendNode:
  assumes "length p < 2 ^ 32"
  shows "ExtractPacketPayload (Some (SendNode_new p msg_id flags)) = p"
proof -
  have "get16 (sn_data (SendNode_new p msg_id flags)) 0 = kPacketMagic"
    using get16_put16 [of "[]" kPacketMagic] assms by (simp add: SendNode_data)
  then show ?thesis using assms by (auto simp: ExtractPacketPayload_def SendNode_data Let_def)
qed

end
