(* ===== verification/Messages.thy ===== *)
theory Messages
  imports Protocol DungeonStep
begin

text \<open>
  The messages of \<^verbatim>\<open>proto/rts.proto\<close> the game server handles, as values. The generated protobuf code
  is not part of the sources: parsing and serialising are the fields of a \<open>codec\<close>, an argument of
  every definition that uses them. Only the fields the servers read or write are kept.
\<close>

subsection \<open>Requests\<close>

record Envelope =
  ge_uid :: u64
  ge_session_id :: u64
  ge_room_id :: u64
  ge_inner_msg_id :: u32
  ge_client_seq :: u64
  ge_client_tick :: u64
  ge_payload :: "byte list"

record CreateRoom =
  cr_room_name :: string
  cr_max_players :: u32

record PlayerReady =
  pr_room_id :: u64
  pr_ready :: bool

record MoveOrder =
  mv_actor_unit_ids :: "u64 list"
  mv_target_position :: "Vec3f option"
  mv_path :: "Vec3f list"

record TargetOrder =
  to_unit_ids :: "u64 list"
  to_target :: u64

record AttackOrder =
  at_actor_unit_ids :: "u64 list"
  at_target :: "u64 option"

record BuildOrder =
  bo_builder_unit_ids :: "u64 list"
  bo_building_type :: u32
  bo_position :: "Vec3f option"
  bo_yaw :: f32

record TrainOrder =
  tr_producer_building_id :: u64
  tr_unit_type :: u32

subsection \<open>Responses and notifications\<close>

text \<open>The room casts its own integer codes to the proto's error enumeration.\<close>

type_synonym ErrorCode = int

definition ERROR_NONE :: ErrorCode where [simp]: "ERROR_NONE = 0"
definition ERROR_INVALID_REQUEST :: ErrorCode where [simp]: "ERROR_INVALID_REQUEST = 1"
definition ERROR_ROOM_NOT_FOUND :: ErrorCode where [simp]: "ERROR_ROOM_NOT_FOUND = 3"
definition ERROR_NOT_IN_ROOM :: ErrorCode where [simp]: "ERROR_NOT_IN_ROOM = 4"

datatype EntityType = ENTITY_UNIT | ENTITY_BUILDING | ENTITY_RESOURCE_FIELD | ENTITY_RESOURCE_DROP

datatype Team = TEAM_PLAYER | TEAM_ENEMY1 | TEAM_ENEMY2 | TEAM_ENEMY3 | TEAM_NONE

record UnitStateSnapshot =
  us_id :: u64
  us_team :: Team
  us_unit_type :: u32
  us_position :: Vec3f
  us_yaw :: f32
  us_hp :: f32
  us_state :: u32
  us_carried_amount :: u32
  us_carried_raw :: u32

record BuildingStateSnapshot =
  bs_id :: u64
  bs_team :: Team
  bs_building_type :: u32
  bs_position :: Vec3f
  bs_yaw :: f32
  bs_hp :: f32
  bs_constructed_percent :: f32

record FieldStateSnapshot =
  fs_id :: u64
  fs_raw :: u32
  fs_position :: Vec3f
  fs_yaw :: f32
  fs_amount_left :: u32

record DropStateSnapshot =
  ds_id :: u64
  ds_raw :: u32
  ds_position :: Vec3f
  ds_amount :: u32

record PlayerResources =
  rs_uid :: u64
  rs_food :: u32
  rs_wood :: u32
  rs_gold :: u32

datatype EntityState =
  UnitState UnitStateSnapshot | BuildingState BuildingStateSnapshot
  | FieldState FieldStateSnapshot | DropState DropStateSnapshot

datatype ServerMsg =
  CreateRoomRspMsg ErrorCode u64 string
  | JoinRoomRspMsg ErrorCode u64 Team string
  | RoomStateMsg u64 "(u64 \<times> Team \<times> bool) list"
  | GameStartMsg u64 u64 u32 u32 u64
  | EnterBattleRspMsg ErrorCode u64 u64 string
  | CommandRejectedMsg u64 u64 ErrorCode string
  | EntitySpawnMsg u64 u64 EntityType "byte list"
  | EntityDespawnMsg u64 u64 EntityType u64
  | WorldDeltaMsg u64 u64 "UnitStateSnapshot list" "BuildingStateSnapshot list" "PlayerResources list"
  | SnapshotMsg u64 u64 "UnitStateSnapshot list" "BuildingStateSnapshot list"
      "FieldStateSnapshot list" "DropStateSnapshot list" "PlayerResources list"
  | GameOverMsg u64 u64 Team
  | PongMsg u64 u64
  | GameToGateMsg "u64 list" u16 u64 "byte list"

subsection \<open>The generated code\<close>

record command_codec =
  cd_move :: "byte list \<Rightarrow> MoveOrder option"
  cd_stop :: "byte list \<Rightarrow> u64 list option"
  cd_attack :: "byte list \<Rightarrow> AttackOrder option"
  cd_harvest :: "byte list \<Rightarrow> TargetOrder option"
  cd_store :: "byte list \<Rightarrow> TargetOrder option"
  cd_pickup :: "byte list \<Rightarrow> TargetOrder option"
  cd_build :: "byte list \<Rightarrow> BuildOrder option"
  cd_construct :: "byte list \<Rightarrow> TargetOrder option"
  cd_train :: "byte list \<Rightarrow> TrainOrder option"

record codec =
  cd_envelope :: "byte list \<Rightarrow> Envelope option"
  cd_create_room :: "byte list \<Rightarrow> CreateRoom option"
  cd_join_room :: "byte list \<Rightarrow> u64 option"
  cd_leave_room :: "byte list \<Rightarrow> u64 option"
  cd_player_ready :: "byte list \<Rightarrow> PlayerReady option"
  cd_enter_battle :: "byte list \<Rightarrow> u64 option"
  cd_route_hint :: "byte list \<Rightarrow> u64 option"
  cd_disconnected :: "byte list \<Rightarrow> u64 option"
  cd_ping :: "byte list \<Rightarrow> u64 option"
  cd_commands :: command_codec
  cd_serialize :: "ServerMsg \<Rightarrow> byte list option"
  cd_entity_state :: "EntityState \<Rightarrow> byte list"

text \<open>\<^verbatim>\<open>ParseProtoFromBytes\<close>: more bytes than an \<^verbatim>\<open>int\<close> can count are refused before the parser runs.\<close>

definition ParseProtoFromBytes :: "(byte list \<Rightarrow> 'a option) \<Rightarrow> byte list \<Rightarrow> 'a option" where
  "ParseProtoFromBytes parse bytes = (if 2147483647 < length bytes then None else parse bytes)"

subsection \<open>Filling snapshots\<close>

definition ToProtoTeam :: "u32 \<Rightarrow> Team" where
  "ToProtoTeam team =
     (if team = 0 then TEAM_PLAYER
      else if team = 1 then TEAM_ENEMY1
      else if team = 2 then TEAM_ENEMY2
      else if team = 3 then TEAM_ENEMY3
      else TEAM_NONE)"

definition FillUnitSnapshot :: "Unit \<Rightarrow> UnitStateSnapshot" where
  "FillUnitSnapshot u =
     \<lparr>us_id = u_id u, us_team = ToProtoTeam (u_team u), us_unit_type = u_unit_type u,
      us_position = u_pos u, us_yaw = u_yaw u, us_hp = u_hp u, us_state = u_state u,
      us_carried_amount = u_carried_amount u, us_carried_raw = u_carried_raw u\<rparr>"

definition FillBuildingSnapshot :: "Building \<Rightarrow> BuildingStateSnapshot" where
  "FillBuildingSnapshot b =
     \<lparr>bs_id = b_id b, bs_team = ToProtoTeam (b_team b), bs_building_type = b_building_type b,
      bs_position = b_pos b, bs_yaw = b_yaw b, bs_hp = b_hp b,
      bs_constructed_percent = b_constructed_percent b\<rparr>"

definition FillFieldSnapshot :: "ResourceFieldEntity \<Rightarrow> FieldStateSnapshot" where
  "FillFieldSnapshot f =
     \<lparr>fs_id = f_id f, fs_raw = f_raw f, fs_position = f_pos f, fs_yaw = f_yaw f,
      fs_amount_left = f_amount_left f\<rparr>"

definition FillDropSnapshot :: "ResourceDropEntity \<Rightarrow> DropStateSnapshot" where
  "FillDropSnapshot d =
     \<lparr>ds_id = d_id d, ds_raw = d_raw d, ds_position = d_pos d, ds_amount = d_amount d\<rparr>"

definition FillPlayerResources :: "u64 \<Rightarrow> PlayerRes \<Rightarrow> PlayerResources" where
  "FillPlayerResources uid r =
     \<lparr>rs_uid = uid, rs_food = r_food r, rs_wood = r_wood r, rs_gold = r_gold r\<rparr>"

end
