(* ===== verification/LogicShard.thy ===== *)
theory LogicShard
  imports Messages
begin

text \<open>
  A logic shard (\<^verbatim>\<open>LogicShard.cc\<close>, \<^verbatim>\<open>LogicRouter.cc\<close>): the rooms it owns, which room each player is in
  and the route back to each player's gateway. Every handler is a function from the task and the
  shard to the effects it causes outside the shard, in order, and the new shard. A shard runs on
  one thread, so handlers and ticks never overlap.
\<close>

subsection \<open>State, tasks and effects\<close>

record GatewayRoute =
  gr_net_shard :: u32
  gr_link_id :: u32
  gr_generation :: u64

record LogicTask =
  lt_msg_id :: MsgId
  lt_uid :: u64
  lt_seq :: u64
  lt_origin :: GatewayRoute
  lt_body :: "byte list"

record NetworkSendTarget =
  nt_link_id :: u32
  nt_generation :: u64
  nt_uids :: "u64 list"

record NetworkTask =
  nk_msg_id :: MsgId
  nk_seq :: u64
  nk_targets :: "NetworkSendTarget list"
  nk_body :: SendNode

record LogicShard =
  ls_uid_to_room :: "(u64, u64) umap"
  ls_uid_route :: "(u64, GatewayRoute) umap"
  ls_rooms :: "(u64, DungeonRoom) umap"
  ls_next_room_id :: u64
  ls_shard_id :: u32
  ls_shard_count :: u64

definition LogicShard_new :: "u32 \<Rightarrow> u64 \<Rightarrow> LogicShard" where
  "LogicShard_new shard_id shard_count =
     \<lparr>ls_uid_to_room = [], ls_uid_route = [], ls_rooms = [], ls_next_room_id = 1,
      ls_shard_id = shard_id, ls_shard_count = (if shard_count = 0 then 1 else shard_count)\<rparr>"

datatype effect =
  PostToNetwork u32 NetworkTask
  | CountCommand | CountSnapshot | CountDelta
  | RecordTick u32 | ShardGauges u32 nat nat

text \<open>What the shard uses and the sources do not contain: iteration orders of unordered maps, the
  math library and the generated message code.\<close>

record env =
  e_ord :: iter_order
  e_ord_net :: "u32 list \<Rightarrow> u32 list"
  e_ord_link :: "u32 list \<Rightarrow> u32 list"
  e_libm :: libm
  e_codec :: codec

definition kDefaultMaxPlayers :: u32 where "kDefaultMaxPlayers = 2"
definition kMaxRoomPlayers :: u32 where "kMaxRoomPlayers = 4"
definition kDefaultTickRate :: u32 where "kDefaultTickRate = 20"
definition kTickSeconds :: f32 where "kTickSeconds = lit 5 100"
definition kFullSnapshotInterval :: u64 where "kFullSnapshotInterval = 20"
definition kUnitHp :: f32 where "kUnitHp = lit 100 1"
definition kStartUnitsPerPlayer :: nat where "kStartUnitsPerPlayer = 6"
definition kFormationColumnSpacing :: f32 where "kFormationColumnSpacing = lit 28 10"
definition kFormationRowSpacing :: f32 where "kFormationRowSpacing = lit 3 1"

subsection \<open>Sending\<close>

type_synonym grouped = "(u32, (u32, NetworkSendTarget) umap) umap"

definition add_target :: "(u64, GatewayRoute) umap \<Rightarrow> u64 \<Rightarrow> grouped \<Rightarrow> grouped" where
  "add_target routes uid g =
     (case um_find routes uid of
        None \<Rightarrow> g
      | Some route \<Rightarrow>
          let links = (case um_find g (gr_net_shard route) of None \<Rightarrow> [] | Some l \<Rightarrow> l);
              target = (case um_find links (gr_link_id route) of
                          None \<Rightarrow> \<lparr>nt_link_id = 0, nt_generation = 0, nt_uids = []\<rparr>
                        | Some t \<Rightarrow> t);
              target = target\<lparr>nt_link_id := gr_link_id route, nt_generation := gr_generation route,
                              nt_uids := nt_uids target @ [uid]\<rparr>
          in um_assign (gr_net_shard route) (um_assign (gr_link_id route) target links) g)"

definition link_targets :: "env \<Rightarrow> (u32, NetworkSendTarget) umap \<Rightarrow> NetworkSendTarget list" where
  "link_targets e links = List.map_filter (um_find links) (e_ord_link e (um_keys links))"

definition SendToPlayers ::
  "env \<Rightarrow> (u64, GatewayRoute) umap \<Rightarrow> MsgId \<Rightarrow> u64 list \<Rightarrow> ServerMsg \<Rightarrow> u64 \<Rightarrow> effect list" where
  "SendToPlayers e routes msg_id uids message server_seq =
     (if uids = [] then []
      else
        case cd_serialize (e_codec e) message of
          None \<Rightarrow> []
        | Some payload \<Rightarrow>
            let packet = SendNode_new payload msg_id kPacketFlagNone;
                g = fold (add_target routes) uids []
            in map (\<lambda>net. PostToNetwork net
                      \<lparr>nk_msg_id = msg_id, nk_seq = server_seq,
                       nk_targets = (case um_find g net of None \<Rightarrow> [] | Some l \<Rightarrow> link_targets e l),
                       nk_body = packet\<rparr>)
                 (e_ord_net e (um_keys g)))"

definition SendToPlayer ::
  "env \<Rightarrow> (u64, GatewayRoute) umap \<Rightarrow> MsgId \<Rightarrow> u64 \<Rightarrow> ServerMsg \<Rightarrow> u64 \<Rightarrow> effect list" where
  "SendToPlayer e routes msg_id uid message server_seq =
     SendToPlayers e routes msg_id [uid] message server_seq"

definition SendCommandRejected ::
  "env \<Rightarrow> (u64, GatewayRoute) umap \<Rightarrow> u64 \<Rightarrow> u64 \<Rightarrow> u64 \<Rightarrow> ErrorCode \<Rightarrow> string \<Rightarrow> effect list" where
  "SendCommandRejected e routes uid room_id client_seq code reason =
     SendToPlayer e routes CommandRejectedNtf uid
       (CommandRejectedMsg room_id client_seq code reason) 0"

definition BroadcastRoomState :: "env \<Rightarrow> (u64, GatewayRoute) umap \<Rightarrow> DungeonRoom \<Rightarrow> effect list" where
  "BroadcastRoomState e routes room =
     (let ntf = RoomStateMsg (dr_room_id room)
                  (map (\<lambda>p. (p_uid p, ToProtoTeam (p_team p), p_ready p)) (Players (e_ord e) room))
      in concat (map (\<lambda>uid. SendToPlayer e routes RoomStateNtf uid ntf 0) (PlayerUids (e_ord e) room)))"

definition BroadcastGameStart :: "env \<Rightarrow> (u64, GatewayRoute) umap \<Rightarrow> DungeonRoom \<Rightarrow> effect list" where
  "BroadcastGameStart e routes room =
     (let ntf = GameStartMsg (dr_room_id room) (dr_server_tick room) kDefaultTickRate
                  (ucast kFullSnapshotInterval) (dr_room_id room * 1103515245 + 12345)
      in concat (map (\<lambda>uid. SendToPlayer e routes GameStartNtf uid ntf 0) (PlayerUids (e_ord e) room)))"

definition BroadcastGameOver ::
  "env \<Rightarrow> (u64, GatewayRoute) umap \<Rightarrow> DungeonRoom \<Rightarrow> u32 \<Rightarrow> effect list" where
  "BroadcastGameOver e routes room winner_team =
     SendToPlayers e routes GameOverNtf (PlayerUids (e_ord e) room)
       (GameOverMsg (dr_room_id room) (dr_server_tick room) (ToProtoTeam winner_team))
       (dr_server_tick room)"

subsection \<open>Snapshots and deltas\<close>

definition SendFullSnapshot :: "env \<Rightarrow> (u64, GatewayRoute) umap \<Rightarrow> DungeonRoom \<Rightarrow> effect list" where
  "SendFullSnapshot e routes room =
     (let ord = e_ord e;
          ntf = SnapshotMsg (dr_room_id room) (dr_server_tick room)
            (map FillUnitSnapshot
               (List.map_filter (FindUnit room) (ord CUnits (um_keys (dr_units room)))))
            (map FillBuildingSnapshot
               (List.map_filter (FindBuilding room) (ord CBuildings (um_keys (dr_buildings room)))))
            (map FillFieldSnapshot
               (List.map_filter (FindField room) (ord CFields (um_keys (dr_fields room)))))
            (map FillDropSnapshot
               (List.map_filter (FindDrop room) (ord CDrops (um_keys (dr_drops room)))))
            (List.map_filter (\<lambda>uid. map_option (FillPlayerResources uid) (FindPlayerRes room uid))
               (ord CPlayerRes (um_keys (dr_player_res room))))
      in CountSnapshot #
         SendToPlayers e routes SnapshotNtf (PlayerUids ord room) ntf (dr_server_tick room))"

definition send_spawn ::
  "env \<Rightarrow> (u64, GatewayRoute) umap \<Rightarrow> DungeonRoom \<Rightarrow> EntityType \<Rightarrow> EntityState \<Rightarrow> effect list" where
  "send_spawn e routes room type state =
     SendToPlayers e routes EntitySpawnNtf (PlayerUids (e_ord e) room)
       (EntitySpawnMsg (dr_room_id room) (dr_server_tick room) type
          (cd_entity_state (e_codec e) state))
       (dr_server_tick room)"

definition send_despawn ::
  "env \<Rightarrow> (u64, GatewayRoute) umap \<Rightarrow> DungeonRoom \<Rightarrow> EntityType \<Rightarrow> u64 \<Rightarrow> effect list" where
  "send_despawn e routes room type i =
     SendToPlayers e routes EntityDespawnNtf (PlayerUids (e_ord e) room)
       (EntityDespawnMsg (dr_room_id room) (dr_server_tick room) type i) (dr_server_tick room)"

text \<open>The three repeated fields of the delta message: what changed, without what was spawned.\<close>

definition delta_units :: "iter_order \<Rightarrow> DungeonRoom \<Rightarrow> UnitStateSnapshot list" where
  "delta_units ord room =
     map FillUnitSnapshot (List.map_filter (FindUnit room)
       (filter (\<lambda>i. i \<notin> set (dr_spawned room)) (ord CDirty (dr_dirty room))))"

definition delta_buildings :: "iter_order \<Rightarrow> DungeonRoom \<Rightarrow> BuildingStateSnapshot list" where
  "delta_buildings ord room =
     map FillBuildingSnapshot (List.map_filter (FindBuilding room)
       (filter (\<lambda>i. i \<notin> set (dr_building_spawned room)) (ord CBuildingDirty (dr_building_dirty room))))"

definition delta_resources :: "iter_order \<Rightarrow> DungeonRoom \<Rightarrow> PlayerResources list" where
  "delta_resources ord room =
     List.map_filter (\<lambda>uid. map_option (FillPlayerResources uid) (FindPlayerRes room uid))
       (ord CResourceDirty (dr_resource_dirty room))"

definition SendDelta :: "env \<Rightarrow> (u64, GatewayRoute) umap \<Rightarrow> DungeonRoom \<Rightarrow> effect list" where
  "SendDelta e routes room =
     (let ord = e_ord e;
          units = delta_units ord room;
          buildings = delta_buildings ord room;
          resources = delta_resources ord room
      in [CountDelta] @
         concat (map (\<lambda>u. send_spawn e routes room ENTITY_UNIT (UnitState (FillUnitSnapshot u)))
           (List.map_filter (FindUnit room) (dr_spawned room))) @
         concat (map (\<lambda>b. send_spawn e routes room ENTITY_BUILDING (BuildingState (FillBuildingSnapshot b)))
           (List.map_filter (FindBuilding room) (dr_building_spawned room))) @
         concat (map (\<lambda>f. send_spawn e routes room ENTITY_RESOURCE_FIELD (FieldState (FillFieldSnapshot f)))
           (List.map_filter (FindField room) (dr_field_spawned room))) @
         concat (map (\<lambda>d. send_spawn e routes room ENTITY_RESOURCE_DROP (DropState (FillDropSnapshot d)))
           (List.map_filter (FindDrop room) (dr_drop_spawned room))) @
         concat (map (send_despawn e routes room ENTITY_UNIT) (dr_despawned room)) @
         concat (map (send_despawn e routes room ENTITY_BUILDING) (dr_building_despawned room)) @
         concat (map (send_despawn e routes room ENTITY_RESOURCE_FIELD) (dr_field_despawned room)) @
         concat (map (send_despawn e routes room ENTITY_RESOURCE_DROP) (dr_drop_despawned room)) @
         (if units \<noteq> [] \<or> buildings \<noteq> [] \<or> resources \<noteq> []
          then SendToPlayers e routes WorldDeltaNtf (PlayerUids ord room)
                 (WorldDeltaMsg (dr_room_id room) (dr_server_tick room) units buildings resources)
                 (dr_server_tick room)
          else []))"

end
