(* ===== verification/LogicHandlers.thy ===== *)
theory LogicHandlers
  imports LogicShard
begin

text \<open>
  The handlers of a logic shard and its tick (\<^verbatim>\<open>LogicShard.cc\<close>), and the dispatch by message id
  (\<^verbatim>\<open>LogicRouter.cc\<close>).
\<close>

subsection \<open>Initial world\<close>

record InitialTeamLayout =
  il_barracks :: Vec3f
  il_unit_center :: Vec3f
  il_right :: Vec3f
  il_forward :: Vec3f

definition vec :: "f32 \<Rightarrow> f32 \<Rightarrow> f32 \<Rightarrow> Vec3f" where
  "vec x y z = \<lparr>vx = x, vy = y, vz = z\<rparr>"

definition InitialLayoutForTeam :: "u32 \<Rightarrow> InitialTeamLayout" where
  "InitialLayoutForTeam team =
     (if team = 0 then
        \<lparr>il_barracks = vec (lit 193 10) 0 (lit 4371 100), il_unit_center = vec (lit 31 1) 0 (lit 50 1),
         il_right = vec (lit 1 1) 0 0, il_forward = vec 0 0 (lit 1 1)\<rparr>
      else if team = 1 then
        \<lparr>il_barracks = vec (lit 11863121 100000) 0 (lit 133266647 1000000),
         il_unit_center = vec (lit 111708 1000) 0 (lit 128335 1000),
         il_right = vec (- lit 5801302 10000000) 0 (lit 814503 1000000),
         il_forward = vec (- lit 8144982 10000000) 0 (- lit 5801538 10000000)\<rparr>
      else
        let off = f32_of_nat (unat (team - 1)) * lit 30 1
        in \<lparr>il_barracks = vec (lit 11863121 100000 + off) 0 (lit 133266647 1000000),
            il_unit_center = vec (lit 111708 1000 + off) 0 (lit 128335 1000),
            il_right = vec (lit 1 1) 0 0, il_forward = vec 0 0 (- lit 1 1)\<rparr>)"

definition Offset :: "Vec3f \<Rightarrow> Vec3f \<Rightarrow> f32 \<Rightarrow> Vec3f" where
  "Offset origin direction distance =
     vec (vx origin + vx direction * distance) (vy origin + vy direction * distance)
       (vz origin + vz direction * distance)"

definition DirectionYaw :: "libm \<Rightarrow> Vec3f \<Rightarrow> f32" where
  "DirectionYaw m direction = atan2f m (vx direction) (vz direction)"

definition start_unit_pos :: "InitialTeamLayout \<Rightarrow> nat \<Rightarrow> Vec3f" where
  "start_unit_pos layout i =
     (let row = f32_of_nat (i div 3);
          column = f32_of_nat (i mod 3);
          pos = Offset (il_unit_center layout) (il_right layout)
                  ((column - lit 1 1) * kFormationColumnSpacing)
      in Offset pos (il_forward layout) ((row - lit 5 10) * kFormationRowSpacing))"

definition spawn_resource ::
  "InitialTeamLayout \<Rightarrow> u32 \<times> f32 \<times> f32 \<times> u32 \<Rightarrow> DungeonRoom \<Rightarrow> DungeonRoom" where
  "spawn_resource layout spec room =
     (case spec of (raw, right_distance, forward_distance, amount) \<Rightarrow>
        let pos = Offset (il_barracks layout) (il_right layout) right_distance;
            pos = Offset pos (il_forward layout) forward_distance
        in snd (SpawnResourceField raw pos amount room))"

definition start_resources :: "(u32 \<times> f32 \<times> f32 \<times> u32) list" where
  "start_resources =
     [(kRawBerries, - lit 11 1, lit 10 1, 450), (kRawBerries, - lit 14 1, lit 135 10, 450),
      (kRawBerries, - lit 8 1, lit 155 10, 450),
      (kRawWood, lit 16 1, lit 7 1, 600), (kRawWood, lit 19 1, lit 11 1, 600),
      (kRawWood, lit 22 1, lit 145 10, 600),
      (kRawGold, - lit 35 10, lit 20 1, 400), (kRawGold, lit 35 10, lit 215 10, 400)]"

definition spawn_player :: "libm \<Rightarrow> RoomPlayerState \<Rightarrow> DungeonRoom \<Rightarrow> DungeonRoom" where
  "spawn_player m player room =
     (let layout = InitialLayoutForTeam (p_team player);
          facing_yaw = DirectionYaw m (il_forward layout);
          room = snd (SpawnBuilding (p_uid player) (p_team player) kBuildingCrystal
                   (il_barracks layout) facing_yaw False room);
          room = fold (\<lambda>i room. snd (SpawnUnit (p_uid player) (p_team player) kUnitVillager
                                       (start_unit_pos layout i) kUnitHp kVillagerMoveSpeed facing_yaw room))
                   [0..<kStartUnitsPerPlayer] room
      in fold (spawn_resource layout) start_resources room)"

definition SpawnInitialUnits :: "iter_order \<Rightarrow> libm \<Rightarrow> DungeonRoom \<Rightarrow> DungeonRoom" where
  "SpawnInitialUnits ord m room = fold (spawn_player m) (Players ord room) room"

subsection \<open>Leaving a room\<close>

definition set_room :: "u64 \<Rightarrow> DungeonRoom \<Rightarrow> LogicShard \<Rightarrow> LogicShard" where
  "set_room room_id room s = s\<lparr>ls_rooms := um_adjust room_id (\<lambda>_. room) (ls_rooms s)\<rparr>"

text \<open>The common end of both ways out, after the player is gone from the table: an empty room is
  deleted, a running game is awarded to the first remaining player, otherwise the lobby is told.\<close>

definition after_leave ::
  "env \<Rightarrow> bool \<Rightarrow> u64 \<Rightarrow> DungeonRoom \<Rightarrow> LogicShard \<Rightarrow> effect list \<times> LogicShard" where
  "after_leave e was_active room_id room s =
     (if Empty room then ([], s\<lparr>ls_rooms := um_erase room_id (ls_rooms s)\<rparr>)
      else if was_active then
        let winner_team = (case Players (e_ord e) room of [] \<Rightarrow> 0 | p # _ \<Rightarrow> p_team p);
            room = SetGameOver True room
        in (BroadcastGameOver e (ls_uid_route s) room winner_team, set_room room_id room s)
      else (BroadcastRoomState e (ls_uid_route s) room, set_room room_id room s))"

definition LeaveRoomInternal :: "env \<Rightarrow> u64 \<Rightarrow> LogicShard \<Rightarrow> effect list \<times> LogicShard" where
  "LeaveRoomInternal e uid s =
     (case um_find (ls_uid_to_room s) uid of
        None \<Rightarrow> ([], s)
      | Some room_id \<Rightarrow>
          let s = s\<lparr>ls_uid_to_room := um_erase uid (ls_uid_to_room s)\<rparr>
          in case um_find (ls_rooms s) room_id of
               None \<Rightarrow> ([], s)
             | Some room \<Rightarrow>
                 after_leave e (dr_started room \<and> \<not> dr_game_over room) room_id
                   (snd (RemovePlayer uid room)) s)"

definition HandleClientDisconnected :: "env \<Rightarrow> LogicTask \<Rightarrow> LogicShard \<Rightarrow> effect list \<times> LogicShard"
  where
  "HandleClientDisconnected e task s =
     (case ParseProtoFromBytes (cd_disconnected (e_codec e)) (lt_body task) of
        None \<Rightarrow> ([], s)
      | Some uid \<Rightarrow>
          if uid = 0 then ([], s)
          else LeaveRoomInternal e uid (s\<lparr>ls_uid_route := um_erase uid (ls_uid_route s)\<rparr>))"

subsection \<open>Rooms\<close>

text \<open>\<^verbatim>\<open>ParseEnvelope\<close> followed by \<^verbatim>\<open>ParseInnerPayload\<close>.\<close>

definition parse_request ::
  "env \<Rightarrow> (byte list \<Rightarrow> 'a option) \<Rightarrow> LogicTask \<Rightarrow> (Envelope \<times> 'a) option" where
  "parse_request e parse task =
     (case ParseProtoFromBytes (cd_envelope (e_codec e)) (lt_body task) of
        None \<Rightarrow> None
      | Some envelope \<Rightarrow>
          map_option (Pair envelope) (ParseProtoFromBytes parse (ge_payload envelope)))"

definition ResolveRoomId :: "Envelope \<Rightarrow> (u64, u64) umap \<Rightarrow> u64 \<Rightarrow> u64" where
  "ResolveRoomId envelope uid_to_room uid =
     (if ge_room_id envelope \<noteq> 0 then ge_room_id envelope
      else case um_find uid_to_room uid of Some r \<Rightarrow> r | None \<Rightarrow> 0)"

definition requested_room :: "u64 \<Rightarrow> Envelope \<Rightarrow> LogicTask \<Rightarrow> LogicShard \<Rightarrow> u64" where
  "requested_room room_id envelope task s =
     (if room_id = 0 then ResolveRoomId envelope (ls_uid_to_room s) (lt_uid task) else room_id)"

definition NormalizeMaxPlayers :: "u32 \<Rightarrow> u32" where
  "NormalizeMaxPlayers max_players =
     (if max_players = 0 then kDefaultMaxPlayers else min max_players kMaxRoomPlayers)"

function to_string :: "nat \<Rightarrow> string" where
  "to_string n = (if n < 10 then [char_of (48 + n)] else to_string (n div 10) @ [char_of (48 + n mod 10)])"
  by pat_completeness auto
termination
  by (relation "measure id") auto

declare to_string.simps [simp del]

definition new_room_id :: "LogicShard \<Rightarrow> u64" where
  "new_room_id s = ucast (ls_shard_id s) + ls_shard_count s * ls_next_room_id s"

definition HandleCreateRoom :: "env \<Rightarrow> LogicTask \<Rightarrow> LogicShard \<Rightarrow> effect list \<times> LogicShard" where
  "HandleCreateRoom e task s =
     (case parse_request e (cd_create_room (e_codec e)) task of
        None \<Rightarrow>
          (SendToPlayer e (ls_uid_route s) CreateRoomRsp (lt_uid task)
             (CreateRoomRspMsg ERROR_INVALID_REQUEST 0 ''invalid CreateRoomReq'') 0, s)
      | Some (envelope, req) \<Rightarrow>
          let (left, s) = LeaveRoomInternal e (lt_uid task) s;
              room_id = new_room_id s;
              s = s\<lparr>ls_next_room_id := ls_next_room_id s + 1\<rparr>;
              room_name = (if cr_room_name req = [] then ''room-'' @ to_string (unat room_id)
                           else cr_room_name req);
              fresh = DungeonRoom_new room_id room_name (NormalizeMaxPlayers (cr_max_players req));
              s = s\<lparr>ls_rooms := um_emplace room_id fresh (ls_rooms s)\<rparr>;
              room = snd (AddPlayer (lt_uid task)
                       (case um_find (ls_rooms s) room_id of Some r \<Rightarrow> r | None \<Rightarrow> fresh));
              s = set_room room_id room s;
              s = s\<lparr>ls_uid_to_room := um_assign (lt_uid task) room_id (ls_uid_to_room s)\<rparr>
          in (left @
              SendToPlayer e (ls_uid_route s) CreateRoomRsp (lt_uid task)
                (CreateRoomRspMsg ERROR_NONE room_id []) 0 @
              BroadcastRoomState e (ls_uid_route s) room, s))"

text \<open>The implicit leave of a player who joins a room while in another one.\<close>

definition leave_other :: "env \<Rightarrow> u64 \<Rightarrow> u64 \<Rightarrow> LogicShard \<Rightarrow> effect list \<times> LogicShard" where
  "leave_other e uid room_id s =
     (case um_find (ls_uid_to_room s) uid of
        Some other \<Rightarrow> if other \<noteq> room_id then LeaveRoomInternal e uid s else ([], s)
      | None \<Rightarrow> ([], s))"

definition HandleJoinRoom :: "env \<Rightarrow> LogicTask \<Rightarrow> LogicShard \<Rightarrow> effect list \<times> LogicShard" where
  "HandleJoinRoom e task s =
     (case parse_request e (cd_join_room (e_codec e)) task of
        None \<Rightarrow>
          (SendToPlayer e (ls_uid_route s) JoinRoomRsp (lt_uid task)
             (JoinRoomRspMsg ERROR_INVALID_REQUEST 0 TEAM_PLAYER ''invalid JoinRoomReq'') 0, s)
      | Some (envelope, room_id) \<Rightarrow>
          let uid = lt_uid task;
              (left, s) = leave_other e uid room_id s
          in case um_find (ls_rooms s) room_id of
               None \<Rightarrow>
                 (left @ SendToPlayer e (ls_uid_route s) JoinRoomRsp uid
                    (JoinRoomRspMsg ERROR_ROOM_NOT_FOUND room_id TEAM_PLAYER ''room not found'') 0, s)
             | Some room \<Rightarrow>
                 (case AddPlayer uid room of
                    (None, _) \<Rightarrow>
                      (left @ SendToPlayer e (ls_uid_route s) JoinRoomRsp uid
                         (JoinRoomRspMsg ERROR_INVALID_REQUEST room_id TEAM_PLAYER ''room is full'') 0, s)
                  | (Some assigned_team, room) \<Rightarrow>
                      let s = set_room room_id room s;
                          s = s\<lparr>ls_uid_to_room := um_assign uid room_id (ls_uid_to_room s)\<rparr>
                      in (left @ SendToPlayer e (ls_uid_route s) JoinRoomRsp uid
                            (JoinRoomRspMsg ERROR_NONE room_id (ToProtoTeam assigned_team) []) 0 @
                          BroadcastRoomState e (ls_uid_route s) room, s)))"

definition HandleLeaveRoom :: "env \<Rightarrow> LogicTask \<Rightarrow> LogicShard \<Rightarrow> effect list \<times> LogicShard" where
  "HandleLeaveRoom e task s =
     (case parse_request e (cd_leave_room (e_codec e)) task of
        None \<Rightarrow> ([], s)
      | Some (envelope, req_room_id) \<Rightarrow>
          let room_id = requested_room req_room_id envelope task s
          in case um_find (ls_rooms s) room_id of
               None \<Rightarrow> ([], s)
             | Some room \<Rightarrow>
                 let was_active = (dr_started room \<and> \<not> dr_game_over room);
                     (removed, room') = RemovePlayer (lt_uid task) room
                 in if \<not> removed then ([], set_room room_id room' s)
                    else after_leave e was_active room_id room'
                           (s\<lparr>ls_uid_to_room := um_erase (lt_uid task) (ls_uid_to_room s)\<rparr>))"

subsection \<open>Starting a game\<close>

text \<open>The start of a full room whose players are all ready.\<close>

definition start_game :: "env \<Rightarrow> (u64, GatewayRoute) umap \<Rightarrow> DungeonRoom \<Rightarrow> effect list \<times> DungeonRoom"
  where
  "start_game e routes room =
     (let room = SetStarted True room;
          started = BroadcastGameStart e routes room;
          room = BeginBattle (SpawnInitialUnits (e_ord e) (e_libm e) room)
      in (started @ SendFullSnapshot e routes room, ClearFrameChanges room))"

definition HandlePlayerReady :: "env \<Rightarrow> LogicTask \<Rightarrow> LogicShard \<Rightarrow> effect list \<times> LogicShard" where
  "HandlePlayerReady e task s =
     (case parse_request e (cd_player_ready (e_codec e)) task of
        None \<Rightarrow> ([], s)
      | Some (envelope, req) \<Rightarrow>
          let room_id = requested_room (pr_room_id req) envelope task s
          in case um_find (ls_rooms s) room_id of
               None \<Rightarrow> ([], s)
             | Some room \<Rightarrow>
                 let (known, room) = SetReady (lt_uid task) (pr_ready req) room
                 in if \<not> known then ([], s)
                    else
                      let told = BroadcastRoomState e (ls_uid_route s) room;
                          (started, room) =
                            (if IsFull room \<and> AllReady room \<and> \<not> dr_started room
                             then start_game e (ls_uid_route s) room else ([], room))
                      in (told @ started, set_room room_id room s))"

definition HandleEnterBattle :: "env \<Rightarrow> LogicTask \<Rightarrow> LogicShard \<Rightarrow> effect list \<times> LogicShard" where
  "HandleEnterBattle e task s =
     (let reply = (\<lambda>msg. SendToPlayer e (ls_uid_route s) EnterBattleRsp (lt_uid task) msg 0)
      in case parse_request e (cd_enter_battle (e_codec e)) task of
           None \<Rightarrow> (reply (EnterBattleRspMsg ERROR_INVALID_REQUEST 0 0 ''invalid EnterBattleReq''), s)
         | Some (envelope, req_room_id) \<Rightarrow>
             let room_id = requested_room req_room_id envelope task s
             in case um_find (ls_rooms s) room_id of
                  None \<Rightarrow> (reply (EnterBattleRspMsg ERROR_ROOM_NOT_FOUND room_id 0 ''room not found''), s)
                | Some room \<Rightarrow>
                    if \<not> HasPlayer (lt_uid task) room
                    then (reply (EnterBattleRspMsg ERROR_NOT_IN_ROOM room_id 0 ''player is not in room''), s)
                    else (reply (EnterBattleRspMsg ERROR_NONE room_id (dr_server_tick room) []), s))"


subsection \<open>Commands\<close>

text \<open>
  The switch of \<^verbatim>\<open>HandlePlayerCommand\<close>: \<open>None\<close> for a message id that is not simulated, otherwise the
  parsed command, or nothing with the reason of the rejection.
\<close>

definition base_command :: "CommandType \<Rightarrow> u64 \<Rightarrow> u64 \<Rightarrow> u64 list \<Rightarrow> PendingCommand" where
  "base_command type uid seq ids =
     PendingCommand_default\<lparr>pc_type := type, pc_owner_uid := uid, pc_client_seq := seq,
       pc_unit_ids := ids\<rparr>"

definition move_command :: "u64 \<Rightarrow> MoveOrder \<Rightarrow> PendingCommand" where
  "move_command uid cmd =
     (base_command CmdMove uid 0 (mv_actor_unit_ids cmd))
       \<lparr>pc_path := mv_path cmd,
        pc_target := (if mv_path cmd \<noteq> [] then last (mv_path cmd)
                      else case mv_target_position cmd of None \<Rightarrow> Vec3f_default | Some p \<Rightarrow> p)\<rparr>"

definition attack_command :: "u64 \<Rightarrow> AttackOrder \<Rightarrow> PendingCommand" where
  "attack_command uid cmd =
     (base_command CmdAttack uid 0 (at_actor_unit_ids cmd))
       \<lparr>pc_target_entity := (case at_target cmd of None \<Rightarrow> 0 | Some i \<Rightarrow> i)\<rparr>"

definition target_command :: "CommandType \<Rightarrow> u64 \<Rightarrow> u64 \<Rightarrow> TargetOrder \<Rightarrow> PendingCommand" where
  "target_command type uid seq cmd =
     (base_command type uid seq (to_unit_ids cmd))\<lparr>pc_target_entity := to_target cmd\<rparr>"

definition build_command :: "u64 \<Rightarrow> u64 \<Rightarrow> BuildOrder \<Rightarrow> PendingCommand" where
  "build_command uid seq cmd =
     (base_command CmdBuild uid seq (bo_builder_unit_ids cmd))
       \<lparr>pc_aux_type := bo_building_type cmd,
        pc_target := (case bo_position cmd of None \<Rightarrow> Vec3f_default | Some p \<Rightarrow> p),
        pc_yaw := bo_yaw cmd\<rparr>"

definition train_command :: "u64 \<Rightarrow> u64 \<Rightarrow> TrainOrder \<Rightarrow> PendingCommand" where
  "train_command uid seq cmd =
     (base_command CmdTrain uid seq [])
       \<lparr>pc_target_entity := tr_producer_building_id cmd, pc_aux_type := tr_unit_type cmd\<rparr>"

definition parse_command ::
  "command_codec \<Rightarrow> MsgId \<Rightarrow> u64 \<Rightarrow> Envelope \<Rightarrow> (PendingCommand option \<times> string) option" where
  "parse_command c msg_id uid envelope =
     (let seq = ge_client_seq envelope;
          payload = ge_payload envelope
      in if msg_id = MoveCmd then
           Some (map_option (move_command uid) (ParseProtoFromBytes (cd_move c) payload),
                 ''invalid MoveCmd'')
         else if msg_id = StopCmd then
           Some (map_option (base_command CmdStop uid 0) (ParseProtoFromBytes (cd_stop c) payload),
                 ''invalid StopCmd'')
         else if msg_id = AttackCmd then
           Some (map_option (attack_command uid) (ParseProtoFromBytes (cd_attack c) payload),
                 ''invalid AttackCmd'')
         else if msg_id = HarvestCmd then
           Some (map_option (target_command CmdHarvest uid seq)
                   (ParseProtoFromBytes (cd_harvest c) payload), ''invalid HarvestCmd'')
         else if msg_id = StoreResourceCmd then
           Some (map_option (target_command CmdStore uid seq)
                   (ParseProtoFromBytes (cd_store c) payload), ''invalid StoreResourceCmd'')
         else if msg_id = PickupResourceCmd then
           Some (map_option (target_command CmdPickup uid seq)
                   (ParseProtoFromBytes (cd_pickup c) payload), ''invalid PickupResourceCmd'')
         else if msg_id = BuildCmd then
           Some (map_option (build_command uid seq) (ParseProtoFromBytes (cd_build c) payload),
                 ''invalid BuildCmd'')
         else if msg_id = ConstructCmd then
           Some (map_option (target_command CmdConstruct uid seq)
                   (ParseProtoFromBytes (cd_construct c) payload), ''invalid ConstructCmd'')
         else if msg_id = TrainUnitCmd then
           Some (map_option (train_command uid seq) (ParseProtoFromBytes (cd_train c) payload),
                 ''invalid TrainUnitCmd'')
         else None)"

definition HandlePlayerCommand :: "env \<Rightarrow> LogicTask \<Rightarrow> LogicShard \<Rightarrow> effect list \<times> LogicShard" where
  "HandlePlayerCommand e task s =
     (let uid = lt_uid task;
          reject = SendCommandRejected e (ls_uid_route s) uid
      in case ParseProtoFromBytes (cd_envelope (e_codec e)) (lt_body task) of
           None \<Rightarrow> (reject 0 (lt_seq task) ERROR_INVALID_REQUEST ''invalid GateToGameEnvelope'', s)
         | Some envelope \<Rightarrow>
             let room_id = ResolveRoomId envelope (ls_uid_to_room s) uid;
                 seq = ge_client_seq envelope
             in if room_id = 0 then (reject 0 seq ERROR_NOT_IN_ROOM ''player is not in room'', s)
                else case um_find (ls_rooms s) room_id of
                  None \<Rightarrow> (reject room_id seq ERROR_ROOM_NOT_FOUND ''room not found'', s)
                | Some room \<Rightarrow>
                    if \<not> HasPlayer uid room
                    then (reject room_id seq ERROR_NOT_IN_ROOM ''player is not in room'', s)
                    else if ge_payload envelope = []
                    then (reject room_id seq ERROR_INVALID_REQUEST ''empty command payload'', s)
                    else case parse_command (cd_commands (e_codec e)) (lt_msg_id task) uid envelope of
                      None \<Rightarrow> ([], s)
                    | Some (None, reason) \<Rightarrow> (reject room_id seq ERROR_INVALID_REQUEST reason, s)
                    | Some (Some cmd, _) \<Rightarrow> ([], set_room room_id (EnqueueCommand cmd room) s))"

subsection \<open>Dispatch\<close>

definition Dispatch :: "env \<Rightarrow> LogicTask \<Rightarrow> LogicShard \<Rightarrow> effect list \<times> LogicShard" where
  "Dispatch e task s =
     (let i = lt_msg_id task
      in if i = CreateRoomReq then HandleCreateRoom e task s
         else if i = JoinRoomReq then HandleJoinRoom e task s
         else if i = LeaveRoomReq then HandleLeaveRoom e task s
         else if i = PlayerReadyReq then HandlePlayerReady e task s
         else if i = EnterBattleReq then HandleEnterBattle e task s
         else if i = ClientDisconnectedNtf then HandleClientDisconnected e task s
         else if i \<in> {MoveCmd, AttackCmd, SkillCmd, HarvestCmd, StoreResourceCmd, PickupResourceCmd,
                      BuildCmd, ConstructCmd, TrainUnitCmd, StopCmd}
         then HandlePlayerCommand e task s
         else ([], s))"

definition handleTask :: "env \<Rightarrow> LogicTask \<Rightarrow> LogicShard \<Rightarrow> effect list \<times> LogicShard" where
  "handleTask e task s =
     (let s = (if lt_uid task \<noteq> 0
               then s\<lparr>ls_uid_route := um_assign (lt_uid task) (lt_origin task) (ls_uid_route s)\<rparr>
               else s);
          (effects, s) = Dispatch e task s
      in (CountCommand # effects, s))"

subsection \<open>The tick\<close>

text \<open>The body of the room loop, for a room that is running.\<close>

definition tick_running ::
  "env \<Rightarrow> (u64, GatewayRoute) umap \<Rightarrow> u64 \<Rightarrow> DungeonRoom \<Rightarrow> effect list \<times> DungeonRoom" where
  "tick_running e routes room_id room =
     (let room = ApplyPending (e_libm e) room;
          (rejected, room) = TakeRejected room;
          refusals = concat (map (\<lambda>rej. SendCommandRejected e routes (rj_uid rej) room_id
                       (rj_client_seq rej) (rj_code rej) ''command rejected'') rejected);
          room = Step (e_ord e) (e_libm e) kTickSeconds room;
          (server_tick, room) = NextServerTick room;
          sync = (if server_tick mod kFullSnapshotInterval = 0 then SendFullSnapshot e routes room
                  else SendDelta e routes room);
          room = ClearFrameChanges room
      in case CheckGameOver room of
           None \<Rightarrow> (refusals @ sync, room)
         | Some winner_team \<Rightarrow>
             let room = SetGameOver True room
             in (refusals @ sync @ BroadcastGameOver e routes room winner_team, room))"

definition running :: "DungeonRoom \<Rightarrow> bool" where
  "running room \<longleftrightarrow> dr_started room \<and> \<not> dr_game_over room"

definition tick_room :: "env \<Rightarrow> u64 \<Rightarrow> effect list \<times> LogicShard \<Rightarrow> effect list \<times> LogicShard" where
  "tick_room e room_id acc =
     (let (effects, s) = acc
      in case um_find (ls_rooms s) room_id of
           None \<Rightarrow> (effects, s)
         | Some room \<Rightarrow>
             if \<not> running room then (effects, s)
             else
               let (sent, room) = tick_running e (ls_uid_route s) room_id room
               in (effects @ sent, set_room room_id room s))"

text \<open>\<^verbatim>\<open>TickRooms\<close>; \<open>tick_us\<close> is the measured duration. The gauges count the rooms that were running and
  their units, both before the tick.\<close>

definition TickRooms :: "env \<Rightarrow> u32 \<Rightarrow> LogicShard \<Rightarrow> effect list \<times> LogicShard" where
  "TickRooms e tick_us s =
     (let active = filter running (map snd (ls_rooms s));
          (effects, t) = fold (tick_room e) (e_ord e CRooms (um_keys (ls_rooms s))) ([], s)
      in (effects @ [RecordTick tick_us,
            ShardGauges (ls_shard_id s) (length active)
              (sum_list (map (\<lambda>r. length (um_keys (dr_units r))) active))], t))"

text \<open>The deadline of the next tick, in any unit of time: \<open>interval\<close> after the last one, or after now
  when that moment has passed.\<close>

definition next_deadline :: "int \<Rightarrow> int \<Rightarrow> int \<Rightarrow> int" where
  "next_deadline interval deadline now =
     (let d = deadline + interval in if d < now then now + interval else d)"

end
