(* ===== verification/RoomFrame.thy ===== *)
theory RoomFrame
  imports RoomInvariants
begin

text \<open>
  What commands and simulation leave alone: the lobby part of a room. A frame changes neither the
  players and their teams nor the room's name, capacity, tick counter and game-over flag; nobody
  gains or loses a ledger.
\<close>

definition same_lobby :: "DungeonRoom \<Rightarrow> DungeonRoom \<Rightarrow> bool" where
  "same_lobby r s \<longleftrightarrow>
     dr_room_id s = dr_room_id r \<and> dr_room_name s = dr_room_name r \<and>
     dr_max_players s = dr_max_players r \<and> dr_started s = dr_started r \<and>
     dr_server_tick s = dr_server_tick r \<and> dr_next_command_id s = dr_next_command_id r \<and>
     dr_players s = dr_players r \<and> um_keys (dr_player_res s) = um_keys (dr_player_res r) \<and>
     dr_initial_team_count s = dr_initial_team_count r \<and>
     dr_initial_crystal_team_count s = dr_initial_crystal_team_count r \<and>
     dr_battle_begun s = dr_battle_begun r \<and> dr_game_over s = dr_game_over r"

lemma same_lobby_act: "act dt u r u' r' \<Longrightarrow> same_lobby (write_back k u r) (write_back k u' r')"
  by (induction rule: act.induct)
     (auto simp: same_lobby_def write_back_def mark_dirty_def SpawnResourceDrop_def Let_def hit_unit_def
       hit_building_def mark_building_dirty_def deposit_def mark_resource_dirty_def split: option.split)

interpretation lobby: effect_relation same_lobby dt for dt
proof
  show "keyed r \<Longrightarrow> held k old u r \<Longrightarrow> u_id u = k \<Longrightarrow> act dt u r u' r' \<Longrightarrow>
      same_lobby (write_back k u r) (write_back k u' r')" for r k old u u' r'
    by (rule same_lobby_act)
qed (auto simp: same_lobby_def pay_cost_def SpawnBuilding_def set_queue_def train_spawn_def SpawnUnit_def
    RemoveDead_def Reject_def mark_building_dirty_def mark_resource_dirty_def Let_def)

text \<open>The lists a frame consumes or leaves empty.\<close>

lemma ApplyPending_pending [simp]: "dr_pending (ApplyPending m r) = []"
  by (simp add: ApplyPending_def)


end
