(* ===== verification/ShardInvariants.thy ===== *)
theory ShardInvariants
  imports LogicHandlers RoomFrame
begin

text \<open>
  The invariant of a logic shard: its rooms are well-formed, within capacity and never empty, and
  the index from players to rooms is exact, so a player is in at most one room of the shard. Every
  handler and the tick keep it.
\<close>

subsection \<open>The lobby operations\<close>

lemma um_keys_empty: "um_keys m = [] \<longleftrightarrow> m = []"
  by (simp add: um_keys_def)

lemma HasPlayer_keys: "HasPlayer uid r \<longleftrightarrow> uid \<in> set (um_keys (dr_players r))"
  by (simp add: HasPlayer_def um_find_None_iff)

lemma HasPlayer_AddPlayer:
  "HasPlayer v (snd (AddPlayer uid r)) \<longleftrightarrow>
     HasPlayer v r \<or> (v = uid \<and> fst (AddPlayer uid r) \<noteq> None)"
  by (auto simp: AddPlayer_def HasPlayer_def Let_def split: option.split if_splits)

lemma HasPlayer_RemovePlayer: "HasPlayer v (snd (RemovePlayer uid r)) \<longleftrightarrow> v \<noteq> uid \<and> HasPlayer v r"
  by (auto simp: RemovePlayer_def HasPlayer_def)

definition room_ok :: "u64 \<Rightarrow> DungeonRoom \<Rightarrow> bool" where
  "room_ok room_id r \<longleftrightarrow>
     dr_room_id r = room_id \<and> keyed r \<and> um_keys (dr_players r) \<noteq> [] \<and>
     length (um_keys (dr_players r)) \<le> unat (dr_max_players r) \<and>
     set (um_keys (dr_player_res r)) = set (um_keys (dr_players r))"

lemma AddPlayer_room_ok:
  assumes "room_ok room_id r"
  shows "room_ok room_id (snd (AddPlayer uid r))"
proof (cases "um_find (dr_players r) uid = None \<and> \<not> IsFull r")
  case True
  have ok: "um_ok (dr_players r)" using assms by (simp add: room_ok_def keyed_def keyed_by_def)
  have res: "um_find (dr_player_res r) uid = None"
    using True assms by (simp add: room_ok_def um_find_None_iff)
  show ?thesis
    using True assms um.size_emplace_fresh [OF ok] res
    by (auto simp: AddPlayer_def room_ok_def keyed_def IsFull_def Let_def um_keys_emplace)
next
  case False
  then show ?thesis using assms by (auto simp: AddPlayer_def split: option.split)
qed

lemma AddPlayer_new_room_ok:
  assumes "0 < max_players"
  shows "room_ok room_id (snd (AddPlayer uid (DungeonRoom_new room_id name max_players)))"
    and "fst (AddPlayer uid (DungeonRoom_new room_id name max_players)) = Some 0"
proof -
  have "0 < unat max_players" using assms by (simp add: word_less_nat_alt)
  then show "room_ok room_id (snd (AddPlayer uid (DungeonRoom_new room_id name max_players)))"
    and "fst (AddPlayer uid (DungeonRoom_new room_id name max_players)) = Some 0"
    using assms
    by (auto simp: AddPlayer_def DungeonRoom_new_def room_ok_def keyed_def IsFull_def um_emplace_def
        keyed_by_def um_ok_def um_keys_def)
qed

lemma NormalizeMaxPlayers_pos: "0 < NormalizeMaxPlayers n"
  by (auto simp: NormalizeMaxPlayers_def kDefaultMaxPlayers_def kMaxRoomPlayers_def min_def
      word_less_nat_alt unat_gt_0)

lemma RemovePlayer_room_ok:
  assumes "room_ok room_id r" and "\<not> Empty (snd (RemovePlayer uid r))"
  shows "room_ok room_id (snd (RemovePlayer uid r))"
proof -
  have ok: "um_ok (dr_players r)" using assms by (simp add: room_ok_def keyed_def keyed_by_def)
  have "length (um_keys (um_erase uid (dr_players r))) \<le> length (um_keys (dr_players r))"
    using um.size_erase [OF ok, of uid] by auto
  moreover have "um_keys (um_erase uid (dr_players r)) \<noteq> []"
    using assms(2) by (simp add: Empty_def RemovePlayer_def um_keys_empty)
  ultimately show ?thesis
    using assms(1) by (auto simp: RemovePlayer_def room_ok_def keyed_def um_keys_erase
        intro: le_trans [OF length_filter_le])
qed

text \<open>An operation that keeps the players, the capacity and the well-formedness keeps \<open>room_ok\<close>.\<close>

definition same_members :: "DungeonRoom \<Rightarrow> DungeonRoom \<Rightarrow> bool" where
  "same_members r s \<longleftrightarrow>
     dr_room_id s = dr_room_id r \<and> dr_max_players s = dr_max_players r \<and>
     um_keys (dr_players s) = um_keys (dr_players r) \<and>
     um_keys (dr_player_res s) = um_keys (dr_player_res r) \<and> (keyed r \<longrightarrow> keyed s)"

lemma same_members_refl [simp]: "same_members r r"
  by (simp add: same_members_def)

lemma same_members_trans: "same_members r s \<Longrightarrow> same_members s t \<Longrightarrow> same_members r t"
  by (simp add: same_members_def)

lemma same_members_room_ok: "same_members r s \<Longrightarrow> room_ok i r \<Longrightarrow> room_ok i s"
  by (simp add: same_members_def room_ok_def)

lemma same_members_HasPlayer: "same_members r s \<Longrightarrow> HasPlayer v s = HasPlayer v r"
  by (simp add: same_members_def HasPlayer_keys)

lemma same_members_simple:
  "same_members r (SetGameOver b r)" "same_members r (SetStarted b r)"
  "same_members r (ClearFrameChanges r)" "same_members r (EnqueueCommand cmd r)"
  "same_members r (snd (TakeRejected r))" "same_members r (snd (NextServerTick r))"
  "same_members r (snd (SetReady uid b r))"
  by (auto simp: same_members_def SetGameOver_def SetStarted_def ClearFrameChanges_def
      EnqueueCommand_def TakeRejected_def NextServerTick_def SetReady_def keyed_def split: option.split)

lemma same_members_BeginBattle: "same_members r (BeginBattle r)"
proof -
  have "um_keys (map (\<lambda>(uid, res). (uid, f res)) m) = um_keys m" 
    for f :: "PlayerRes \<Rightarrow> PlayerRes" and m :: "(u64, PlayerRes) umap"
    by (induction m) (auto simp: um_keys_def)
  then show ?thesis by (simp add: same_members_def BeginBattle_def keyed_def um_ok_def)
qed

lemma same_members_spawn:
  "same_members r (snd (SpawnUnit uid team ty pos hp speed yaw r))"
  "same_members r (snd (SpawnBuilding uid team ty pos yaw con r))"
  "same_members r (snd (SpawnResourceField raw pos n r))"
  by (auto simp: same_members_def SpawnUnit_def SpawnBuilding_def SpawnResourceField_def keyed_def Let_def)

lemma same_members_fold:
  "(\<And>x t. x \<in> set xs \<Longrightarrow> same_members t (f x t)) \<Longrightarrow> same_members r (fold f xs r)"
  by (rule fold_invariant) (auto intro: same_members_trans)

lemma same_members_spawn_player: "same_members r (spawn_player m player r)"
proof -
  have field: "same_members t (spawn_resource layout spec t)" for layout spec t
    by (cases spec) (simp add: spawn_resource_def Let_def same_members_spawn)
  show ?thesis
    unfolding spawn_player_def Let_def
    by (rule same_members_trans [OF same_members_trans [OF same_members_spawn(2)
          same_members_fold] same_members_fold]) (rule same_members_spawn(1) field)+
qed

lemma same_members_SpawnInitialUnits: "same_members r (SpawnInitialUnits ord m r)"
  unfolding SpawnInitialUnits_def by (intro same_members_fold same_members_spawn_player)

lemma same_members_frame:
  assumes "keyed r" and "iter_ok ord"
  shows "same_members r (ApplyPending m r)" and "same_members r (Step ord m dt r)"
  using lobby.commands [OF assms(1)] lobby.simulation [OF assms] keyed_ApplyPending keyed_Step assms(2)
  by (simp_all add: same_members_def same_lobby_def)

lemma same_members_start_game: "same_members r (snd (start_game e routes r))"
proof -
  have "same_members (SetStarted True r) (BeginBattle (SpawnInitialUnits ord m (SetStarted True r)))"
    for ord m
    by (rule same_members_trans [OF same_members_SpawnInitialUnits same_members_BeginBattle])
  then show ?thesis
    unfolding start_game_def Let_def snd_conv
    by (rule same_members_trans [OF same_members_trans [OF same_members_simple(2)] same_members_simple(3)])
qed

subsection \<open>The shard\<close>

definition shard_ok :: "LogicShard \<Rightarrow> bool" where
  "shard_ok s \<longleftrightarrow>
     um_ok (ls_rooms s) \<and> um_ok (ls_uid_to_room s) \<and>
     (\<forall>room_id room. um_find (ls_rooms s) room_id = Some room \<longrightarrow> room_ok room_id room) \<and>
     (\<forall>uid room_id. um_find (ls_uid_to_room s) uid = Some room_id \<longleftrightarrow>
        (\<exists>room. um_find (ls_rooms s) room_id = Some room \<and> HasPlayer uid room))"

lemma shard_okD:
  assumes "shard_ok s"
  shows "um_ok (ls_rooms s)" and "um_ok (ls_uid_to_room s)"
    and "um_find (ls_rooms s) room_id = Some room \<Longrightarrow> room_ok room_id room"
    and "um_find (ls_rooms s) room_id = Some room \<Longrightarrow> HasPlayer uid room \<Longrightarrow>
      um_find (ls_uid_to_room s) uid = Some room_id"
    and "um_find (ls_uid_to_room s) uid = Some room_id \<Longrightarrow>
      \<exists>room. um_find (ls_rooms s) room_id = Some room \<and> HasPlayer uid room"
  using assms unfolding shard_ok_def by blast+

lemma shard_ok_set_room:
  assumes "shard_ok s" and "um_find (ls_rooms s) room_id = Some room" and "same_members room room'"
  shows "shard_ok (set_room room_id room' s)"
  using assms same_members_room_ok [OF assms(3)] same_members_HasPlayer [OF assms(3)]
  unfolding shard_ok_def set_room_def by auto

text \<open>A player leaves a room: the index entry and the seat go together, and an empty room with them.\<close>

lemma shard_ok_remove:
  assumes "shard_ok s" and "um_find (ls_rooms s) room_id = Some room" and "HasPlayer uid room"
    and s': "s' = s\<lparr>ls_uid_to_room := um_erase uid (ls_uid_to_room s)\<rparr>"
    and room': "room' = snd (RemovePlayer uid room)"
  shows "Empty room' \<Longrightarrow> shard_ok (s'\<lparr>ls_rooms := um_erase room_id (ls_rooms s')\<rparr>)"
    and "\<not> Empty room' \<Longrightarrow> same_members room' room'' \<Longrightarrow> shard_ok (set_room room_id room'' s')"
proof -
  have idx: "um_find (ls_uid_to_room s) uid = Some room_id"
    using assms(2,3) shard_okD(4) [OF assms(1)] by blast
  have hp: "HasPlayer v room' \<longleftrightarrow> v \<noteq> uid \<and> HasPlayer v room" for v
    by (simp add: room' HasPlayer_RemovePlayer)
  have other: "\<not> HasPlayer uid rm" if "um_find (ls_rooms s) i = Some rm" "i \<noteq> room_id" for i rm
    using that idx shard_okD(4) [OF assms(1)] by fastforce
  show "shard_ok (s'\<lparr>ls_rooms := um_erase room_id (ls_rooms s')\<rparr>)" if "Empty room'"
  proof -
    have "\<not> HasPlayer v room'" for v using that by (simp add: Empty_def HasPlayer_def)
    then have "HasPlayer v room \<longleftrightarrow> v = uid" for v using hp assms(3) by blast
    then show ?thesis
      using assms(1,2) other idx unfolding shard_ok_def s' by auto
  qed
  show "shard_ok (set_room room_id room'' s')" if "\<not> Empty room'" "same_members room' room''"
  proof -
    have "room_ok room_id room''"
      using RemovePlayer_room_ok shard_okD(3) [OF assms(1,2)] that same_members_room_ok room' by blast
    moreover have "HasPlayer v room'' \<longleftrightarrow> v \<noteq> uid \<and> HasPlayer v room" for v
      using hp same_members_HasPlayer that(2) by blast
    ultimately show ?thesis
      using assms(1,2) other idx unfolding shard_ok_def s' set_room_def by auto
  qed
qed

lemma shard_ok_after_leave:
  assumes "shard_ok s" and "um_find (ls_rooms s) room_id = Some room" and "HasPlayer uid room"
  shows "shard_ok (snd (after_leave e active room_id (snd (RemovePlayer uid room))
    (s\<lparr>ls_uid_to_room := um_erase uid (ls_uid_to_room s)\<rparr>)))"
  using shard_ok_remove [OF assms refl refl] same_members_simple(1)
  by (auto simp: after_leave_def Let_def)

lemma LeaveRoomInternal_spec:
  assumes "shard_ok s"
  shows "shard_ok (snd (LeaveRoomInternal e uid s))"
    and "um_find (ls_uid_to_room (snd (LeaveRoomInternal e uid s))) v =
      (if v = uid then None else um_find (ls_uid_to_room s) v)"
    and "um_find (ls_rooms s) i = None \<Longrightarrow> um_find (ls_rooms (snd (LeaveRoomInternal e uid s))) i = None"
    and "ls_next_room_id (snd (LeaveRoomInternal e uid s)) = ls_next_room_id s"
    and "ls_shard_id (snd (LeaveRoomInternal e uid s)) = ls_shard_id s"
    and "ls_shard_count (snd (LeaveRoomInternal e uid s)) = ls_shard_count s"
proof -
  show "shard_ok (snd (LeaveRoomInternal e uid s))"
  proof (cases "um_find (ls_uid_to_room s) uid")
    case None
    then show ?thesis using assms by (simp add: LeaveRoomInternal_def)
  next
    case (Some room_id)
    then obtain room where r: "um_find (ls_rooms s) room_id = Some room" "HasPlayer uid room"
      using shard_okD(5) [OF assms] by blast
    then show ?thesis
      using Some shard_ok_after_leave [OF assms r] by (simp add: LeaveRoomInternal_def Let_def)
  qed
qed (auto simp: LeaveRoomInternal_def after_leave_def set_room_def Let_def split: option.split)

lemma shard_ok_route: "shard_ok (s\<lparr>ls_uid_route := rs\<rparr>) = shard_ok s"
  by (simp add: shard_ok_def)

lemma shard_ok_next: "shard_ok (s\<lparr>ls_next_room_id := n\<rparr>) = shard_ok s"
  by (simp add: shard_ok_def)

text \<open>A seat in an existing room for a player who is in none.\<close>

lemma shard_ok_seat:
  assumes "shard_ok s" and "um_find (ls_uid_to_room s) uid = None"
    and r: "um_find (ls_rooms s) room_id = Some room" and "fst (AddPlayer uid room) \<noteq> None"
  shows "shard_ok ((set_room room_id (snd (AddPlayer uid room)) s)
    \<lparr>ls_uid_to_room := um_assign uid room_id (ls_uid_to_room s)\<rparr>)"
proof -
  have "room_ok room_id (snd (AddPlayer uid room))"
    using AddPlayer_room_ok shard_okD(3) [OF assms(1) r] by blast
  moreover have "HasPlayer v (snd (AddPlayer uid room)) \<longleftrightarrow> HasPlayer v room \<or> v = uid" for v
    using assms(4) by (auto simp: HasPlayer_AddPlayer)
  moreover have "\<not> HasPlayer uid rm" if "um_find (ls_rooms s) i = Some rm" for i rm
    using that assms(2) shard_okD(4) [OF assms(1)] by fastforce
  ultimately show ?thesis using assms(1) r unfolding shard_ok_def set_room_def by auto
qed

text \<open>Only the lookups matter.\<close>

lemma shard_ok_cong:
  assumes "shard_ok s" and "um_ok (ls_rooms t)" and "um_ok (ls_uid_to_room t)"
    and "\<And>i. um_find (ls_rooms t) i = um_find (ls_rooms s) i"
    and "\<And>v. um_find (ls_uid_to_room t) v = um_find (ls_uid_to_room s) v"
  shows "shard_ok t"
  using assms(1-3) unfolding shard_ok_def assms(4,5) by blast

text \<open>Joining again the room one is already in changes nothing.\<close>

lemma shard_ok_rejoin:
  assumes "shard_ok s" and "um_find (ls_uid_to_room s) uid = Some room_id"
    and r: "um_find (ls_rooms s) room_id = Some room"
  shows "AddPlayer uid room = (Some (TeamOf uid room), room)"
    and "shard_ok ((set_room room_id room s)\<lparr>ls_uid_to_room := um_assign uid room_id (ls_uid_to_room s)\<rparr>)"
proof -
  have "HasPlayer uid room" using assms shard_okD(5) [OF assms(1,2)] by auto
  then show "AddPlayer uid room = (Some (TeamOf uid room), room)"
    by (auto simp: AddPlayer_def HasPlayer_def TeamOf_def)
  show "shard_ok ((set_room room_id room s)\<lparr>ls_uid_to_room := um_assign uid room_id (ls_uid_to_room s)\<rparr>)"
    using shard_okD(1,2) [OF assms(1)] assms(2,3)
    by (intro shard_ok_cong [OF assms(1)]) (auto simp: set_room_def)
qed

lemma leave_other_spec:
  assumes "shard_ok s"
  shows "shard_ok (snd (leave_other e uid room_id s))"
    and "um_find (ls_uid_to_room (snd (leave_other e uid room_id s))) uid \<in> {None, Some room_id}"
  using LeaveRoomInternal_spec(1,2) [OF assms] assms
  by (auto simp: leave_other_def split: option.split)

lemma shard_ok_join:
  assumes "shard_ok s" and "um_find (ls_uid_to_room s) uid \<in> {None, Some room_id}"
    and "um_find (ls_rooms s) room_id = Some room" and "AddPlayer uid room = (Some t, room')"
  shows "shard_ok ((set_room room_id room' s)\<lparr>ls_uid_to_room := um_assign uid room_id (ls_uid_to_room s)\<rparr>)"
proof (cases "um_find (ls_uid_to_room s) uid")
  case None
  then show ?thesis using shard_ok_seat [OF assms(1) _ assms(3), of uid] assms(4) by simp
next
  case (Some i)
  then have "um_find (ls_uid_to_room s) uid = Some room_id" using assms(2) by simp
  then show ?thesis using shard_ok_rejoin [OF assms(1) _ assms(3), of uid] assms(4) by simp
qed

lemma HandleJoinRoom_shard_ok:
  assumes "shard_ok s"
  shows "shard_ok (snd (HandleJoinRoom e task s))"
proof (cases "parse_request e (cd_join_room (e_codec e)) task")
  case None
  then show ?thesis using assms by (simp add: HandleJoinRoom_def)
next
  case (Some req)
  obtain envelope room_id where req: "req = (envelope, room_id)" by (cases req)
  obtain left t where l: "leave_other e (lt_uid task) room_id s = (left, t)" by fastforce
  have ok: "shard_ok t" and idx: "um_find (ls_uid_to_room t) (lt_uid task) \<in> {None, Some room_id}"
    using leave_other_spec [OF assms, of e "lt_uid task" room_id] l by auto
  show ?thesis
    using shard_ok_join [OF ok idx] ok
    by (auto simp: HandleJoinRoom_def Some req l Let_def set_room_def split: option.split prod.split)
qed

text \<open>Creating a room needs a fresh identifier.\<close>

lemma shard_ok_create:
  assumes "shard_ok s" and none: "um_find (ls_rooms s) i = None"
    and out: "um_find (ls_uid_to_room s) uid = None"
    and ok: "room_ok i room" and one: "\<And>v. HasPlayer v room \<longleftrightarrow> v = uid"
  shows "shard_ok (s\<lparr>ls_rooms := um_adjust i (\<lambda>_. room) (um_emplace i old (ls_rooms s)),
    ls_uid_to_room := um_assign uid i (ls_uid_to_room s)\<rparr>)"
proof -
  have "\<not> HasPlayer uid rm" if "um_find (ls_rooms s) j = Some rm" for j rm
    using that out shard_okD(4) [OF assms(1)] by fastforce
  then show ?thesis using assms unfolding shard_ok_def by auto
qed

lemma HandleCreateRoom_shard_ok:
  assumes "shard_ok s" and fresh: "um_find (ls_rooms s) (new_room_id s) = None"
  shows "shard_ok (snd (HandleCreateRoom e task s))"
proof (cases "parse_request e (cd_create_room (e_codec e)) task")
  case None
  then show ?thesis using assms by (simp add: HandleCreateRoom_def)
next
  case (Some req)
  obtain envelope cr where req: "req = (envelope, cr)" by (cases req)
  obtain left t where l: "LeaveRoomInternal e (lt_uid task) s = (left, t)" by fastforce
  note spec = LeaveRoomInternal_spec [OF assms(1), where e = e and uid = "lt_uid task", unfolded l snd_conv]
  have i: "new_room_id t = new_room_id s" using spec(4-6) by (simp add: new_room_id_def)
  have none: "um_find (ls_rooms t) (new_room_id s) = None" using spec(3) fresh by blast
  have out: "um_find (ls_uid_to_room t) (lt_uid task) = None" using spec(2) by simp
  define new where "new name n = DungeonRoom_new (new_room_id s) name (NormalizeMaxPlayers n)" for name n
  have ok: "room_ok (new_room_id s) (snd (AddPlayer (lt_uid task) (new name n)))" for name n
    unfolding new_def by (rule AddPlayer_new_room_ok) (rule NormalizeMaxPlayers_pos)
  have one: "HasPlayer v (snd (AddPlayer (lt_uid task) (new name n))) \<longleftrightarrow> v = lt_uid task" for v name n
    using AddPlayer_new_room_ok(2) [OF NormalizeMaxPlayers_pos, of "lt_uid task" "new_room_id s" name n]
    by (auto simp: HasPlayer_AddPlayer new_def) (simp add: HasPlayer_def DungeonRoom_new_def)
  have "shard_ok (t\<lparr>ls_next_room_id := k\<rparr>)" for k using spec(1) by (simp add: shard_ok_next)
  from shard_ok_create [OF this _ _ ok one] show ?thesis
    using none out
    by (simp add: HandleCreateRoom_def Some req l Let_def set_room_def i new_def)
qed

text \<open>The other handlers.\<close>

lemma HandleLeaveRoom_shard_ok:
  assumes "shard_ok s"
  shows "shard_ok (snd (HandleLeaveRoom e task s))"
proof (cases "parse_request e (cd_leave_room (e_codec e)) task")
  case None
  then show ?thesis using assms by (simp add: HandleLeaveRoom_def)
next
  case (Some req)
  obtain envelope i where req: "req = (envelope, i)" by (cases req)
  let ?id = "requested_room i envelope task s"
  show ?thesis
  proof (cases "um_find (ls_rooms s) ?id")
    case None
    then show ?thesis using assms Some req by (simp add: HandleLeaveRoom_def Let_def)
  next
    case r: (Some room)
    show ?thesis
    proof (cases "HasPlayer (lt_uid task) room")
      case True
      then show ?thesis
        using Some req r shard_ok_after_leave [OF assms r True]
        by (simp add: HandleLeaveRoom_def Let_def HasPlayer_def RemovePlayer_def)
    next
      case False
      have "um_find (dr_player_res room) (lt_uid task) = None"
        using False shard_okD(3) [OF assms r] by (simp add: room_ok_def um_find_None_iff HasPlayer_keys)
      then have "same_members room (snd (RemovePlayer (lt_uid task) room))"
        using False
        by (auto simp: same_members_def RemovePlayer_def HasPlayer_def um_keys_erase um_find_None_iff
            keyed_def filter_id_conv)
      then show ?thesis
        using Some req r False shard_ok_set_room [OF assms r]
        by (simp add: HandleLeaveRoom_def Let_def HasPlayer_def RemovePlayer_def)
    qed
  qed
qed

lemma HandlePlayerReady_shard_ok:
  assumes "shard_ok s"
  shows "shard_ok (snd (HandlePlayerReady e task s))"
proof -
  have go: "same_members r (snd (if b then start_game e rs (snd (SetReady uid x r)) else ([], snd (SetReady uid x r))))"
    for b rs uid x r
    using same_members_trans [OF same_members_simple(7) same_members_start_game] same_members_simple(7)
    by simp
  show ?thesis
    using assms go shard_ok_set_room [OF assms]
    by (auto simp: HandlePlayerReady_def Let_def split_beta split: option.split)
qed

lemma HandlePlayerCommand_shard_ok: "shard_ok s \<Longrightarrow> shard_ok (snd (HandlePlayerCommand e task s))"
  using shard_ok_set_room same_members_simple(4)
  by (auto simp: HandlePlayerCommand_def Let_def split: option.split)

lemma HandleClientDisconnected_shard_ok:
  "shard_ok s \<Longrightarrow> shard_ok (snd (HandleClientDisconnected e task s))"
  by (auto simp: HandleClientDisconnected_def shard_ok_route LeaveRoomInternal_spec split: option.split)

lemma handleTask_shard_ok:
  assumes "shard_ok s" and "um_find (ls_rooms s) (new_room_id s) = None"
  shows "shard_ok (snd (handleTask e task s))"
proof -
  define t where "t = (if lt_uid task \<noteq> 0
      then s\<lparr>ls_uid_route := um_assign (lt_uid task) (lt_origin task) (ls_uid_route s)\<rparr> else s)"
  have ok: "shard_ok t" and fresh: "um_find (ls_rooms t) (new_room_id t) = None"
    using assms by (auto simp: t_def shard_ok_route new_room_id_def)
  have "shard_ok (snd (Dispatch e task t))"
    using HandleCreateRoom_shard_ok [OF ok fresh] HandleJoinRoom_shard_ok [OF ok]
      HandleLeaveRoom_shard_ok [OF ok] HandlePlayerReady_shard_ok [OF ok]
      HandlePlayerCommand_shard_ok [OF ok] HandleClientDisconnected_shard_ok [OF ok] ok
    by (auto simp: Dispatch_def Let_def HandleEnterBattle_def split: option.split)
  then show ?thesis by (simp add: handleTask_def t_def [symmetric] Let_def split_beta)
qed

subsection \<open>The tick\<close>

lemma same_members_tick:
  assumes "keyed r" and "iter_ok (e_ord e)"
  shows "same_members r (snd (tick_running e routes i r))"
proof -
  let ?a = "snd (TakeRejected (ApplyPending (e_libm e) r))"
  have a: "same_members r ?a"
    by (rule same_members_trans [OF same_members_frame(1) [OF assms] same_members_simple(5)])
  then have "keyed ?a" using assms(1) by (simp add: same_members_def)
  then have "same_members ?a (Step (e_ord e) (e_libm e) kTickSeconds ?a)"
    by (rule same_members_frame(2) [OF _ assms(2)])
  with a have "same_members r (Step (e_ord e) (e_libm e) kTickSeconds ?a)" by (rule same_members_trans)
  then have "same_members r (ClearFrameChanges (snd (NextServerTick
      (Step (e_ord e) (e_libm e) kTickSeconds ?a))))"
    by (rule same_members_trans [OF _ same_members_trans [OF same_members_simple(6,3)]])
  then show ?thesis
    using same_members_trans [OF _ same_members_simple(1)]
    by (auto simp: tick_running_def Let_def split_beta split: option.split)
qed

text \<open>
  The rooms of a shard tick independently: whatever the iteration order, a running room becomes what
  its own tick makes of it, and any other room is left alone.
\<close>

definition tick_one :: "env \<Rightarrow> (u64, GatewayRoute) umap \<Rightarrow> u64 \<Rightarrow> DungeonRoom \<Rightarrow> DungeonRoom" where
  "tick_one e routes room_id r = (if running r then snd (tick_running e routes room_id r) else r)"

lemma tick_room_find:
  "um_find (ls_rooms (snd (tick_room e i acc))) j =
     (if j = i then map_option (tick_one e (ls_uid_route (snd acc)) i)
        (um_find (ls_rooms (snd acc)) i)
      else um_find (ls_rooms (snd acc)) j)"
  by (cases acc) (auto simp: tick_room_def tick_one_def set_room_def split_beta split: option.split)

lemma tick_room_keeps:
  "ls_uid_route (snd (tick_room e i acc)) = ls_uid_route (snd acc)"
  "ls_uid_to_room (snd (tick_room e i acc)) = ls_uid_to_room (snd acc)"
  "ls_shard_id (snd (tick_room e i acc)) = ls_shard_id (snd acc)"
  "ls_next_room_id (snd (tick_room e i acc)) = ls_next_room_id (snd acc)"
  "ls_shard_count (snd (tick_room e i acc)) = ls_shard_count (snd acc)"
  "um_keys (ls_rooms (snd (tick_room e i acc))) = um_keys (ls_rooms (snd acc))"
  by (cases acc; auto simp: tick_room_def set_room_def split_beta split: option.split)+

lemma fold_tick_room:
  assumes "distinct xs"
  shows "um_find (ls_rooms (snd (fold (tick_room e) xs acc))) j =
     (if j \<in> set xs then map_option (tick_one e (ls_uid_route (snd acc)) j)
        (um_find (ls_rooms (snd acc)) j)
      else um_find (ls_rooms (snd acc)) j)"
  using assms
  by (induction xs arbitrary: acc) (auto simp: tick_room_find tick_room_keeps)

lemma TickRooms_find:
  assumes "um_ok (ls_rooms s)" and "iter_ok (e_ord e)"
  shows "um_find (ls_rooms (snd (TickRooms e us s))) j =
    map_option (tick_one e (ls_uid_route s) j)
      (um_find (ls_rooms s) j)"
proof -
  have "distinct (e_ord e CRooms (um_keys (ls_rooms s)))"
    using assms by (simp add: iter_ok_distinct um_ok_def)
  moreover have "j \<notin> set (um_keys (ls_rooms s)) \<Longrightarrow> um_find (ls_rooms s) j = None"
    by (simp add: um_find_None_iff)
  ultimately show ?thesis
    using fold_tick_room [of _ e "([], s)" j] iter_ok_set [OF assms(2)]
    by (auto simp: TickRooms_def Let_def split_beta)
qed

lemma TickRooms_keeps:
  "ls_uid_route (snd (TickRooms e us s)) = ls_uid_route s"
  "ls_uid_to_room (snd (TickRooms e us s)) = ls_uid_to_room s"
  "ls_shard_id (snd (TickRooms e us s)) = ls_shard_id s"
  "ls_next_room_id (snd (TickRooms e us s)) = ls_next_room_id s"
  "ls_shard_count (snd (TickRooms e us s)) = ls_shard_count s"
  "um_keys (ls_rooms (snd (TickRooms e us s))) = um_keys (ls_rooms s)"
  unfolding TickRooms_def Let_def split_beta
  by (simp_all add: fold_constant [where g = "\<lambda>x. ls_uid_route (snd x)"] tick_room_keeps
      fold_constant [where g = "\<lambda>x. ls_uid_to_room (snd x)"] fold_constant [where g = "\<lambda>x. ls_shard_id (snd x)"]
      fold_constant [where g = "\<lambda>x. ls_next_room_id (snd x)"] fold_constant [where g = "\<lambda>x. ls_shard_count (snd x)"]
      fold_constant [where g = "\<lambda>x. um_keys (ls_rooms (snd x))"])

lemma TickRooms_shard_ok:
  assumes "shard_ok s" and "iter_ok (e_ord e)"
  shows "shard_ok (snd (TickRooms e us s))"
proof -
  define f where "f = tick_one e (ls_uid_route s)"
  have find: "um_find (ls_rooms (snd (TickRooms e us s))) j = map_option (f j) (um_find (ls_rooms s) j)" for j
    unfolding f_def by (rule TickRooms_find [OF shard_okD(1) [OF assms(1)] assms(2)])
  have m: "same_members r (f j r)" if "um_find (ls_rooms s) j = Some r" for j r
    using same_members_tick [OF _ assms(2)] shard_okD(3) [OF assms(1) that] by (simp add: f_def tick_one_def room_ok_def)
  then have "room_ok j (f j r)" "HasPlayer v (f j r) = HasPlayer v r"
    if "um_find (ls_rooms s) j = Some r" for j r v
    using that shard_okD(3) [OF assms(1) that] same_members_room_ok same_members_HasPlayer by blast+
  then show ?thesis
    using assms(1) unfolding shard_ok_def find TickRooms_keeps um_ok_def by auto
qed

subsection \<open>Room identifiers\<close>

text \<open>The identifiers of a shard's rooms lie in the shard's residue class and below the counter.\<close>

definition room_ids_ok :: "LogicShard \<Rightarrow> bool" where
  "room_ids_ok s \<longleftrightarrow> unat (ls_shard_id s) < unat (ls_shard_count s) \<and> 0 < ls_next_room_id s \<and>
     (\<forall>i\<in>set (um_keys (ls_rooms s)).
        unat i mod unat (ls_shard_count s) = unat (ls_shard_id s) \<and>
        unat i div unat (ls_shard_count s) < unat (ls_next_room_id s))"

definition id_space_left :: "LogicShard \<Rightarrow> bool" where
  "id_space_left s \<longleftrightarrow>
     unat (ls_shard_id s) + unat (ls_shard_count s) * (unat (ls_next_room_id s) + 1) < 2 ^ 64"

lemma new_room_id_unat:
  assumes "id_space_left s"
  shows "unat (new_room_id s) =
    unat (ls_shard_id s) + unat (ls_shard_count s) * unat (ls_next_room_id s)"
proof -
  have "unat (ls_shard_count s * ls_next_room_id s) = unat (ls_shard_count s) * unat (ls_next_room_id s)"
    using assms by (simp add: id_space_left_def unat_word_ariths)
  moreover have "unat (ucast (ls_shard_id s) :: u64) = unat (ls_shard_id s)"
    by (simp add: unsigned_ucast_eq take_bit_nat_eq_self order_less_trans [OF unsigned_less])
  ultimately show ?thesis
    using assms by (simp add: new_room_id_def id_space_left_def unat_word_ariths)
qed

lemma new_room_id_class:
  assumes "id_space_left s" and "unat (ls_shard_id s) < unat (ls_shard_count s)"
  shows "unat (new_room_id s) mod unat (ls_shard_count s) = unat (ls_shard_id s)"
    and "unat (new_room_id s) div unat (ls_shard_count s) = unat (ls_next_room_id s)"
  using assms by (simp_all add: new_room_id_unat)

lemma new_room_id_fresh:
  assumes "room_ids_ok s" and "id_space_left s"
  shows "um_find (ls_rooms s) (new_room_id s) = None"
  using assms new_room_id_class [OF assms(2)]
  by (fastforce simp: room_ids_ok_def um_find_None_iff)

text \<open>No handler but the creation of a room adds a room.\<close>

definition no_new_room :: "LogicShard \<Rightarrow> LogicShard \<Rightarrow> bool" where
  "no_new_room s t \<longleftrightarrow> set (um_keys (ls_rooms t)) \<subseteq> set (um_keys (ls_rooms s)) \<and>
     ls_shard_id t = ls_shard_id s \<and> ls_shard_count t = ls_shard_count s \<and>
     ls_next_room_id t = ls_next_room_id s"

lemma no_new_room_ids: "no_new_room s t \<Longrightarrow> room_ids_ok s \<Longrightarrow> room_ids_ok t"
  by (auto simp: no_new_room_def room_ids_ok_def)

lemma no_new_room_refl [simp]: "no_new_room s s"
  by (simp add: no_new_room_def)

lemma no_new_room_leave:
  "no_new_room s (snd (LeaveRoomInternal e uid s))"
  "no_new_room s (snd (after_leave e b i r (s\<lparr>ls_uid_to_room := m\<rparr>)))"
  by (auto simp: no_new_room_def LeaveRoomInternal_def after_leave_def set_room_def Let_def um.keys_erase
      split: option.split)

lemma no_new_room_handlers:
  "no_new_room s (snd (HandleLeaveRoom e task s))"
  "no_new_room s (snd (HandlePlayerReady e task s))"
  "no_new_room s (snd (HandleEnterBattle e task s))"
  "no_new_room s (snd (HandlePlayerCommand e task s))"
  "no_new_room s (snd (TickRooms e us s))"
  using no_new_room_leave(2)
  by (auto simp: HandleLeaveRoom_def HandlePlayerReady_def HandleEnterBattle_def HandlePlayerCommand_def
      TickRooms_keeps no_new_room_def set_room_def Let_def split_beta split: option.split)

lemma no_new_room_disconnect: "no_new_room s (snd (HandleClientDisconnected e task s))"
  using no_new_room_leave(1) [of "s\<lparr>ls_uid_route := m\<rparr>" e for m]
  by (auto simp: HandleClientDisconnected_def no_new_room_def split: option.split)

lemma no_new_room_join: "no_new_room s (snd (HandleJoinRoom e task s))"
proof -
  have "no_new_room s (snd (leave_other e uid i s))" for uid i
    using no_new_room_leave(1) by (simp add: leave_other_def split: option.split)
  then show ?thesis
    by (auto simp: HandleJoinRoom_def no_new_room_def set_room_def Let_def split_beta
        split: option.split prod.split)
qed

lemma room_ids_ok_create:
  assumes "room_ids_ok s" and "id_space_left s"
  shows "room_ids_ok (snd (HandleCreateRoom e task s))"
proof -
  obtain left t where l: "LeaveRoomInternal e (lt_uid task) s = (left, t)" by fastforce
  have n: "no_new_room s t" using no_new_room_leave(1) [of s e "lt_uid task"] l by simp
  then have i: "new_room_id t = new_room_id s" by (simp add: no_new_room_def new_room_id_def)
  have c: "unat (ls_shard_count s) > 0" using assms(1) by (auto simp: room_ids_ok_def)
  have "unat (ls_next_room_id s) + 1 \<le> unat (ls_shard_count s) * (unat (ls_next_room_id s) + 1)"
    using c mult_le_mono1 [of 1 "unat (ls_shard_count s)" "unat (ls_next_room_id s) + 1"] by simp
  then have "unat (ls_next_room_id s) + 1 < 2 ^ 64"
    using assms(2) by (simp add: id_space_left_def)
  then have "unat (ls_next_room_id s + 1) = Suc (unat (ls_next_room_id s))"
    by (simp add: unat_word_ariths)
  then show ?thesis
    using assms n new_room_id_class [OF assms(2)]
    by (auto simp: HandleCreateRoom_def l i Let_def set_room_def room_ids_ok_def no_new_room_def
        um.keys_emplace word_less_nat_alt less_Suc_eq split: option.split)
qed

lemma handleTask_room_ids_ok:
  assumes "room_ids_ok s" and "id_space_left s"
  shows "room_ids_ok (snd (handleTask e task s))"
proof -
  define t where "t = (if lt_uid task \<noteq> 0
      then s\<lparr>ls_uid_route := um_assign (lt_uid task) (lt_origin task) (ls_uid_route s)\<rparr> else s)"
  have t: "room_ids_ok t" "id_space_left t"
    using assms by (auto simp: t_def room_ids_ok_def id_space_left_def)
  have "room_ids_ok (snd (Dispatch e task t))"
    using room_ids_ok_create [OF t] no_new_room_ids [OF no_new_room_join t(1)]
      no_new_room_ids [OF no_new_room_disconnect t(1)] no_new_room_ids [OF no_new_room_handlers(1) t(1)]
      no_new_room_ids [OF no_new_room_handlers(2) t(1)] no_new_room_ids [OF no_new_room_handlers(3) t(1)]
      no_new_room_ids [OF no_new_room_handlers(4) t(1)] t(1)
    by (auto simp: Dispatch_def Let_def)
  then show ?thesis by (simp add: handleTask_def t_def [symmetric] Let_def split_beta)
qed

subsection \<open>Reachable shards\<close>

text \<open>A shard of a server with \<open>shards\<close> logic shards, through any sequence of tasks and ticks.\<close>

inductive shard_reachable :: "env \<Rightarrow> LogicShard \<Rightarrow> bool" for e where
  shard_init: "unat shard_id < unat shards \<Longrightarrow> shard_reachable e (LogicShard_new shard_id shards)"
| shard_task: "shard_reachable e s \<Longrightarrow> id_space_left s \<Longrightarrow> shard_reachable e (snd (handleTask e task s))"
| shard_tick: "shard_reachable e s \<Longrightarrow> shard_reachable e (snd (TickRooms e us s))"

lemma shard_reachable_inv:
  assumes "shard_reachable e s" and "iter_ok (e_ord e)"
  shows "shard_ok s \<and> room_ids_ok s"
  using assms
proof (induction rule: shard_reachable.induct)
  case (shard_init shard_id shards)
  then show ?case
    by (auto simp: LogicShard_new_def shard_ok_def room_ids_ok_def)
next
  case (shard_task s task)
  then show ?case
    using handleTask_shard_ok new_room_id_fresh handleTask_room_ids_ok by blast
next
  case (shard_tick s us)
  then show ?case
    using TickRooms_shard_ok no_new_room_ids [OF no_new_room_handlers(5)] by blast
qed

end
