(* ===== verification/RoomRules.thy ===== *)
theory RoomRules
  imports RoomTheorems ShardInvariants
begin

text \<open>
  The rules of the game one by one: whose entities a command can touch, what building and training
  cost, whom a unit attacks, and which team a player gets.
\<close>

subsection \<open>Commands touch nothing of other players\<close>

text \<open>From one room to the next a player has changed only things of its own.\<close>

definition foreign_kept :: "u64 \<Rightarrow> DungeonRoom \<Rightarrow> DungeonRoom \<Rightarrow> bool" where
  "foreign_kept uid r s \<longleftrightarrow>
     (\<forall>i. owned_by uid s i = owned_by uid r i) \<and>
     (\<forall>i. \<not> owned_by uid r i \<longrightarrow> um_find (dr_units s) i = um_find (dr_units r) i) \<and>
     (\<forall>i b. um_find (dr_buildings r) i = Some b \<longrightarrow> b_owner_uid b \<noteq> uid \<longrightarrow> um_find (dr_buildings s) i = Some b) \<and>
     (\<forall>v. v \<noteq> uid \<longrightarrow> um_find (dr_player_res s) v = um_find (dr_player_res r) v)"

lemma foreign_kept_refl [simp]: "foreign_kept uid r r"
  by (simp add: foreign_kept_def)

lemma foreign_kept_trans: "foreign_kept uid r s \<Longrightarrow> foreign_kept uid s t \<Longrightarrow> foreign_kept uid r t"
  by (simp add: foreign_kept_def)

lemma foreign_kept_marks [simp]:
  "foreign_kept uid r (mark_dirty i r)" "foreign_kept uid r (Reject cmd code r)"
  "foreign_kept uid r (snd (SpawnBuilding v team ty pos yaw con r))" "foreign_kept uid r (pay_cost uid c r)"
  by (auto simp: foreign_kept_def owned_by_def mark_dirty_def Reject_def SpawnBuilding_def pay_cost_def
      mark_resource_dirty_def Let_def)

text \<open>An order edits the unit it is given and keeps its owner, and changes no table of the room but the drops.\<close>

definition is_order :: "(Unit \<Rightarrow> DungeonRoom \<Rightarrow> Unit \<times> DungeonRoom) \<Rightarrow> bool" where
  "is_order body \<longleftrightarrow>
     (\<forall>u r. u_owner_uid (fst (body u r)) = u_owner_uid u \<and> dr_units (snd (body u r)) = dr_units r \<and>
        dr_buildings (snd (body u r)) = dr_buildings r \<and> dr_player_res (snd (body u r)) = dr_player_res r)"

lemma is_order_orders:
  "is_order (move_order target path off)" "is_order (stop_order i)" "is_order (attack_order t i)"
  "is_order (harvest_order f fid off)" "is_order (store_order c off)" "is_order (pickup_order d off)"
  "is_order (construct_order b i)"
  by (auto simp: is_order_def move_order_def stop_order_def attack_order_def harvest_order_def store_order_def
      pickup_order_def construct_order_def ClearWorkerTask_def mark_dirty_def DropCarried_def
      SpawnResourceDrop_def Let_def)

lemma foreign_kept_order:
  assumes "is_order body" and "owned_by uid r i"
  shows "foreign_kept uid r (with_unit i body r)"
proof -
  obtain u where u: "um_find (dr_units r) i = Some u" "u_owner_uid u = uid"
    using assms(2) by (auto simp: owned_by_def split: option.splits)
  then show ?thesis
    using assms by (auto simp: with_unit_def foreign_kept_def owned_by_def is_order_def split_beta)
qed

lemma foreign_kept_fold:
  assumes "\<And>x t. x \<in> set xs \<Longrightarrow> foreign_kept uid r t \<Longrightarrow> foreign_kept uid t (f x t)"
  shows "foreign_kept uid r (fold f xs r)"
proof -
  have "foreign_kept uid r t \<Longrightarrow> foreign_kept uid r (fold f xs t)" for t
    using assms
  proof (induction xs arbitrary: t)
    case (Cons x xs)
    have "foreign_kept uid r (f x t)" using Cons.prems foreign_kept_trans by (meson list.set_intros(1))
    then show ?case using Cons.IH Cons.prems(2) by simp
  qed simp
  then show ?thesis by simp
qed

lemma foreign_kept_selected:
  assumes "\<And>index. is_order (body index)"
  shows "foreign_kept uid r (fold (\<lambda>(index, i). with_unit i (body index))
    (enumerate 0 (CollectOwnedUnits uid ids r)) r)"
proof (rule foreign_kept_fold)
  fix x :: "nat \<times> u64" and t
  assume x: "x \<in> set (enumerate 0 (CollectOwnedUnits uid ids r))" and t: "foreign_kept uid r t"
  have "snd x \<in> set (CollectOwnedUnits uid ids r)"
    using x by (cases x rule: prod.exhaust) (auto simp: enumerate_eq_zip dest: set_zip_rightD)
  then have "owned_by uid t (snd x)" using t by (auto simp: CollectOwnedUnits_def foreign_kept_def)
  then show "foreign_kept uid t ((\<lambda>(index, i). with_unit i (body index)) x t)"
    using assms foreign_kept_order by (simp add: split_beta)
qed

lemma foreign_kept_each:
  assumes "\<And>i. is_order (body i)" and "\<And>i t. chosen i t \<Longrightarrow> owned_by uid t i"
  shows "foreign_kept uid r (fold (\<lambda>i r. if chosen i r then with_unit i (body i) r else r) ids r)"
  using assms by (intro foreign_kept_fold) (auto intro: foreign_kept_order)

lemma foreign_kept_selections:
  "foreign_kept uid r (ApplyMove uid ids target path r)" "foreign_kept uid r (ApplyHarvest m uid ids i r)"
  "foreign_kept uid r (ApplyStore m uid ids i r)" "foreign_kept uid r (ApplyPickup m uid ids i r)"
  using foreign_kept_selected is_order_orders
  by (simp_all add: ApplyMove_def ApplyHarvest_def ApplyStore_def ApplyPickup_def Let_def split_beta split: option.split)

lemma foreign_kept_constructors: "foreign_kept uid r (AssignConstructors uid ids i r)"
  unfolding AssignConstructors_def by (rule foreign_kept_each) (rule is_order_orders)

lemma foreign_kept_each_order:
  "foreign_kept uid r (ApplyStop uid ids r)" "foreign_kept uid r (ApplyAttack uid ids t r)"
  "foreign_kept uid r (ApplyConstruct uid ids i r)"
proof -
  show "foreign_kept uid r (ApplyStop uid ids r)"
    unfolding ApplyStop_def by (rule foreign_kept_each) (rule is_order_orders)
  show "foreign_kept uid r (ApplyAttack uid ids t r)"
    unfolding ApplyAttack_def by (rule foreign_kept_each, rule is_order_orders) simp
  show "foreign_kept uid r (ApplyConstruct uid ids i r)"
    by (simp add: ApplyConstruct_def foreign_kept_constructors split: option.split)
qed

lemma foreign_kept_build: "foreign_kept (pc_owner_uid cmd) r (ApplyBuild cmd r)"
proof -
  let ?uid = "pc_owner_uid cmd"
  have "foreign_kept ?uid r (AssignConstructors ?uid ids i (snd (SpawnBuilding ?uid team ty pos yaw con (pay_cost ?uid c r))))"
    for ids i team ty pos yaw con c
    by (rule foreign_kept_trans [OF foreign_kept_trans [OF foreign_kept_marks(4) foreign_kept_marks(3)] foreign_kept_constructors])
  then show ?thesis by (simp add: ApplyBuild_def Let_def split_beta split: option.split)
qed

lemma foreign_kept_train: "foreign_kept (pc_owner_uid cmd) r (ApplyTrain cmd r)"
  by (auto simp: ApplyTrain_def Let_def foreign_kept_def owned_by_def mark_building_dirty_def pay_cost_def
      mark_resource_dirty_def Reject_def split: option.splits)

lemma foreign_kept_command: "foreign_kept (pc_owner_uid cmd) r (apply_command m cmd r)"
  by (simp add: foreign_kept_selections foreign_kept_each_order foreign_kept_build foreign_kept_train
      split: CommandType.split)

text \<open>What belongs to a player is as it was.\<close>

definition untouched :: "u64 \<Rightarrow> DungeonRoom \<Rightarrow> DungeonRoom \<Rightarrow> bool" where
  "untouched v r s \<longleftrightarrow>
     (\<forall>i u. um_find (dr_units r) i = Some u \<and> u_owner_uid u = v \<longrightarrow> um_find (dr_units s) i = Some u) \<and>
     (\<forall>i b. um_find (dr_buildings r) i = Some b \<and> b_owner_uid b = v \<longrightarrow> um_find (dr_buildings s) i = Some b) \<and>
     um_find (dr_player_res s) v = um_find (dr_player_res r) v"

lemma foreign_untouched: "foreign_kept uid r s \<Longrightarrow> v \<noteq> uid \<Longrightarrow> untouched v r s"
  by (auto simp: foreign_kept_def untouched_def owned_by_def)

lemma untouched_trans: "untouched v r s \<Longrightarrow> untouched v s t \<Longrightarrow> untouched v r t"
  by (simp add: untouched_def)

lemma untouched_commands:
  "\<forall>cmd \<in> set cmds. pc_owner_uid cmd \<noteq> v \<Longrightarrow> untouched v r (fold (apply_command m) cmds r)"
proof (induction cmds arbitrary: r)
  case Nil
  then show ?case by (simp add: untouched_def)
next
  case (Cons cmd cmds)
  have "untouched v r (apply_command m cmd r)"
    using Cons.prems by (intro foreign_untouched [OF foreign_kept_command]) auto
  then show ?case using untouched_trans Cons by (simp del: apply_command.simps)
qed

text \<open>C13: players cannot reach into each other: however many commands of whatever kind the other players
  have queued, naming whatever units, applying them leaves every unit and building of a player who
  has queued none exactly as it was, orders and training queues included, and its ledger too.\<close>

theorem commands_isolated:
  assumes "\<forall>cmd \<in> set (dr_pending r). pc_owner_uid cmd \<noteq> v"
  shows "untouched v r (ApplyPending m r)"
  using untouched_commands [OF assms] by (simp add: ApplyPending_def untouched_def)

theorem commands_isolated_witness: "untouched 8 example_room (ApplyPending example_libm example_room)"
proof -
  have "list_all (\<lambda>cmd. pc_owner_uid cmd \<noteq> 8) (dr_pending example_room)" by code_simp
  then show ?thesis using commands_isolated by (simp add: list_all_iff)
qed

subsection \<open>Building and training are paid for\<close>

text \<open>C20: an order to build or to train is refused, and then nothing but the list of refusals has changed,
  or it is paid in full: the player's ledger has exactly the cost less of each resource, no
  subtraction wraps around, and no other ledger changes.\<close>

theorem orders_paid:
  assumes "um_find (dr_player_res r) (pc_owner_uid cmd) = Some res"
    and "(s = ApplyBuild cmd r \<and> cost = BuildingCost (pc_aux_type cmd)) \<or>
         (s = ApplyTrain cmd r \<and> cost = UnitCost (pc_aux_type cmd))"
  shows "(\<exists>code. s = Reject cmd code r) \<or>
    (\<exists>res'. um_find (dr_player_res s) (pc_owner_uid cmd) = Some res' \<and>
       unat (r_food res') + unat (c_food cost) = unat (r_food res) \<and>
       unat (r_wood res') + unat (c_wood cost) = unat (r_wood res) \<and>
       unat (r_gold res') + unat (c_gold cost) = unat (r_gold res) \<and>
       (\<forall>v. v \<noteq> pc_owner_uid cmd \<longrightarrow> um_find (dr_player_res s) v = um_find (dr_player_res r) v))"
proof -
  let ?uid = "pc_owner_uid cmd"
  have ledgers: "dr_player_res (AssignConstructors uid ids i t) = dr_player_res t" for uid ids i t
    unfolding AssignConstructors_def
    by (rule fold_constant)
       (auto simp: with_unit_def construct_order_def mark_dirty_def split: option.split)
  have paid: "\<exists>res'. um_find (dr_player_res (pay_cost ?uid c r)) ?uid = Some res' \<and>
      unat (r_food res') + unat (c_food c) = unat (r_food res) \<and>
      unat (r_wood res') + unat (c_wood c) = unat (r_wood res) \<and>
      unat (r_gold res') + unat (c_gold c) = unat (r_gold res)"
    "v \<noteq> ?uid \<Longrightarrow> um_find (dr_player_res (pay_cost ?uid c r)) v = um_find (dr_player_res r) v"
    if "CanAfford res c" for c v
    using that assms(1)
    by (auto simp: pay_cost_def mark_resource_dirty_def Pay_def CanAfford_def unat_sub word_le_nat_alt)
  show ?thesis
    using assms(2)
  proof
    assume "s = ApplyBuild cmd r \<and> cost = BuildingCost (pc_aux_type cmd)"
    then have s: "s = ApplyBuild cmd r" and c: "cost = BuildingCost (pc_aux_type cmd)" by auto
    show ?thesis
    proof (cases "pc_aux_type cmd = kBuildingCrystal \<or> \<not> CanAfford res cost")
      case True
      then show ?thesis using assms(1) by (auto simp: s c ApplyBuild_def Let_def)
    next
      case False
      then have "dr_player_res s = dr_player_res (pay_cost ?uid cost r)"
        using assms(1) by (simp add: s c ApplyBuild_def Let_def split_beta ledgers) (simp add: SpawnBuilding_def Let_def)
      then show ?thesis using paid False by simp
    qed
  next
    assume "s = ApplyTrain cmd r \<and> cost = UnitCost (pc_aux_type cmd)"
    then have s: "s = ApplyTrain cmd r" and c: "cost = UnitCost (pc_aux_type cmd)" by auto
    have "(\<exists>code. s = Reject cmd code r) \<or> CanAfford res cost \<and> dr_player_res s = dr_player_res (pay_cost ?uid cost r)"
      using assms(1) by (auto simp: s c ApplyTrain_def Let_def mark_building_dirty_def split: option.split)
    then show ?thesis using paid by auto
  qed
qed

definition example_train :: PendingCommand where
  "example_train = PendingCommand_default\<lparr>pc_type := CmdTrain, pc_owner_uid := 7, pc_target_entity := 1, pc_aux_type := kUnitVillager\<rparr>"

theorem orders_paid_witness:
  "\<exists>res res'. um_find (dr_player_res example_room) 7 = Some res \<and>
     um_find (dr_player_res (ApplyTrain example_train example_room)) 7 = Some res' \<and>
     unat (r_food res') + 50 = unat (r_food res)"
proof -
  have uid: "pc_owner_uid example_train = 7" by (simp add: example_train_def)
  have "um_find (dr_player_res example_room) 7 \<noteq> None" by code_simp
  then obtain res where res: "um_find (dr_player_res example_room) (pc_owner_uid example_train) = Some res" using uid by auto
  have "length (dr_rejected (ApplyTrain example_train example_room)) = length (dr_rejected example_room)" by code_simp
  then have "ApplyTrain example_train example_room \<noteq> Reject example_train code example_room" for code
    by (auto simp: Reject_def dest: arg_cong [where f = dr_rejected])
  moreover have "unat (c_food (UnitCost (pc_aux_type example_train))) = 50" by code_simp
  ultimately show ?thesis
    using orders_paid [OF res disjI2 [OF conjI [OF refl refl]]] res uid by auto
qed

subsection \<open>The nearest enemy\<close>

definition living_enemy :: "Unit \<Rightarrow> DungeonRoom \<Rightarrow> u64 \<Rightarrow> Unit \<Rightarrow> bool" where
  "living_enemy u r i other \<longleftrightarrow>
     um_find (dr_units r) i = Some other \<and> u_team other \<noteq> u_team u \<and> \<not> u_hp other \<le> 0"

lemma f32_less_trans: "a < b \<Longrightarrow> b < c \<Longrightarrow> a < (c :: f32)"
  by (auto simp: less_f32_def)

lemma f32_less_irrefl [simp]: "\<not> a < (a :: f32)"
  by (simp add: less_f32_def)

definition scan_ok :: "Unit \<Rightarrow> DungeonRoom \<Rightarrow> f32 \<Rightarrow> u64 set \<Rightarrow> f32 \<times> u64 \<Rightarrow> bool" where
  "scan_ok u r limit seen best \<longleftrightarrow>
     (best = (limit, 0) \<or> fst best < limit \<and>
        (\<exists>other. living_enemy u r (snd best) other \<and> fst best = dist2 (u_pos other) (u_pos u))) \<and>
     (\<forall>i \<in> seen. \<forall>other. living_enemy u r i other \<longrightarrow> \<not> dist2 (u_pos other) (u_pos u) < fst best)"

lemma scan_ok_step:
  assumes "scan_ok u r limit seen best"
  shows "scan_ok u r limit (insert i seen) (enemy_scan u r i best)"
proof (cases "\<exists>other. living_enemy u r i other \<and> dist2 (u_pos other) (u_pos u) < fst best")
  case True
  then obtain other where o: "living_enemy u r i other" "dist2 (u_pos other) (u_pos u) < fst best" by blast
  then have e: "enemy_scan u r i best = (dist2 (u_pos other) (u_pos u), i)"
    by (auto simp: enemy_scan_def living_enemy_def Let_def)
  have "dist2 (u_pos other) (u_pos u) < limit" using assms o(2) f32_less_trans by (auto simp: scan_ok_def)
  moreover have "\<not> dist2 (u_pos x) (u_pos u) < dist2 (u_pos other) (u_pos u)"
    if "j \<in> insert i seen" "living_enemy u r j x" for j x
    using that o assms f32_less_trans [OF _ o(2)] by (auto simp: scan_ok_def living_enemy_def)
  ultimately show ?thesis using o(1) by (auto simp: scan_ok_def e)
next
  case False
  then have "enemy_scan u r i best = best"
    by (auto simp: enemy_scan_def living_enemy_def Let_def split: option.split)
  then show ?thesis using assms False by (auto simp: scan_ok_def)
qed

lemma scan_ok_fold: "scan_ok u r limit seen best \<Longrightarrow> scan_ok u r limit (seen \<union> set xs) (fold (enemy_scan u r) xs best)"
proof (induction xs arbitrary: seen best)
  case (Cons i xs)
  show ?case using Cons.IH [OF scan_ok_step [OF Cons.prems, of i]] by simp
qed simp

text \<open>C21: a unit's automatic target is right: \<^verbatim>\<open>NearestEnemy\<close> returns 0 exactly when no living unit of another
  team is closer than the range, and otherwise such a unit with no other one closer, in whatever
  order the units are visited and whatever their coordinates, infinities and NaN included.\<close>

theorem nearest_enemy:
  assumes "iter_ok ord" and "um_find (dr_units r) 0 = None" and t: "t = NearestEnemy ord u rng r"
  shows "(t = 0 \<longrightarrow> (\<forall>i other. living_enemy u r i other \<longrightarrow> \<not> dist2 (u_pos other) (u_pos u) < rng * rng)) \<and>
    (t \<noteq> 0 \<longrightarrow> (\<exists>best. living_enemy u r t best \<and> dist2 (u_pos best) (u_pos u) < rng * rng \<and>
       (\<forall>i other. living_enemy u r i other \<longrightarrow> \<not> dist2 (u_pos other) (u_pos u) < dist2 (u_pos best) (u_pos u))))"
proof -
  define xs where "xs = ord CUnits (um_keys (dr_units r))"
  define best where "best = fold (enemy_scan u r) xs (rng * rng, 0)"
  have "set xs = set (um_keys (dr_units r))" using assms(1) unfolding xs_def iter_ok_def by (metis set_mset_mset)
  then have all: "living_enemy u r i other \<Longrightarrow> i \<in> set xs" for i other
    by (metis living_enemy_def option.distinct(1) um_find_None_iff)
  have "scan_ok u r (rng * rng) ({} \<union> set xs) best"
    unfolding best_def by (rule scan_ok_fold) (simp add: scan_ok_def)
  then have ok: "scan_ok u r (rng * rng) (set xs) best" by simp
  then have least: "living_enemy u r i other \<Longrightarrow> \<not> dist2 (u_pos other) (u_pos u) < fst best" for i other
    using all [of i other] by (auto simp: scan_ok_def)
  have t': "t = snd best" by (simp add: t NearestEnemy_def best_def xs_def)
  have found: "best = (rng * rng, 0) \<or> fst best < rng * rng \<and>
      (\<exists>other. living_enemy u r t other \<and> fst best = dist2 (u_pos other) (u_pos u))"
    using ok by (simp add: scan_ok_def t')
  have none: "\<not> living_enemy u r 0 other" for other using assms(2) by (simp add: living_enemy_def)
  show ?thesis
  proof (cases "t = 0")
    case True
    then have "best = (rng * rng, 0)" using found none by auto
    then show ?thesis using True least by simp
  next
    case False
    then obtain other where "living_enemy u r t other" "fst best = dist2 (u_pos other) (u_pos u)" "fst best < rng * rng"
      using found t' by auto
    then show ?thesis using False least by metis
  qed
qed

theorem nearest_enemy_witness:
  "\<exists>u best. um_find (dr_units example_room) 3 = Some u \<and>
     living_enemy u example_room (NearestEnemy (\<lambda>_ xs. xs) u kAggroRange example_room) best"
proof -
  have "um_find (dr_units example_room) 3 \<noteq> None" "um_find (dr_units example_room) 0 = None" by code_simp+
  then obtain u where u: "um_find (dr_units example_room) 3 = Some u" and z: "um_find (dr_units example_room) 0 = None" by blast
  have "NearestEnemy (\<lambda>_ xs. xs) (the (um_find (dr_units example_room) 3)) kAggroRange example_room \<noteq> 0" by code_simp
  then show ?thesis using nearest_enemy [OF iter_ok_insertion z refl, of u kAggroRange] u by auto
qed

subsection \<open>Teams\<close>

text \<open>Two players can end up in one team: in a room for at least two, one player joins, another one joins,
  the first leaves and a third joins; the number of players is the next team's number, so the last
  two share a team, and neither can attack the other.\<close>

lemma teams_collide:
  assumes "distinct [a, b, c]" and "2 \<le> max_players"
    and "r = snd (AddPlayer c (snd (RemovePlayer a (snd (AddPlayer b (snd (AddPlayer a (DungeonRoom_new room_id name max_players))))))))"
  shows "HasPlayer b r \<and> HasPlayer c r \<and> TeamOf b r = TeamOf c r"
proof -
  have n: "2 \<le> unat max_players" using assms(2) by (simp add: word_le_nat_alt)
  then have nz: "max_players \<noteq> 0" by auto
  have ne: "a \<noteq> b" "b \<noteq> a" "c \<noteq> a" "c \<noteq> b" "b \<noteq> c" using assms(1) by auto
  define seat where "seat = (\<lambda>uid team. (uid, \<lparr>p_uid = uid, p_team = team, p_ready = False\<rparr>) :: u64 \<times> RoomPlayerState)"
  define r1 where "r1 = snd (AddPlayer a (DungeonRoom_new room_id name max_players))"
  define r2 where "r2 = snd (AddPlayer b r1)"
  define r3 where "r3 = snd (RemovePlayer a r2)"
  note room = AddPlayer_def RemovePlayer_def IsFull_def um_keys_def um_emplace_def um_erase_def um_find_def Let_def seat_def
  have 1: "dr_players r1 = [seat a 0]" "dr_max_players r1 = max_players"
    using n nz by (simp_all add: r1_def room DungeonRoom_new_def)
  have 2: "dr_players r2 = [seat a 0, seat b 1]" "dr_max_players r2 = max_players"
    using n ne 1 by (simp_all add: r2_def room)
  have 3: "dr_players r3 = [seat b 1]" "dr_max_players r3 = max_players"
    using ne 2 by (simp_all add: r3_def room)
  have "dr_players r = [seat b 1, seat c 1]"
    using n ne 3 unfolding assms(3) r1_def [symmetric] r2_def [symmetric] r3_def [symmetric] by (simp add: room)
  then show ?thesis using ne by (simp add: HasPlayer_def TeamOf_def um_find_def seat_def)
qed

lemma teams_collide_witness:
  "\<exists>r. r = snd (AddPlayer 3 (snd (RemovePlayer 1 (snd (AddPlayer 2 (snd (AddPlayer 1 (DungeonRoom_new 5 ''x'' 2)))))))) \<and>
     TeamOf 2 r = TeamOf 3 r"
  using teams_collide [OF _ _ refl, of 1 2 3 2 5 "''x''"] by simp

subsection \<open>Well-formed rooms\<close>

text \<open>C40: the tables of a room stay well formed: every unit, building, field, drop and player is stored under
  its own id, once, from the empty room through players joining, leaving and getting ready, the start
  of the game with all that is spawned, and every frame.\<close>

theorem room_well_formed:
  assumes "keyed r" and "iter_ok ord"
  shows "keyed (DungeonRoom_new room_id name max_players) \<and> keyed (snd (AddPlayer uid r)) \<and>
    keyed (snd (RemovePlayer uid r)) \<and> keyed (snd (SetReady uid b r)) \<and>
    keyed (SpawnInitialUnits ord m r) \<and> keyed (BeginBattle r) \<and>
    keyed (ApplyPending m r) \<and> keyed (Step ord m dt r)"
proof -
  have lobby: "keyed (DungeonRoom_new room_id name max_players)" "keyed (snd (AddPlayer uid r))"
      "keyed (snd (RemovePlayer uid r))"
    using assms(1)
    by (auto simp: keyed_def DungeonRoom_new_def AddPlayer_def RemovePlayer_def um_ok_emplace um_ok_erase Let_def
        split: option.split)
  have "keyed (snd (SetReady uid b r))" "keyed (SpawnInitialUnits ord m r)" "keyed (BeginBattle r)"
    using assms(1) same_members_simple(7) [of r uid b] same_members_SpawnInitialUnits [of r ord m] same_members_BeginBattle [of r]
    by (auto simp: same_members_def)
  then show ?thesis using lobby keyed_ApplyPending keyed_Step assms by blast
qed

theorem room_well_formed_witness: "keyed (Step (\<lambda>_ xs. xs) example_libm (lit 5 100) example_room)"
  using room_well_formed [OF example_ok(1) iter_ok_insertion] by blast

end
