(* ===== verification/RoomVictory.thy ===== *)
theory RoomVictory
  imports RoomLineage RoomFrame
begin

text \<open>
  The end of a game. Crystals are placed when the game starts and never again: no command builds one, no
  worker repairs one, and a hit takes hit points away. So a team that has lost its crystals is out for
  good, and a game that is decided stays decided.
\<close>

subsection \<open>Hit points\<close>

lemma f_sub_positive:
  assumes "0 < x - y" and "y = Fin False d" and "0 \<le> d"
  shows "0 < (x :: f32)"
proof (cases x)
  case (Fin a m)
  show ?thesis
  proof (rule ccontr)
    assume "\<not> 0 < x"
    then have m: "sv a m \<le> 0" by (simp add: Fin less_f32_def zero_f32_def sv_def split: if_splits)
    define v where "v = sv a m + sv True d"
    have v: "v \<le> 0" using m assms(3) by (simp add: v_def sv_def)
    have "0 \<le> round_mag \<bar>v\<bar> 1" using representable_round_mag [of "\<bar>v\<bar>" 1] representable_nonneg by simp
    then have "f_key (f_round True \<bar>v\<bar> 1) \<le> 0" by (simp add: f_round_def sv_def Let_def)
    moreover have "x - y = (if v = 0 then Fin (a \<and> True) 0 else f_round (v < 0) \<bar>v\<bar> 1)"
      using Fin assms(2) by (simp add: minus_f32_def v_def Let_def)
    ultimately show False
      using assms(1) v by (auto simp: less_f32_def zero_f32_def sv_def split: if_splits)
  qed
qed (use assms in \<open>simp_all add: minus_f32_def less_f32_def zero_f32_def\<close>)

lemma damage_finite: "\<exists>d \<ge> 0. kAttackDamage = Fin False d"
proof -
  have "kAttackDamage = Fin False (20 * 2 ^ 149)" unfolding kAttackDamage_def by code_simp
  then show ?thesis by (intro exI [of _ "20 * 2 ^ 149"]) simp
qed

lemma after_hits_positive: "0 < after_hits n h \<Longrightarrow> 0 < h"
proof (induction n)
  case (Suc n)
  have "0 < after_hits n h - kAttackDamage"
    using Suc.prems by (auto simp: after_hits_def f_max_def split: if_splits)
  then show ?case using f_sub_positive damage_finite Suc.IH by blast
qed simp

subsection \<open>Crystals fall\<close>

definition is_crystal :: "Building \<Rightarrow> bool" where
  "is_crystal b \<longleftrightarrow> b_building_type b = kBuildingCrystal"

definition crystal_kept :: "Building \<Rightarrow> Building \<Rightarrow> bool" where
  "crystal_kept b c \<longleftrightarrow> same_building b c \<and>
     (b_under_construction b \<or> (\<exists>n. b_hp c = after_hits n (b_hp b)))"

definition crystals_fall :: "DungeonRoom \<Rightarrow> DungeonRoom \<Rightarrow> bool" where
  "crystals_fall r s \<longleftrightarrow>
     (\<forall>i c. um_find (dr_buildings s) i = Some c \<longrightarrow> is_crystal c \<longrightarrow>
        (\<exists>b. um_find (dr_buildings r) i = Some b \<and> crystal_kept b c))"

lemma crystal_kept_refl [simp]: "crystal_kept b b"
  by (auto simp: crystal_kept_def intro: exI [of _ 0])

lemma crystal_kept_trans: "crystal_kept a b \<Longrightarrow> crystal_kept b c \<Longrightarrow> crystal_kept a c"
  by (auto simp: crystal_kept_def same_building_def after_hits_add)

lemma crystal_kept_type: "crystal_kept b c \<Longrightarrow> is_crystal c \<Longrightarrow> is_crystal b"
  by (simp add: crystal_kept_def same_building_def is_crystal_def)

lemma crystals_fall_trans: "crystals_fall r s \<Longrightarrow> crystals_fall s t \<Longrightarrow> crystals_fall r t"
  unfolding crystals_fall_def by (meson crystal_kept_trans crystal_kept_type)

lemma crystals_fall_same: "dr_buildings s = dr_buildings r \<Longrightarrow> crystals_fall r s"
  by (auto simp: crystals_fall_def)

lemma crystals_fall_adjust:
  assumes "dr_buildings s = um_adjust k f (dr_buildings r)"
    and "\<And>b. um_find (dr_buildings r) k = Some b \<Longrightarrow> crystal_kept b (f b)"
  shows "crystals_fall r s"
  using assms by (auto simp: crystals_fall_def split: if_splits)

lemma crystals_fall_act:
  assumes "act dt u r u' r'"
  shows "crystals_fall (write_back k u r) (write_back k u' r')"
  using assms
proof cases
  case (act_hit_building j b)
  show ?thesis
    by (rule crystals_fall_adjust [where k = j and f = "\<lambda>t. t\<lparr>b_hp := f_max 0 (b_hp t - kAttackDamage)\<rparr>"])
       (auto simp: act_hit_building write_back_def hit_building_def mark_building_dirty_def crystal_kept_def same_building_def
         after_hits_hit)
next
  case (act_construct j b)
  show ?thesis
    by (rule crystals_fall_adjust [where k = j and f = "construct_progress dt"])
       (use act_construct in \<open>auto simp: write_back_def mark_building_dirty_def crystal_kept_def same_building_def
         construct_progress_def Let_def\<close>)
qed (auto simp: write_back_def mark_dirty_def SpawnResourceDrop_def Let_def hit_unit_def deposit_def mark_resource_dirty_def
    intro!: crystals_fall_same split: option.split)

interpretation crystals: effect_relation crystals_fall dt for dt
proof
  show "keyed r \<Longrightarrow> held k old u r \<Longrightarrow> u_id u = k \<Longrightarrow> act dt u r u' r' \<Longrightarrow>
      crystals_fall (write_back k u r) (write_back k u' r')" for r k old u u' r'
    by (rule crystals_fall_act)
next
  show "crystals_fall r (snd (SpawnBuilding uid team ty pos yaw True r))" if "ty \<noteq> kBuildingCrystal" for r uid team ty pos yaw
    using that by (auto simp: crystals_fall_def SpawnBuilding_def is_crystal_def Let_def split: if_splits)
next
  show "crystals_fall r (RemoveDead ord r)" if "keyed r" for r ord
    using that by (auto simp: crystals_fall_def RemoveDead_def keyed_def keyed_by_def um_find_erase_if split: option.splits if_splits)
next
  show "crystals_fall r (set_queue k (b_id b) q r)" for r k b q
    by (rule crystals_fall_adjust [where k = k and f = "\<lambda>b. b\<lparr>b_train_queue := q (b_train_queue b)\<rparr>"])
       (auto simp: set_queue_def mark_building_dirty_def crystal_kept_def same_building_def intro: exI [of _ 0])
next
  show "crystals_fall r s \<Longrightarrow> crystals_fall s t \<Longrightarrow> crystals_fall r t" for r s t
    by (rule crystals_fall_trans)
qed (auto simp: pay_cost_def mark_resource_dirty_def Reject_def intro!: crystals_fall_same)

end
