(* ===== verification/SendQueue.thy ===== *)
theory SendQueue
  imports Protocol "HOL-Library.Sublist"
begin

text \<open>
  The contract of a send queue: a bounded queue that loses its oldest packet when it is full and is
  emptied by a single writer. The sessions of both servers (\<^verbatim>\<open>GatewayLinkSession\<close>, \<^verbatim>\<open>Csession\<close> and
  \<^verbatim>\<open>ClientSession\<close>) each implement it; what follows from the contract is proved once, in the locales
  below, and each session interprets them.
\<close>

subsection \<open>The abstract queue\<close>

text \<open>Besides the waiting packets and the drop counter, the history: what was ever accepted, what was
  handed to the socket, and whether the queue was discarded.\<close>

record sendq =
  sq_que :: "SendNode list"
  sq_accepted :: "SendNode list"
  sq_written :: "SendNode list"
  sq_dropped :: u64
  sq_discarded :: bool

definition sendq_empty :: sendq where
  "sendq_empty = \<lparr>sq_que = [], sq_accepted = [], sq_written = [], sq_dropped = 0, sq_discarded = False\<rparr>"

definition sq_push :: "SendNode \<Rightarrow> sendq \<Rightarrow> sendq" where
  "sq_push node q =
     q\<lparr>sq_que := (if kMaxSendQueueDepth \<le> length (sq_que q) then tl (sq_que q) else sq_que q) @ [node],
       sq_accepted := sq_accepted q @ [node],
       sq_dropped := sq_dropped q + (if kMaxSendQueueDepth \<le> length (sq_que q) then 1 else 0)\<rparr>"

definition sq_take :: "sendq \<Rightarrow> sendq" where
  "sq_take q = q\<lparr>sq_que := tl (sq_que q), sq_written := sq_written q @ [hd (sq_que q)]\<rparr>"

definition sq_discard :: "sendq \<Rightarrow> sendq" where
  "sq_discard q = q\<lparr>sq_que := [], sq_discarded := True\<rparr>"

inductive sendq_step :: "sendq \<Rightarrow> sendq \<Rightarrow> bool" where
  sendq_push: "\<not> sq_discarded q \<Longrightarrow> sendq_step q (sq_push node q)"
| sendq_take: "sq_que q \<noteq> [] \<Longrightarrow> sendq_step q (sq_take q)"
| sendq_discard: "sendq_step q (sq_discard q)"

text \<open>
  Never more than the limit waits; the waiting packets are the newest ones accepted, in order; no
  packet is written twice or out of order; and every packet missing so far was counted.
\<close>

definition sendq_ok :: "sendq \<Rightarrow> bool" where
  "sendq_ok q \<longleftrightarrow>
     length (sq_que q) \<le> kMaxSendQueueDepth \<and>
     suffix (sq_que q) (sq_accepted q) \<and>
     subseq (sq_written q @ sq_que q) (sq_accepted q) \<and>
     (\<not> sq_discarded q \<longrightarrow>
        sq_dropped q + of_nat (length (sq_written q) + length (sq_que q)) = of_nat (length (sq_accepted q)))"

lemma sendq_ok_empty: "sendq_ok sendq_empty"
  by (simp add: sendq_ok_def sendq_empty_def)

lemma suffix_push: "suffix q acc \<Longrightarrow> suffix (tl q @ [n]) (acc @ [n]) \<and> suffix (q @ [n]) (acc @ [n])"
  by (cases q) (auto simp: suffix_def)

lemma subseq_push:
  assumes "subseq (ws @ q) acc"
  shows "subseq (ws @ tl q @ [n]) (acc @ [n])" and "subseq (ws @ q @ [n]) (acc @ [n])"
proof -
  have app: "subseq (xs @ [n]) (acc @ [n])" if "subseq xs acc" for xs
    using that list_emb_append_mono [of "(=)" xs acc "[n]" "[n]"] by simp
  have "subseq (tl q) q" by (cases q) auto
  then have "subseq (ws @ tl q) (ws @ q)" by (intro list_emb_append_mono) auto
  then have "subseq (ws @ tl q) acc" using assms by (rule subseq_order.trans)
  then show "subseq (ws @ tl q @ [n]) (acc @ [n])" using app [of "ws @ tl q"] by simp
  show "subseq (ws @ q @ [n]) (acc @ [n])" using app [OF assms] by simp
qed

lemma sendq_ok_push: "sendq_ok q \<Longrightarrow> sendq_ok (sq_push node q)"
  by (cases "sq_que q")
     (auto simp: sendq_ok_def sq_push_def kMaxSendQueueDepth_def suffix_push subseq_push
       add.commute add.left_commute dest: suffix_push subseq_push simp del: append_assoc)

lemma sendq_ok_step: "sendq_step q r \<Longrightarrow> sendq_ok q \<Longrightarrow> sendq_ok r"
proof (induction rule: sendq_step.induct)
  case (sendq_push q node)
  then show ?case by (simp add: sendq_ok_push)
next
  case (sendq_take q)
  then show ?case
    by (cases "sq_que q") (auto simp: sendq_ok_def sq_take_def suffix_def add.commute add.left_commute)
next
  case (sendq_discard q)
  have "subseq (sq_written q) (sq_written q @ sq_que q)" by (simp add: prefix_imp_subseq)
  then show ?case
    using sendq_discard by (auto simp: sendq_ok_def sq_discard_def intro: subseq_order.trans)
qed

lemma sendq_ok_reach: "sendq_step\<^sup>*\<^sup>* q r \<Longrightarrow> sendq_ok q \<Longrightarrow> sendq_ok r"
  by (induction rule: rtranclp_induct) (auto intro: sendq_ok_step)

subsection \<open>Sessions that implement the queue\<close>

text \<open>An implementation: a projection to the abstract queue under which a new session has the empty queue
  and every event of the session is a sequence of queue events, possibly an empty one.\<close>

locale send_queue =
  fixes abs :: "'s \<Rightarrow> sendq" and fresh :: "'s \<Rightarrow> bool" and event :: "'s \<Rightarrow> 's \<Rightarrow> bool"
  assumes abs_fresh: "fresh s \<Longrightarrow> abs s = sendq_empty"
    and abs_event: "event s t \<Longrightarrow> sendq_step\<^sup>*\<^sup>* (abs s) (abs t)"
begin

lemma simulation: "event\<^sup>*\<^sup>* s t \<Longrightarrow> sendq_step\<^sup>*\<^sup>* (abs s) (abs t)"
  by (induction rule: rtranclp_induct) (auto dest: abs_event)

lemma reach_ok: "fresh s \<Longrightarrow> event\<^sup>*\<^sup>* s t \<Longrightarrow> sendq_ok (abs t)"
  using simulation [of s t] sendq_ok_reach sendq_ok_empty by (simp add: abs_fresh)

end

text \<open>A session with its writer: \<open>turn\<close> is one turn of the write loop, which starts the next write or
  ends the loop.\<close>

locale queue_writer = send_queue +
  fixes turn :: "'a \<Rightarrow> 'a" and is_open :: "'a \<Rightarrow> bool" and is_idle :: "'a \<Rightarrow> bool"
  assumes turn_take: "is_open s \<Longrightarrow> sq_que (abs s) \<noteq> [] \<Longrightarrow> is_open (turn s) \<and> abs (turn s) = sq_take (abs s)"
    and turn_end: "is_open s \<Longrightarrow> sq_que (abs s) = [] \<Longrightarrow> is_idle (turn s) \<and> abs (turn s) = abs s"
begin

lemma drains:
  assumes "is_open s"
  shows "is_idle ((turn ^^ Suc (length (sq_que (abs s)))) s) \<and>
    abs ((turn ^^ Suc (length (sq_que (abs s)))) s) =
      (abs s)\<lparr>sq_que := [], sq_written := sq_written (abs s) @ sq_que (abs s)\<rparr>"
  using assms
proof (induction "length (sq_que (abs s))" arbitrary: s)
  case 0
  then show ?case using turn_end [of s] by simp
next
  case (Suc k)
  then have ne: "sq_que (abs s) \<noteq> []" by auto
  then have t: "is_open (turn s)" "abs (turn s) = sq_take (abs s)" using turn_take Suc.prems by auto
  then have "k = length (sq_que (abs (turn s)))" using Suc.hyps(2) by (simp add: sq_take_def)
  then show ?case
    using Suc.hyps(1) [OF _ t(1)] t(2) ne Suc.hyps(2) [symmetric]
    by (simp add: sq_take_def funpow_swap1)
qed

end

text \<open>No lost wake-up: in every state the session can get into while it is open, packets wait only if the
  writer runs; so they are all written, in order, if no write fails.\<close>

locale armed_writer = queue_writer +
  fixes inv :: "'a \<Rightarrow> bool"
  assumes inv_fresh: "fresh s \<Longrightarrow> inv s"
    and inv_event: "inv s \<Longrightarrow> event s t \<Longrightarrow> inv t"
    and inv_armed: "inv s \<Longrightarrow> is_open s \<Longrightarrow> is_idle s \<Longrightarrow> sq_que (abs s) = []"
begin

lemma reach_inv: "fresh s \<Longrightarrow> event\<^sup>*\<^sup>* s t \<Longrightarrow> inv t"
  by (rotate_tac 1, induction rule: rtranclp_induct) (auto intro: inv_fresh inv_event)

lemma no_lost_wakeup: "fresh s \<Longrightarrow> event\<^sup>*\<^sup>* s t \<Longrightarrow> is_open t \<Longrightarrow> is_idle t \<Longrightarrow> sq_que (abs t) = []"
  using reach_inv inv_armed by blast

end

end
