(* ===== verification/LinkSession.thy ===== *)
theory LinkSession
  imports SendQueue
begin

text \<open>
  The game server's end of a gateway link (\<^verbatim>\<open>GatewayLinkSession\<close>): its state, the bounded send queue
  with drop-oldest back-pressure and the single writer coroutine. All of it runs on the thread of
  one network shard, so the interleavings are those of the events below: a coroutine keeps running
  until it waits for a write to finish. \<open>gl_writer\<close> is the writer coroutine: none, spawned and about to
  run, or suspended in the write of a packet; \<open>gl_accepted\<close>, \<open>gl_written\<close> and \<open>gl_notified\<close> record the
  packets accepted, the writes started and the calls of \<^verbatim>\<open>NotifyOwnerClosed\<close>.
\<close>

subsection \<open>State and operations\<close>

datatype Session_state = Invalid | Conected | LoggedIn | Closing | Closed

datatype writer = NoWriter | Spawned | Writing SendNode

text \<open>How an \<^verbatim>\<open>async_accept\<close> of either server completes.\<close>

datatype accept_result = Accepted | AcceptFailed | AcceptAborted

record GatewayLinkSession =
  gl_slot_id :: u64
  gl_generation :: u64
  gl_state :: Session_state
  gl_send_que :: "SendNode list"
  gl_send_dropped :: u64
  gl_is_writing :: bool
  gl_writer :: writer
  gl_accepted :: "SendNode list"
  gl_written :: "SendNode list"
  gl_notified :: nat

text \<open>The slot number of a session that is not bound to a slot: the greatest \<^verbatim>\<open>size_t\<close>.\<close>

definition kNoSlot :: u64 where "kNoSlot = - 1"

definition GatewayLinkSession_new :: GatewayLinkSession where
  "GatewayLinkSession_new =
     \<lparr>gl_slot_id = kNoSlot, gl_generation = 0, gl_state = Invalid, gl_send_que = [], gl_send_dropped = 0,
      gl_is_writing = False, gl_writer = NoWriter, gl_accepted = [], gl_written = [], gl_notified = 0\<rparr>"

definition BindSlot :: "u64 \<Rightarrow> u64 \<Rightarrow> GatewayLinkSession \<Rightarrow> GatewayLinkSession" where
  "BindSlot slot_id generation s = s\<lparr>gl_slot_id := slot_id, gl_generation := generation\<rparr>"

definition Link_Start :: "GatewayLinkSession \<Rightarrow> GatewayLinkSession" where
  "Link_Start s = s\<lparr>gl_state := Conected\<rparr>"

definition is_closing :: "GatewayLinkSession \<Rightarrow> bool" where
  "is_closing s \<longleftrightarrow> gl_state s = Closing"

definition IsAvailable :: "GatewayLinkSession \<Rightarrow> bool" where
  "IsAvailable s \<longleftrightarrow> gl_state s = Conected"

text \<open>\<^verbatim>\<open>Close\<close>: the queue is dropped and the owner told, once. (What the owner does, \<^verbatim>\<open>OnSessionClosed\<close>,
  is part of the network shard.)\<close>

definition Link_Close :: "GatewayLinkSession \<Rightarrow> GatewayLinkSession" where
  "Link_Close s =
     (if gl_state s = Closing \<or> gl_state s = Closed then s
      else s\<lparr>gl_is_writing := False, gl_send_que := [], gl_state := Closed,
             gl_notified := gl_notified s + (if gl_slot_id s = kNoSlot then 0 else 1)\<rparr>)"

text \<open>One turn of the writer: take the oldest packet and start writing it, or end.\<close>

definition write_turn :: "GatewayLinkSession \<Rightarrow> GatewayLinkSession" where
  "write_turn s =
     (case gl_send_que s of
        node # rest \<Rightarrow>
          if gl_state s \<noteq> Closing \<and> gl_state s \<noteq> Closed
          then s\<lparr>gl_send_que := rest, gl_writer := Writing node, gl_written := gl_written s @ [node]\<rparr>
          else s\<lparr>gl_is_writing := False, gl_writer := NoWriter\<rparr>
      | [] \<Rightarrow> s\<lparr>gl_is_writing := False, gl_writer := NoWriter\<rparr>)"

text \<open>A write that failed.\<close>

definition write_error :: "GatewayLinkSession \<Rightarrow> GatewayLinkSession" where
  "write_error s = Link_Close (s\<lparr>gl_is_writing := False, gl_writer := NoWriter\<rparr>)"

text \<open>\<^verbatim>\<open>PostSend\<close>: a full queue loses its oldest packet; a writer is spawned when none is running.\<close>

definition PostSend :: "SendNode \<Rightarrow> GatewayLinkSession \<Rightarrow> GatewayLinkSession" where
  "PostSend node s =
     (if is_closing s \<or> gl_state s = Closed then s
      else
        let s = (if kMaxSendQueueDepth \<le> length (gl_send_que s)
                 then s\<lparr>gl_send_que := tl (gl_send_que s), gl_send_dropped := gl_send_dropped s + 1\<rparr>
                 else s);
            s = s\<lparr>gl_send_que := gl_send_que s @ [node], gl_accepted := gl_accepted s @ [node]\<rparr>
        in if gl_is_writing s then s
           else s\<lparr>gl_is_writing := True, gl_writer := Spawned\<rparr>)"

subsection \<open>Events\<close>

text \<open>What can happen to a link between two events of its thread.\<close>

inductive link_step :: "GatewayLinkSession \<Rightarrow> GatewayLinkSession \<Rightarrow> bool" where
  ev_start: "gl_state s = Invalid \<Longrightarrow> link_step s (Link_Start s)"
| ev_post: "link_step s (PostSend node s)"
| ev_writer: "gl_writer s \<noteq> NoWriter \<Longrightarrow> link_step s (write_turn s)"
| ev_write_error: "gl_writer s = Writing node \<Longrightarrow> link_step s (write_error s)"
| ev_close: "link_step s (Link_Close s)"

inductive link_reachable :: "GatewayLinkSession \<Rightarrow> bool" where
  link_init: "slot_id \<noteq> kNoSlot \<Longrightarrow> link_reachable (BindSlot slot_id generation GatewayLinkSession_new)"
| link_next: "link_reachable s \<Longrightarrow> link_step s t \<Longrightarrow> link_reachable t"

text \<open>
  The invariant: the queue is bounded; what was written and what is queued is a subsequence, in
  order, of what was accepted, and the drop counter counts the difference; while the link is open a
  non-empty queue has exactly one writer; a closed link has told its owner exactly once and holds
  nothing.
\<close>

definition link_inv :: "GatewayLinkSession \<Rightarrow> bool" where
  "link_inv s \<longleftrightarrow>
     length (gl_send_que s) \<le> kMaxSendQueueDepth \<and>
     subseq (gl_written s @ gl_send_que s) (gl_accepted s) \<and>
     gl_state s \<noteq> Closing \<and> gl_slot_id s \<noteq> kNoSlot \<and>
     (if gl_state s = Closed then gl_send_que s = [] \<and> gl_notified s = 1 \<and> \<not> gl_is_writing s
      else gl_notified s = 0 \<and> (gl_is_writing s \<longleftrightarrow> gl_writer s \<noteq> NoWriter) \<and>
        (gl_send_que s \<noteq> [] \<longrightarrow> gl_is_writing s) \<and>
        gl_send_dropped s =
          of_nat (length (gl_accepted s)) - of_nat (length (gl_written s @ gl_send_que s)))"

lemma link_inv_init: "slot_id \<noteq> kNoSlot \<Longrightarrow> link_inv (BindSlot slot_id generation GatewayLinkSession_new)"
  by (simp add: link_inv_def BindSlot_def GatewayLinkSession_new_def)

lemma link_inv_PostSend:
  assumes "link_inv s"
  shows "link_inv (PostSend node s)"
proof (cases "gl_state s = Closed")
  case True
  then show ?thesis using assms by (simp add: PostSend_def)
next
  case False
  have app: "subseq (gl_written s @ gl_send_que s @ [node]) (gl_accepted s @ [node])"
    using assms list_emb_append_mono [of "(=)" "gl_written s @ gl_send_que s" "gl_accepted s" "[node]" "[node]"]
    by (simp add: link_inv_def)
  show ?thesis
  proof (cases "kMaxSendQueueDepth \<le> length (gl_send_que s)")
    case True
    have "gl_send_que s \<noteq> []" using True by (auto simp: kMaxSendQueueDepth_def)
    then show ?thesis
      using assms False True subseq_push(1) [of "gl_written s" "gl_send_que s" "gl_accepted s" node]
      by (auto simp: PostSend_def link_inv_def is_closing_def Let_def kMaxSendQueueDepth_def)
  next
    case no: False
    then show ?thesis
      using assms False app
      by (auto simp: PostSend_def link_inv_def is_closing_def Let_def)
  qed
qed

lemma link_inv_write_turn: "link_inv s \<Longrightarrow> gl_writer s \<noteq> NoWriter \<Longrightarrow> link_inv (write_turn s)"
  by (auto simp: link_inv_def write_turn_def split: list.splits)

lemma link_inv_Close:
  assumes "link_inv s"
  shows "link_inv (Link_Close s)" and "link_inv (write_error s)"
proof -
  have "subseq (gl_written s) (gl_accepted s)"
    using assms prefix_imp_subseq [of "gl_written s" "gl_written s @ gl_send_que s"]
    by (auto simp: link_inv_def intro: subseq_order.trans)
  then show "link_inv (Link_Close s)" and "link_inv (write_error s)"
    using assms by (auto simp: link_inv_def Link_Close_def write_error_def)
qed

lemma link_inv_step: "link_step s t \<Longrightarrow> link_inv s \<Longrightarrow> link_inv t"
  by (induction rule: link_step.induct)
     (auto simp: link_inv_PostSend link_inv_write_turn link_inv_Close,
      auto simp: link_inv_def Link_Start_def)

lemma link_reachable_inv: "link_reachable s \<Longrightarrow> link_inv s"
  by (induction rule: link_reachable.induct) (auto intro: link_inv_init link_inv_step)

subsection \<open>The link implements the send queue\<close>

definition link_queue :: "GatewayLinkSession \<Rightarrow> sendq" where
  "link_queue s =
     \<lparr>sq_que = gl_send_que s, sq_accepted = gl_accepted s, sq_written = gl_written s,
      sq_dropped = gl_send_dropped s, sq_discarded = (gl_state s = Closed)\<rparr>"

definition link_fresh :: "GatewayLinkSession \<Rightarrow> bool" where
  "link_fresh s \<longleftrightarrow> (\<exists>slot_id generation. slot_id \<noteq> kNoSlot \<and> s = BindSlot slot_id generation GatewayLinkSession_new)"

definition link_open :: "GatewayLinkSession \<Rightarrow> bool" where
  "link_open s \<longleftrightarrow> gl_state s \<noteq> Closing \<and> gl_state s \<noteq> Closed"

definition link_idle :: "GatewayLinkSession \<Rightarrow> bool" where
  "link_idle s \<longleftrightarrow> gl_writer s = NoWriter \<and> \<not> gl_is_writing s"

lemma link_queue_simps [simp]:
  "sq_que (link_queue s) = gl_send_que s" "sq_discarded (link_queue s) \<longleftrightarrow> gl_state s = Closed"
  by (simp_all add: link_queue_def)

lemma link_queue_PostSend: "link_open s \<Longrightarrow> link_queue (PostSend node s) = sq_push node (link_queue s)"
  by (simp add: link_queue_def PostSend_def sq_push_def link_open_def is_closing_def Let_def)

lemma link_queue_PostSend_closed: "\<not> link_open s \<Longrightarrow> PostSend node s = s"
  by (auto simp: PostSend_def link_open_def is_closing_def)

lemma link_queue_turn:
  "link_open s \<Longrightarrow> gl_send_que s \<noteq> [] \<Longrightarrow> link_open (write_turn s) \<and> link_queue (write_turn s) = sq_take (link_queue s)"
  "\<not> link_open s \<or> gl_send_que s = [] \<Longrightarrow> link_idle (write_turn s) \<and> link_queue (write_turn s) = link_queue s"
  by (auto simp: link_queue_def write_turn_def sq_take_def link_open_def link_idle_def split: list.splits)

lemma link_queue_Close:
  "link_queue (Link_Close s) = link_queue s \<or> link_queue (Link_Close s) = sq_discard (link_queue s)"
  by (simp add: link_queue_def Link_Close_def sq_discard_def)

lemma link_queue_event:
  assumes "link_step s t"
  shows "sendq_step\<^sup>*\<^sup>* (link_queue s) (link_queue t)"
  using assms
proof cases
  case ev_start
  then show ?thesis by (simp add: link_queue_def Link_Start_def)
next
  case (ev_post node)
  then show ?thesis
    using sendq_push [of "link_queue s" node]
    by (cases "link_open s") (auto simp: link_queue_PostSend link_queue_PostSend_closed link_open_def)
next
  case ev_writer
  then show ?thesis
    using link_queue_turn [of s] sendq_take [of "link_queue s"]
    by (cases "link_open s \<and> gl_send_que s \<noteq> []") auto
next
  case (ev_write_error node)
  let ?s = "s\<lparr>gl_is_writing := False, gl_writer := NoWriter\<rparr>"
  have "link_queue ?s = link_queue s" by (simp add: link_queue_def)
  then show ?thesis
    using ev_write_error link_queue_Close [of ?s] sendq_discard [of "link_queue s"]
    by (auto simp: write_error_def)
next
  case ev_close
  then show ?thesis using link_queue_Close [of s] sendq_discard [of "link_queue s"] by auto
qed

interpretation gateway_link: armed_writer link_queue link_fresh link_step write_turn link_open link_idle link_inv
proof
  show "link_queue s = sendq_empty" if "link_fresh s" for s
    using that
    by (auto simp: link_fresh_def link_queue_def BindSlot_def GatewayLinkSession_new_def sendq_empty_def)
  show "link_inv s" if "link_fresh s" for s
    using that by (auto simp: link_fresh_def intro: link_inv_init)
  show "sq_que (link_queue s) = []" if "link_inv s" "link_open s" "link_idle s" for s
    using that by (auto simp: link_inv_def link_open_def link_idle_def)
qed (use link_queue_event link_queue_turn link_inv_step in auto)

end
