(* ===== verification/NetworkShard.thy ===== *)
theory NetworkShard
  imports LogicShard LinkSession
begin

text \<open>
  A network shard (\<^verbatim>\<open>NetworkShard.cc\<close>): a fixed array of link slots, each with a generation that
  grows whenever the slot is reused, the inbound dispatch to the logic shards and the outbound
  delivery to the links. Routes handed to the logic shards name slot and generation, so that what is
  meant for an earlier link in the same slot is recognised as stale.
\<close>

subsection \<open>State\<close>

datatype SlotState = SlotEmpty | SlotAccepting | SlotConnected | SlotClosing | SlotClosed

record GatewayLinkSlot =
  sl_state :: SlotState
  sl_link_id :: u32
  sl_generation :: u64
  sl_session :: "GatewayLinkSession option"

record NetworkShard =
  ns_shard_id :: u32
  ns_slots :: "GatewayLinkSlot list"
  ns_next_logic_idx :: u64
  ns_stopping :: bool

definition GatewayLinkSlot_default :: GatewayLinkSlot where
  "GatewayLinkSlot_default =
     \<lparr>sl_state = SlotEmpty, sl_link_id = 0, sl_generation = 0, sl_session = None\<rparr>"

definition NetworkShard_new :: "u32 \<Rightarrow> nat \<Rightarrow> NetworkShard" where
  "NetworkShard_new shard_id max_links =
     \<lparr>ns_shard_id = shard_id, ns_slots = replicate max_links GatewayLinkSlot_default,
      ns_next_logic_idx = 0, ns_stopping = True\<rparr>"

datatype net_effect = PostToLogic u32 LogicTask

definition set_slot :: "nat \<Rightarrow> GatewayLinkSlot \<Rightarrow> NetworkShard \<Rightarrow> NetworkShard" where
  "set_slot i slot n = n\<lparr>ns_slots := (ns_slots n)[i := slot]\<rparr>"

subsection \<open>Links\<close>

definition slot_available :: "GatewayLinkSlot \<Rightarrow> bool" where
  "slot_available slot \<longleftrightarrow> sl_state slot = SlotEmpty \<or> sl_state slot = SlotClosed"

definition FindAvailableSlot :: "NetworkShard \<Rightarrow> nat option" where
  "FindAvailableSlot n =
     (case filter (\<lambda>i. slot_available (ns_slots n ! i)) [0..<length (ns_slots n)] of
        [] \<Rightarrow> None | i # _ \<Rightarrow> Some i)"

text \<open>\<^verbatim>\<open>DoAccept\<close> up to \<^verbatim>\<open>async_accept\<close>: the slot that waits for a connection, if there is one.\<close>

definition DoAccept :: "NetworkShard \<Rightarrow> NetworkShard" where
  "DoAccept n =
     (if ns_stopping n then n
      else case FindAvailableSlot n of
        None \<Rightarrow> n
      | Some i \<Rightarrow>
          let slot = ns_slots n ! i;
              generation = sl_generation slot + 1
          in set_slot i (slot\<lparr>sl_generation := generation, sl_link_id := of_nat i,
               sl_state := SlotAccepting,
               sl_session := Some (BindSlot (of_nat i) generation GatewayLinkSession_new)\<rparr>) n)"

text \<open>The completion handler of \<^verbatim>\<open>async_accept\<close>, for the slot and generation it was started with: what
  it does to the slot, then the next \<^verbatim>\<open>DoAccept\<close>. (The \<^verbatim>\<open>Close\<close> of a session that is released at once has
  no further effect.)\<close>

definition accept_slot :: "nat \<Rightarrow> u64 \<Rightarrow> accept_result \<Rightarrow> NetworkShard \<Rightarrow> NetworkShard" where
  "accept_slot i gen result n =
     (let slot = ns_slots n ! i
      in if result \<noteq> Accepted then
           if sl_generation slot = gen
           then set_slot i (slot\<lparr>sl_session := None, sl_state := SlotClosed\<rparr>) n
           else n
         else if sl_generation slot = gen \<and> sl_state slot = SlotAccepting \<and> sl_session slot \<noteq> None
         then set_slot i (slot\<lparr>sl_state := SlotConnected,
                sl_session := map_option Link_Start (sl_session slot)\<rparr>) n
         else n)"

definition on_accept :: "nat \<Rightarrow> u64 \<Rightarrow> accept_result \<Rightarrow> NetworkShard \<Rightarrow> NetworkShard" where
  "on_accept i gen result n =
     (let n = accept_slot i gen result n
      in if result = AcceptAborted \<or> ns_stopping n then n else DoAccept n)"

definition OnSessionClosed :: "nat \<Rightarrow> u64 \<Rightarrow> NetworkShard \<Rightarrow> NetworkShard" where
  "OnSessionClosed slot_id generation n =
     (if length (ns_slots n) \<le> slot_id then n
      else
        let slot = ns_slots n ! slot_id
        in if sl_generation slot \<noteq> generation then n
           else set_slot slot_id (slot\<lparr>sl_state := SlotClosed, sl_session := None\<rparr>) n)"

text \<open>\<^verbatim>\<open>NotifyOwnerClosed\<close> of a session in a slot.\<close>

definition NotifyOwnerClosed :: "GatewayLinkSession \<Rightarrow> NetworkShard \<Rightarrow> NetworkShard" where
  "NotifyOwnerClosed s n =
     (if gl_slot_id s = kNoSlot then n else OnSessionClosed (unat (gl_slot_id s)) (gl_generation s) n)"

text \<open>\<^verbatim>\<open>Start\<close> opens the acceptor and begins to accept; \<^verbatim>\<open>Stop\<close> closes and releases every session. A shard
  accepts exactly while it is not stopping, so the acceptor needs no field of its own.\<close>

definition NetworkShard_Start :: "NetworkShard \<Rightarrow> NetworkShard" where
  "NetworkShard_Start n = DoAccept (n\<lparr>ns_stopping := False\<rparr>)"

definition NetworkShard_Stop :: "NetworkShard \<Rightarrow> NetworkShard" where
  "NetworkShard_Stop n =
     (if ns_stopping n then n
      else n\<lparr>ns_stopping := True,
             ns_slots := map (\<lambda>slot. slot\<lparr>sl_session := None, sl_state := SlotClosed\<rparr>) (ns_slots n)\<rparr>)"

subsection \<open>Outbound\<close>

definition BuildGameToGatewayEnvelope :: "codec \<Rightarrow> NetworkTask \<Rightarrow> u64 list \<Rightarrow> SendNode option" where
  "BuildGameToGatewayEnvelope c task target_uids =
     map_option (\<lambda>payload. SendNode_new payload GameToGateEnvelope kPacketFlagNone)
       (cd_serialize c (GameToGateMsg target_uids (nk_msg_id task) (nk_seq task)
          (ExtractPacketPayload (Some (nk_body task)))))"

definition can_send :: "GatewayLinkSlot \<Rightarrow> bool" where
  "can_send slot \<longleftrightarrow> sl_state slot = SlotConnected \<and>
     (case sl_session slot of None \<Rightarrow> False | Some session \<Rightarrow> IsAvailable session)"

definition post_to_slot :: "nat \<Rightarrow> SendNode \<Rightarrow> NetworkShard \<Rightarrow> NetworkShard" where
  "post_to_slot i packet n =
     (let slot = ns_slots n ! i
      in set_slot i (slot\<lparr>sl_session := map_option (PostSend packet) (sl_session slot)\<rparr>) n)"

definition send_target :: "codec \<Rightarrow> NetworkTask \<Rightarrow> NetworkSendTarget \<Rightarrow> NetworkShard \<Rightarrow> NetworkShard" where
  "send_target c task tgt n =
     (let i = unat (nt_link_id tgt)
      in if length (ns_slots n) \<le> i then n
         else
           let slot = ns_slots n ! i
           in if sl_generation slot \<noteq> nt_generation tgt \<or> \<not> can_send slot then n
              else case BuildGameToGatewayEnvelope c task (nt_uids tgt) of
                     None \<Rightarrow> n
                   | Some packet \<Rightarrow> post_to_slot i packet n)"

definition HandleNetworkTask :: "codec \<Rightarrow> NetworkTask \<Rightarrow> NetworkShard \<Rightarrow> NetworkShard" where
  "HandleNetworkTask c task n =
     (if ns_stopping n then n else fold (send_target c task) (nk_targets task) n)"

definition SendToGatewayLink :: "u32 \<Rightarrow> SendNode \<Rightarrow> NetworkShard \<Rightarrow> NetworkShard" where
  "SendToGatewayLink link_id packet n =
     (let i = unat link_id
      in if length (ns_slots n) \<le> i then n
         else if \<not> can_send (ns_slots n ! i) then n
         else post_to_slot i packet n)"

subsection \<open>Inbound\<close>

definition ParseGateToGameEnvelope :: "codec \<Rightarrow> byte list \<Rightarrow> Envelope option" where
  "ParseGateToGameEnvelope c body =
     (case ParseProtoFromBytes (cd_envelope c) body of
        None \<Rightarrow> None
      | Some envelope \<Rightarrow> if ge_inner_msg_id envelope = 0 then None else Some envelope)"

definition PickLogicShard :: "u64 \<Rightarrow> NetworkShard \<Rightarrow> u32 \<times> NetworkShard" where
  "PickLogicShard logic_count n =
     (if logic_count = 0 then (0, n)
      else (ucast (ns_next_logic_idx n mod logic_count),
            n\<lparr>ns_next_logic_idx := ns_next_logic_idx n + 1\<rparr>))"

definition ResolveLogicShard ::
  "codec \<Rightarrow> u64 \<Rightarrow> MsgId \<Rightarrow> Envelope \<Rightarrow> NetworkShard \<Rightarrow> u32 \<times> NetworkShard" where
  "ResolveLogicShard c logic_count msg_id envelope n =
     (if logic_count = 0 then (0, n)
      else if msg_id = CreateRoomReq then PickLogicShard logic_count n
      else
        let room_id = (if ge_room_id envelope = 0
                       then case ParseProtoFromBytes (cd_route_hint c) (ge_payload envelope) of
                              None \<Rightarrow> 0 | Some hint \<Rightarrow> hint
                       else ge_room_id envelope)
        in if room_id \<noteq> 0 then (ucast (room_id mod logic_count), n) else (0, n))"

definition MakeRoute :: "u32 \<Rightarrow> NetworkShard \<Rightarrow> GatewayRoute" where
  "MakeRoute link_id n =
     \<lparr>gr_net_shard = ns_shard_id n, gr_link_id = link_id,
      gr_generation = (if unat link_id < length (ns_slots n)
                       then sl_generation (ns_slots n ! unat link_id) else 0)\<rparr>"

definition ForwardToLogic ::
  "codec \<Rightarrow> u64 \<Rightarrow> u32 \<Rightarrow> MsgId \<Rightarrow> u64 \<Rightarrow> byte list \<Rightarrow> NetworkShard \<Rightarrow> net_effect list \<times> NetworkShard" where
  "ForwardToLogic c logic_count link_id msg_id seq body n =
     (case ParseGateToGameEnvelope c body of
        None \<Rightarrow> ([], n)
      | Some envelope \<Rightarrow>
          if ge_uid envelope = 0 then ([], n)
          else if logic_count = 0 then ([], n)
          else
            let (logic_shard_id, n) = ResolveLogicShard c logic_count msg_id envelope n
            in ([PostToLogic logic_shard_id
                  \<lparr>lt_msg_id = msg_id, lt_uid = ge_uid envelope, lt_seq = seq,
                   lt_origin = MakeRoute link_id n, lt_body = body\<rparr>], n))"

definition NetHandlePingReq ::
  "codec \<Rightarrow> u64 \<Rightarrow> u32 \<Rightarrow> byte list \<Rightarrow> NetworkShard \<Rightarrow> NetworkShard" where
  "NetHandlePingReq c now_unix_ms link_id body n =
     (case ParseProtoFromBytes (cd_ping c) body of
        None \<Rightarrow> n
      | Some client_time_ms \<Rightarrow>
          (case cd_serialize c (PongMsg client_time_ms now_unix_ms) of
             None \<Rightarrow> n
           | Some payload \<Rightarrow> SendToGatewayLink link_id (SendNode_new payload PongRsp kPacketFlagNone) n))"

text \<open>The fan-out of a disconnect: which logic shard holds the player's room is not known here.\<close>

definition NetHandleClientDisconnected :: "codec \<Rightarrow> u64 \<Rightarrow> byte list \<Rightarrow> net_effect list" where
  "NetHandleClientDisconnected c logic_count body =
     (case ParseProtoFromBytes (cd_disconnected c) body of
        None \<Rightarrow> []
      | Some uid \<Rightarrow>
          if uid = 0 then []
          else map (\<lambda>i. PostToLogic (of_nat i)
                      \<lparr>lt_msg_id = ClientDisconnectedNtf, lt_uid = 0, lt_seq = 0,
                       lt_origin = \<lparr>gr_net_shard = 0, gr_link_id = 0, gr_generation = 0\<rparr>,
                       lt_body = body\<rparr>) [0..<unat logic_count])"

definition forwarded_ids :: "MsgId list" where
  "forwarded_ids = [CreateRoomReq, JoinRoomReq, LeaveRoomReq, PlayerReadyReq, EnterBattleReq, MoveCmd,
     AttackCmd, SkillCmd, HarvestCmd, StoreResourceCmd, PickupResourceCmd, BuildCmd, ConstructCmd,
     TrainUnitCmd, StopCmd]"

definition OnPacket ::
  "codec \<Rightarrow> u64 \<Rightarrow> u64 \<Rightarrow> u32 \<Rightarrow> MsgId \<Rightarrow> u64 \<Rightarrow> byte list \<Rightarrow> NetworkShard \<Rightarrow>
   net_effect list \<times> NetworkShard" where
  "OnPacket c logic_count now_unix_ms link_id msg_id seq body n =
     (if ns_stopping n then ([], n)
      else
        let inner = (if msg_id = GateToGameEnvelope
                     then map_option (\<lambda>env. (ucast (ge_inner_msg_id env), ge_client_seq env))
                            (ParseGateToGameEnvelope c body)
                     else Some (msg_id, seq))
        in case inner of
             None \<Rightarrow> ([], n)
           | Some (dispatch_msg_id, dispatch_seq) \<Rightarrow>
               if dispatch_msg_id = GateLinkHello then ([], n)
               else if dispatch_msg_id = PingReq then ([], NetHandlePingReq c now_unix_ms link_id body n)
               else if dispatch_msg_id = ClientDisconnectedNtf
               then (NetHandleClientDisconnected c logic_count body, n)
               else if dispatch_msg_id \<in> set forwarded_ids
               then ForwardToLogic c logic_count link_id dispatch_msg_id dispatch_seq body n
               else ([], n))"

end
