(* ===== verification/Delivery.thy ===== *)
theory Delivery
  imports ShardInvariants NetworkShard
begin

text \<open>
  The way of a message between logic and network shards: how \<^verbatim>\<open>SendToPlayers\<close> groups its receivers by
  link, which link sessions a network task reaches, and to which logic shard an inbound request is
  forwarded.
\<close>

subsection \<open>Grouping by link\<close>

definition lookup :: "grouped \<Rightarrow> u32 \<Rightarrow> u32 \<Rightarrow> NetworkSendTarget option" where
  "lookup g net link = (case um_find g net of None \<Rightarrow> None | Some links \<Rightarrow> um_find links link)"

definition routed :: "(u64, GatewayRoute) umap \<Rightarrow> u32 \<Rightarrow> u32 \<Rightarrow> u64 \<Rightarrow> bool" where
  "routed routes net link uid \<longleftrightarrow>
     (case um_find routes uid of None \<Rightarrow> False
      | Some r \<Rightarrow> gr_net_shard r = net \<and> gr_link_id r = link)"

definition route_generation :: "(u64, GatewayRoute) umap \<Rightarrow> u64 \<Rightarrow> u64" where
  "route_generation routes uid = (case um_find routes uid of None \<Rightarrow> 0 | Some r \<Rightarrow> gr_generation r)"

lemma lookup_add_target:
  "lookup (add_target routes uid g) net link =
     (if routed routes net link uid
      then Some \<lparr>nt_link_id = link, nt_generation = route_generation routes uid,
                 nt_uids = (case lookup g net link of None \<Rightarrow> [] | Some t \<Rightarrow> nt_uids t) @ [uid]\<rparr>
      else lookup g net link)"
  by (auto simp: lookup_def add_target_def routed_def route_generation_def Let_def split: option.splits)

text \<open>A link gets the receivers routed to it, in order, with the generation of the last one.\<close>

lemma lookup_group:
  "lookup (fold (add_target routes) uids []) net link =
     (let us = filter (routed routes net link) uids
      in if us = [] then None
         else Some \<lparr>nt_link_id = link, nt_generation = route_generation routes (last us), nt_uids = us\<rparr>)"
proof (induction uids rule: rev_induct)
  case Nil
  then show ?case by (simp add: lookup_def)
next
  case (snoc uid uids)
  then show ?case by (auto simp: lookup_add_target Let_def)
qed

subsection \<open>Delivery to a slot\<close>

lemma length_send_target [simp]: "length (ns_slots (send_target c task tgt n)) = length (ns_slots n)"
  by (simp add: send_target_def post_to_slot_def set_slot_def Let_def split: option.split)

lemma send_target_other:
  "unat (nt_link_id tgt) \<noteq> i \<or> nt_generation tgt \<noteq> sl_generation (ns_slots n ! i) \<Longrightarrow>
     ns_slots (send_target c task tgt n) ! i = ns_slots n ! i"
  by (auto simp: send_target_def post_to_slot_def set_slot_def Let_def nth_list_update split: option.split)

lemma send_target_generation [simp]:
  "sl_generation (ns_slots (send_target c task tgt n) ! i) = sl_generation (ns_slots n ! i)"
  by (cases "i < length (ns_slots n)")
     (auto simp: send_target_def post_to_slot_def set_slot_def Let_def nth_list_update split: option.split)

lemma fold_send_target_stale:
  assumes "\<And>t. t \<in> set targets \<Longrightarrow> unat (nt_link_id t) = i \<Longrightarrow>
      nt_generation t \<noteq> sl_generation (ns_slots n ! i)"
  shows "ns_slots (fold (send_target c task) targets n) ! i = ns_slots n ! i"
  using assms
proof (induction targets arbitrary: n)
  case (Cons t targets)
  have "ns_slots (send_target c task t n) ! i = ns_slots n ! i"
    using Cons.prems [of t] by (intro send_target_other) auto
  then show ?case using Cons.IH [of "send_target c task t n"] Cons.prems by simp
qed simp

lemma HandleNetworkTask_stale:
  assumes "\<And>t. t \<in> set (nk_targets task) \<Longrightarrow> unat (nt_link_id t) = i \<Longrightarrow>
      nt_generation t \<noteq> sl_generation (ns_slots n ! i)"
  shows "ns_slots (HandleNetworkTask c task n) ! i = ns_slots n ! i"
  using fold_send_target_stale [OF assms] by (simp add: HandleNetworkTask_def)

text \<open>A target with the slot's generation reaches an open session.\<close>

lemma fold_send_target_hit:
  assumes "i < length (ns_slots n)" and "can_send (ns_slots n ! i)" and "sl_session (ns_slots n ! i) = Some s"
    and "distinct (map nt_link_id targets)" and "tgt \<in> set targets" and "unat (nt_link_id tgt) = i"
    and "nt_generation tgt = sl_generation (ns_slots n ! i)"
    and "BuildGameToGatewayEnvelope c task (nt_uids tgt) = Some packet"
  shows "sl_session (ns_slots (fold (send_target c task) targets n) ! i) = Some (PostSend packet s)"
  using assms
proof (induction targets arbitrary: n)
  case (Cons t targets)
  show ?case
  proof (cases "t = tgt")
    case True
    have "unat (nt_link_id u) \<noteq> i" if "u \<in> set targets" for u
      using that Cons.prems(4,6) True by (auto simp: word_unat_eq_iff image_iff)
    then have "ns_slots (fold (send_target c task) (t # targets) n) ! i = ns_slots (send_target c task t n) ! i"
      using fold_send_target_stale [of targets i "send_target c task t n"] by simp
    moreover have "sl_session (ns_slots (send_target c task t n) ! i) = Some (PostSend packet s)"
      using True Cons.prems by (auto simp: send_target_def post_to_slot_def set_slot_def Let_def)
    ultimately show ?thesis by simp
  next
    case False
    then have "tgt \<in> set targets" using Cons.prems(5) by simp
    then have "unat (nt_link_id t) \<noteq> i" using Cons.prems(4,6) by (auto simp: word_unat_eq_iff image_iff)
    then have "ns_slots (send_target c task t n) ! i = ns_slots n ! i" by (intro send_target_other) simp
    then show ?thesis using Cons \<open>tgt \<in> set targets\<close> by simp
  qed
qed simp

subsection \<open>Routing requests to rooms\<close>

lemma ResolveLogicShard_room:
  assumes "msg_id \<noteq> CreateRoomReq" and "ge_room_id envelope = room_id" and "room_id \<noteq> 0" and "0 < shards"
  shows "fst (ResolveLogicShard c shards msg_id envelope n) = ucast (room_id mod shards)"
  using assms by (auto simp: ResolveLogicShard_def)

lemma ResolveLogicShard_home:
  assumes "room_ids_ok s" and "room_id \<in> set (um_keys (ls_rooms s))" and "room_id \<noteq> 0"
    and "msg_id \<noteq> CreateRoomReq" and "ge_room_id envelope = room_id"
  shows "fst (ResolveLogicShard c (ls_shard_count s) msg_id envelope n) = ls_shard_id s"
proof -
  have m: "unat room_id mod unat (ls_shard_count s) = unat (ls_shard_id s)"
    and pos: "0 < ls_shard_count s"
    using assms(1,2) by (auto simp: room_ids_ok_def word_less_nat_alt)
  have "unat (ucast (room_id mod ls_shard_count s) :: u32) = unat (ls_shard_id s)"
    using m unsigned_less [of "ls_shard_id s", where ?'a = nat]
    by (simp add: unsigned_ucast_eq unat_mod_distrib take_bit_nat_eq_self)
  then show ?thesis
    using ResolveLogicShard_room [OF assms(4,5,3) pos] by (simp add: word_unat_eq_iff)
qed

end
