(* ===== verification/NetEvents.thy ===== *)
theory NetEvents
  imports Delivery
begin

text \<open>
  A network shard over time: the events of its thread as a step relation, the invariant that ties
  every slot to the session in it, and the meaning of the generations. A route that a logic shard
  keeps can outlive its link; the invariants show that it never reaches a later link of the slot.
\<close>

subsection \<open>Events\<close>

text \<open>An event of the session in slot \<open>i\<close>, whose new state is \<open>s\<close>: a session that closed tells its shard.\<close>

definition link_event :: "nat \<Rightarrow> GatewayLinkSession \<Rightarrow> NetworkShard \<Rightarrow> NetworkShard" where
  "link_event i s n =
     (let n = set_slot i ((ns_slots n ! i)\<lparr>sl_session := Some s\<rparr>) n
      in if gl_state s = Closed then NotifyOwnerClosed s n else n)"

inductive net_step :: "NetworkShard \<Rightarrow> NetworkShard \<Rightarrow> bool" where
  net_start: "ns_stopping n \<Longrightarrow> net_step n (NetworkShard_Start n)"
| net_accept: "i < length (ns_slots n) \<Longrightarrow> net_step n (on_accept i gen result n)"
| net_retry: "net_step n (DoAccept n)"
| net_link: "i < length (ns_slots n) \<Longrightarrow> sl_state (ns_slots n ! i) = SlotConnected \<Longrightarrow>
    sl_session (ns_slots n ! i) = Some s \<Longrightarrow> link_step s t \<Longrightarrow> net_step n (link_event i t n)"
| net_task: "net_step n (HandleNetworkTask c task n)"
| net_packet: "net_step n (snd (OnPacket c logic_count now_unix_ms link_id msg_id seq body n))"
| net_stop: "net_step n (NetworkShard_Stop n)"

inductive net_run :: "nat \<Rightarrow> NetworkShard \<Rightarrow> NetworkShard \<Rightarrow> bool" where
  net_run_0: "net_run 0 n n"
| net_run_Suc: "net_run k n n' \<Longrightarrow> net_step n' n'' \<Longrightarrow> net_run (Suc k) n n''"

subsection \<open>Slots\<close>

definition slot_ok :: "nat \<Rightarrow> GatewayLinkSlot \<Rightarrow> bool" where
  "slot_ok i slot \<longleftrightarrow> i < 2 ^ 32 \<and>
     (case sl_session slot of
        None \<Rightarrow> sl_state slot = SlotEmpty \<or> sl_state slot = SlotClosed
      | Some s \<Rightarrow>
          gl_slot_id s = of_nat i \<and> gl_generation s = sl_generation slot \<and> link_inv s \<and>
          (sl_state slot = SlotAccepting \<and> gl_state s = Invalid \<or>
           sl_state slot = SlotConnected \<and> gl_state s = Conected))"

definition net_ok :: "NetworkShard \<Rightarrow> bool" where
  "net_ok n \<longleftrightarrow> (\<forall>i < length (ns_slots n). slot_ok i (ns_slots n ! i))"

text \<open>After at most \<open>k\<close> reuses of a slot: the generation has grown by at most \<open>k\<close>, and if it is still
  the same, the session in the slot, if any, is the old one, some events later.\<close>

definition slot_later :: "nat \<Rightarrow> GatewayLinkSlot \<Rightarrow> GatewayLinkSlot \<Rightarrow> bool" where
  "slot_later k a b \<longleftrightarrow>
     (unat (sl_generation a) + k < 2 ^ 64 \<longrightarrow>
        unat (sl_generation a) \<le> unat (sl_generation b) \<and>
        unat (sl_generation b) \<le> unat (sl_generation a) + k \<and>
        (sl_generation b = sl_generation a \<longrightarrow>
           (case sl_session b of
              None \<Rightarrow> True
            | Some t \<Rightarrow> \<exists>s. sl_session a = Some s \<and> link_step\<^sup>*\<^sup>* s t)))"

lemma slot_later_refl [simp]: "slot_later k a a"
  by (auto simp: slot_later_def split: option.split)

lemma slot_later_trans:
  assumes "slot_later j a b" and "slot_later k b c"
  shows "slot_later (j + k) a c"
proof (cases "unat (sl_generation a) + (j + k) < 2 ^ 64")
  case True
  then have ab: "unat (sl_generation a) \<le> unat (sl_generation b)"
      "unat (sl_generation b) \<le> unat (sl_generation a) + j"
    using assms(1) by (simp_all add: slot_later_def)
  then have bc: "unat (sl_generation b) \<le> unat (sl_generation c)"
      "unat (sl_generation c) \<le> unat (sl_generation b) + k"
    using assms(2) True by (simp_all add: slot_later_def)
  have "case sl_session c of None \<Rightarrow> True | Some t \<Rightarrow> \<exists>s. sl_session a = Some s \<and> link_step\<^sup>*\<^sup>* s t"
    if same: "sl_generation c = sl_generation a"
  proof -
    have "sl_generation b = sl_generation a" using same ab bc by (simp add: word_unat_eq_iff)
    then show ?thesis
      using assms ab bc True same
      by (auto simp: slot_later_def split: option.splits intro: rtranclp_trans)
  qed
  then show ?thesis using ab bc True by (simp add: slot_later_def)
qed (simp add: slot_later_def)

definition keeps :: "nat \<Rightarrow> NetworkShard \<Rightarrow> NetworkShard \<Rightarrow> bool" where
  "keeps k n n' \<longleftrightarrow>
     (net_ok n \<longrightarrow> net_ok n' \<and> length (ns_slots n') = length (ns_slots n) \<and>
        (\<forall>i < length (ns_slots n). slot_later k (ns_slots n ! i) (ns_slots n' ! i)))"

lemma keeps_same: "ns_slots n' = ns_slots n \<Longrightarrow> keeps k n n'"
  by (simp add: keeps_def net_ok_def)

lemma keeps_trans: "keeps j n n' \<Longrightarrow> keeps k n' n'' \<Longrightarrow> keeps (j + k) n n''"
  by (auto simp: keeps_def intro: slot_later_trans)

lemma slot_later_mono: "slot_later j a b \<Longrightarrow> j \<le> k \<Longrightarrow> slot_later k a b"
  by (auto simp: slot_later_def)

lemma keeps_mono: "keeps j n n' \<Longrightarrow> j \<le> k \<Longrightarrow> keeps k n n'"
  by (auto simp: keeps_def intro: slot_later_mono)

lemma keeps_set_slot:
  assumes "slot_ok i (ns_slots n ! i) \<Longrightarrow> slot_ok i slot" and "slot_later k (ns_slots n ! i) slot"
  shows "keeps k n (set_slot i slot n)"
  using assms
  by (cases "i < length (ns_slots n)") (auto simp: keeps_def net_ok_def set_slot_def nth_list_update)

lemma slot_later_session:
  assumes "sl_generation b = sl_generation a" and "sl_session a = Some s" and "link_step\<^sup>*\<^sup>* s t"
    and "sl_session b = Some t"
  shows "slot_later k a b"
  using assms by (simp add: slot_later_def)

lemma slot_later_closed:
  "sl_generation b = sl_generation a \<Longrightarrow> sl_session b = None \<Longrightarrow> slot_later k a b"
  by (simp add: slot_later_def)

lemma slot_later_reused:
  "sl_generation b = sl_generation a + 1 \<Longrightarrow> slot_later 1 a b"
proof (cases "unat (sl_generation a) + 1 < 2 ^ 64")
  case True
  moreover assume b: "sl_generation b = sl_generation a + 1"
  ultimately have "unat (sl_generation b) = unat (sl_generation a) + 1"
    by (simp add: unat_word_ariths)
  then show ?thesis by (auto simp: slot_later_def)
qed (simp add: slot_later_def)

subsection \<open>Every operation keeps the slots in order\<close>

lemma of_nat_slot: "i < 2 ^ 32 \<Longrightarrow> (of_nat i :: u64) \<noteq> kNoSlot"
  by (simp add: kNoSlot_def word_unat_eq_iff unat_of_nat unsigned_minus_1_eq_mask mask_eq_exp_minus_1)

lemma FindAvailableSlot_SomeD:
  assumes "FindAvailableSlot n = Some i"
  shows "i < length (ns_slots n) \<and> slot_available (ns_slots n ! i)"
proof -
  have "i \<in> set (filter (\<lambda>i. slot_available (ns_slots n ! i)) [0..<length (ns_slots n)])"
    using assms unfolding FindAvailableSlot_def by (auto split: list.splits simp del: set_filter)
  then show ?thesis by auto
qed

lemma keeps_DoAccept: "keeps 1 n (DoAccept n)"
proof (cases "ns_stopping n \<or> FindAvailableSlot n = None")
  case True
  then show ?thesis by (auto simp: DoAccept_def keeps_same)
next
  case False
  then obtain i where i: "FindAvailableSlot n = Some i" by blast
  define slot where "slot = (ns_slots n ! i)\<lparr>sl_generation := sl_generation (ns_slots n ! i) + 1,
    sl_link_id := of_nat i, sl_state := SlotAccepting,
    sl_session := Some (BindSlot (of_nat i) (sl_generation (ns_slots n ! i) + 1) GatewayLinkSession_new)\<rparr>"
  have "slot_ok i slot" if "i < 2 ^ 32"
    using that link_inv_init [OF of_nat_slot [OF that]]
    by (simp add: slot_def slot_ok_def BindSlot_def GatewayLinkSession_new_def)
  then have "keeps 1 n (set_slot i slot n)"
    by (intro keeps_set_slot slot_later_reused) (auto simp: slot_ok_def slot_def)
  then show ?thesis using False i by (simp add: DoAccept_def Let_def slot_def)
qed

lemma keeps_close:
  "keeps k n (set_slot i ((ns_slots n ! i)\<lparr>sl_state := SlotClosed, sl_session := None\<rparr>) n)"
  by (intro keeps_set_slot slot_later_closed) (auto simp: slot_ok_def)

lemma keeps_session:
  assumes "sl_session (ns_slots n ! i) = Some s" and "link_step s t"
    and "slot_ok i (ns_slots n ! i) \<Longrightarrow> slot_ok i slot"
    and "sl_session slot = Some t" and "sl_generation slot = sl_generation (ns_slots n ! i)"
  shows "keeps k n (set_slot i slot n)"
  using assms(1,2,4,5) by (intro keeps_set_slot assms(3) slot_later_session [where s = s and t = t]) auto

lemma keeps_accept_slot: "keeps 0 n (accept_slot i gen result n)"
proof -
  define slot where "slot = ns_slots n ! i"
  have start: "keeps 0 n (set_slot i (slot\<lparr>sl_state := SlotConnected, sl_session := Some (Link_Start s)\<rparr>) n)"
    if accepting: "sl_state slot = SlotAccepting" and s: "sl_session slot = Some s" for s
  proof (cases "slot_ok i slot")
    case True
    then have s': "link_inv s" "gl_state s = Invalid" using accepting s by (auto simp: slot_ok_def)
    then have step: "link_step s (Link_Start s)" by (intro ev_start)
    have "slot_ok i (slot\<lparr>sl_state := SlotConnected, sl_session := Some (Link_Start s)\<rparr>)"
      using True accepting s link_inv_step [OF step s'(1)] by (simp add: slot_ok_def Link_Start_def)
    then show ?thesis using s step by (intro keeps_session [where s = s]) (auto simp: slot_def)
  next
    case False
    then show ?thesis
      by (cases "i < length (ns_slots n)") (auto simp: keeps_def net_ok_def slot_def set_slot_def)
  qed
  have "keeps 0 n (set_slot i (slot\<lparr>sl_session := None, sl_state := SlotClosed\<rparr>) n)"
    by (intro keeps_set_slot slot_later_closed) (auto simp: slot_ok_def slot_def)
  then show ?thesis
    using start by (auto simp: accept_slot_def Let_def keeps_same slot_def [symmetric])
qed

lemma keeps_on_accept: "keeps 1 n (on_accept i gen result n)"
  using keeps_trans [OF keeps_accept_slot keeps_DoAccept] keeps_mono [OF keeps_accept_slot, where k = 1]
  by (simp add: on_accept_def Let_def)

lemma link_step_binding:
  "link_step s t \<Longrightarrow> gl_slot_id t = gl_slot_id s \<and> gl_generation t = gl_generation s"
  by (induction rule: link_step.induct)
     (auto simp: Link_Start_def PostSend_def write_turn_def write_error_def Link_Close_def Let_def
       split: list.splits)

lemma link_step_open:
  "link_step s t \<Longrightarrow> gl_state s = Conected \<Longrightarrow> gl_state t = Conected \<or> gl_state t = Closed"
  by (induction rule: link_step.induct)
     (auto simp: PostSend_def write_turn_def write_error_def Link_Close_def Let_def split: list.splits)

lemma slot_ok_open:
  assumes "slot_ok i slot" and "sl_session slot = Some s" and "link_step s t" and "gl_state t = Conected"
    and "sl_state slot = SlotConnected"
  shows "slot_ok i (slot\<lparr>sl_session := Some t\<rparr>)"
  using assms link_inv_step [OF assms(3)] link_step_binding [OF assms(3)] by (auto simp: slot_ok_def)

lemma keeps_link_event:
  assumes "i < length (ns_slots n)" and "sl_state (ns_slots n ! i) = SlotConnected"
    and "sl_session (ns_slots n ! i) = Some s" and "link_step s t"
  shows "keeps 0 n (link_event i t n)"
proof (cases "slot_ok i (ns_slots n ! i)")
  case ok: True
  then have b: "gl_slot_id t = of_nat i" "i < 2 ^ 32" "gl_generation t = sl_generation (ns_slots n ! i)"
      "gl_state s = Conected"
    using assms link_step_binding [OF assms(4)] by (auto simp: slot_ok_def)
  show ?thesis
  proof (cases "gl_state t = Closed")
    case True
    then have "link_event i t n =
        set_slot i ((ns_slots n ! i)\<lparr>sl_state := SlotClosed, sl_session := None\<rparr>) n"
      using b(1-3) assms(1) of_nat_slot
      by (auto simp: link_event_def NotifyOwnerClosed_def OnSessionClosed_def set_slot_def Let_def unat_of_nat)
    then show ?thesis using keeps_close by simp
  next
    case False
    then have t: "gl_state t = Conected" using link_step_open [OF assms(4) b(4)] by simp
    have "keeps 0 n (set_slot i ((ns_slots n ! i)\<lparr>sl_session := Some t\<rparr>) n)"
      using assms slot_ok_open [OF _ assms(3,4) t assms(2)] by (intro keeps_session [where s = s]) auto
    then show ?thesis using False by (simp add: link_event_def Let_def)
  qed
next
  case False
  then show ?thesis using assms(1) by (auto simp: keeps_def net_ok_def)
qed

lemma keeps_post_to_slot:
  assumes "can_send (ns_slots n ! i)"
  shows "keeps k n (post_to_slot i packet n)"
proof -
  obtain s where s: "sl_session (ns_slots n ! i) = Some s" "gl_state s = Conected"
      "sl_state (ns_slots n ! i) = SlotConnected"
    using assms by (auto simp: can_send_def IsAvailable_def split: option.splits)
  have "gl_state (PostSend packet s) = Conected" using s(2) by (simp add: PostSend_def Let_def)
  then have "keeps k n (set_slot i ((ns_slots n ! i)\<lparr>sl_session := Some (PostSend packet s)\<rparr>) n)"
    using s slot_ok_open [OF _ s(1) ev_post _ s(3)] by (intro keeps_session [where s = s]) (auto intro: ev_post)
  then show ?thesis using s by (simp add: post_to_slot_def Let_def)
qed

lemma keeps_send_target: "keeps k n (send_target c task tgt n)"
  using keeps_post_to_slot by (auto simp: send_target_def Let_def keeps_same split: option.splits)

lemma keeps_fold_send_target: "keeps 0 n (fold (send_target c task) targets n)"
proof (induction targets arbitrary: n)
  case (Cons t targets)
  then show ?case using keeps_trans [OF keeps_send_target [where k = 0] Cons.IH] by simp
qed (simp add: keeps_same)

lemma keeps_HandleNetworkTask: "keeps 0 n (HandleNetworkTask c task n)"
  by (simp add: HandleNetworkTask_def keeps_fold_send_target keeps_same)

lemma keeps_SendToGatewayLink: "keeps k n (SendToGatewayLink link_id packet n)"
  by (simp add: SendToGatewayLink_def Let_def keeps_same keeps_post_to_slot)

lemma slots_ForwardToLogic:
  "ns_slots (snd (ForwardToLogic c logic_count link_id msg_id seq body n)) = ns_slots n"
  by (auto simp: ForwardToLogic_def ResolveLogicShard_def PickLogicShard_def Let_def split: option.split)

lemma keeps_OnPacket: "keeps k n (snd (OnPacket c logic_count now_unix_ms link_id msg_id seq body n))"
  by (auto simp: OnPacket_def Let_def NetHandlePingReq_def keeps_same keeps_SendToGatewayLink
      slots_ForwardToLogic split: option.split)

lemma keeps_Stop: "keeps k n (NetworkShard_Stop n)"
  by (auto simp: NetworkShard_Stop_def keeps_def net_ok_def slot_ok_def slot_later_closed)

lemma keeps_Start: "keeps 1 n (NetworkShard_Start n)"
  using keeps_trans [OF keeps_same keeps_DoAccept, of "n\<lparr>ns_stopping := False\<rparr>" n 0]
  by (simp add: NetworkShard_Start_def)

subsection \<open>Runs\<close>

lemma keeps_net_step: "net_step n n' \<Longrightarrow> keeps 1 n n'"
  by (induction rule: net_step.induct)
     (blast intro: keeps_Start keeps_on_accept keeps_DoAccept keeps_Stop keeps_OnPacket
       keeps_mono [OF keeps_HandleNetworkTask zero_le] keeps_mono [OF keeps_link_event zero_le])+

lemma keeps_net_run: "net_run k n n' \<Longrightarrow> keeps k n n'"
proof (induction rule: net_run.induct)
  case (net_run_Suc k n n' n'')
  then show ?case using keeps_trans [OF net_run_Suc.IH keeps_net_step] by simp
qed (simp add: keeps_same)

lemma net_ok_new: "max_links \<le> 2 ^ 32 \<Longrightarrow> net_ok (NetworkShard_new shard_id max_links)"
  by (auto simp: net_ok_def NetworkShard_new_def GatewayLinkSlot_default_def slot_ok_def)

lemma can_send_iff: "slot_ok i slot \<Longrightarrow> can_send slot \<longleftrightarrow> sl_state slot = SlotConnected"
  by (auto simp: slot_ok_def can_send_def IsAvailable_def split: option.splits)

end
