(* ===== verification/Metrics.thy ===== *)
theory Metrics
  imports LogicHandlers
begin

text \<open>
  The process metrics of the game server (\<^verbatim>\<open>Metrics.h\<close>): counters, a gauge per logic shard and a ring
  buffer of tick durations, and their rendering in the Prometheus text format. The counters are
  atomic and the buffer is guarded by a mutex, so every operation is one step.
\<close>

subsection \<open>State and operations\<close>

definition kMaxShards :: nat where "kMaxShards = 64"
definition kTickWindow :: nat where "kTickWindow = 4096"

record Metrics =
  me_commands_total :: u64
  me_snapshots_total :: u64
  me_deltas_total :: u64
  me_send_drops_total :: u64
  me_rooms_by_shard :: "u64 list"
  me_units_by_shard :: "u64 list"
  me_tick_samples :: "u32 list"
  me_tick_pos :: nat

definition Metrics_new :: Metrics where
  "Metrics_new =
     \<lparr>me_commands_total = 0, me_snapshots_total = 0, me_deltas_total = 0, me_send_drops_total = 0,
      me_rooms_by_shard = replicate kMaxShards 0, me_units_by_shard = replicate kMaxShards 0,
      me_tick_samples = [], me_tick_pos = 0\<rparr>"

definition RecordTickUs :: "u32 \<Rightarrow> Metrics \<Rightarrow> Metrics" where
  "RecordTickUs us m =
     (if length (me_tick_samples m) < kTickWindow
      then m\<lparr>me_tick_samples := me_tick_samples m @ [us]\<rparr>
      else m\<lparr>me_tick_samples := (me_tick_samples m)[me_tick_pos m := us],
             me_tick_pos := (me_tick_pos m + 1) mod kTickWindow\<rparr>)"

definition SetShardGauges :: "nat \<Rightarrow> u64 \<Rightarrow> u64 \<Rightarrow> Metrics \<Rightarrow> Metrics" where
  "SetShardGauges shard rooms units m =
     (if kMaxShards \<le> shard then m
      else m\<lparr>me_rooms_by_shard := (me_rooms_by_shard m)[shard := rooms],
             me_units_by_shard := (me_units_by_shard m)[shard := units]\<rparr>)"

text \<open>The three quantiles \<^verbatim>\<open>Render\<close> computes from the samples.\<close>

definition tick_p50 :: "u32 list \<Rightarrow> u32" where
  "tick_p50 samples = (if samples = [] then 0 else sort samples ! (length samples * 50 div 100))"

definition tick_p99 :: "u32 list \<Rightarrow> u32" where
  "tick_p99 samples =
     (if samples = [] then 0 else sort samples ! min (length samples - 1) (length samples * 99 div 100))"

definition tick_max :: "u32 list \<Rightarrow> u32" where
  "tick_max samples = (if samples = [] then 0 else last (sort samples))"

definition newline :: string where "newline = [CHR 0x0A]"

definition metric_line :: "string \<Rightarrow> string \<Rightarrow> u64 \<Rightarrow> string" where
  "metric_line name help v =
     ''# HELP '' @ name @ '' '' @ help @ newline @ ''# TYPE '' @ name @ '' counter'' @ newline @
     name @ '' '' @ to_string (unat v) @ newline"

definition gauge_line :: "string \<Rightarrow> u64 \<Rightarrow> string" where
  "gauge_line name v =
     ''# TYPE '' @ name @ '' gauge'' @ newline @ name @ '' '' @ to_string (unat v) @ newline"

definition quantile_line :: "string \<Rightarrow> u32 \<Rightarrow> string" where
  "quantile_line q v =
     ''gameserver_tick_duration_us{quantile='' @ [CHR 0x22] @ q @ [CHR 0x22] @ ''} '' @
     to_string (unat v) @ newline"

definition Render :: "Metrics \<Rightarrow> string" where
  "Render m =
     (let rooms = sum_list (me_rooms_by_shard m);
          units = sum_list (me_units_by_shard m);
          s = me_tick_samples m
      in metric_line ''gameserver_commands_total'' ''inbound commands processed'' (me_commands_total m) @
         metric_line ''gameserver_snapshots_total'' ''full snapshots sent'' (me_snapshots_total m) @
         metric_line ''gameserver_deltas_total'' ''world deltas sent'' (me_deltas_total m) @
         metric_line ''gameserver_send_drops_total'' ''packets dropped by send backpressure'' (me_send_drops_total m) @
         gauge_line ''gameserver_rooms'' rooms @
         gauge_line ''gameserver_units'' units @
         ''# TYPE gameserver_tick_duration_us gauge'' @ newline @
         quantile_line ''0.5'' (tick_p50 s) @ quantile_line ''0.99'' (tick_p99 s) @
         quantile_line ''1.0'' (tick_max s))"

subsection \<open>The ring buffer keeps the newest samples\<close>

definition newest :: "nat \<Rightarrow> 'a list \<Rightarrow> 'a list" where
  "newest n xs = drop (length xs - n) xs"

text \<open>The samples in the order they were recorded: the oldest one is the next to be replaced.\<close>

definition recorded :: "Metrics \<Rightarrow> u32 list" where
  "recorded m = drop (me_tick_pos m) (me_tick_samples m) @ take (me_tick_pos m) (me_tick_samples m)"

definition ring_ok :: "u32 list \<Rightarrow> Metrics \<Rightarrow> bool" where
  "ring_ok us m \<longleftrightarrow> recorded m = newest kTickWindow us \<and>
     (if length (me_tick_samples m) < kTickWindow then me_tick_pos m = 0
      else length (me_tick_samples m) = kTickWindow \<and> me_tick_pos m < kTickWindow)"

lemma newest_snoc:
  "0 < n \<Longrightarrow> newest n (xs @ [x]) = (if length xs < n then newest n xs else tl (newest n xs)) @ [x]"
  by (simp add: newest_def Suc_diff_le not_less drop_Suc tl_drop)

lemma ring_step:
  assumes "length s = w" and "p < w"
  shows "drop ((p + 1) mod w) (s[p := x]) @ take ((p + 1) mod w) (s[p := x]) = tl (drop p s @ take p s) @ [x]"
proof (cases "p + 1 = w")
  case True
  then have "drop p s = [s ! p]" using assms by (simp add: Cons_nth_drop_Suc [symmetric])
  then show ?thesis using True assms by (auto simp: upd_conv_take_nth_drop)
next
  case False
  then have "(p + 1) mod w = Suc p" "Suc p \<le> length s" using assms by simp_all
  then show ?thesis
    using assms by (simp add: take_Suc_conv_app_nth Cons_nth_drop_Suc [symmetric])
qed

lemma length_recorded [simp]: "length (recorded m) = length (me_tick_samples m)"
  by (simp add: recorded_def)

lemma ring_ok_record:
  assumes "ring_ok us m"
  shows "ring_ok (us @ [x]) (RecordTickUs x m)"
proof -
  have w: "0 < kTickWindow" by (simp add: kTickWindow_def)
  have n: "length (me_tick_samples m) = length (newest kTickWindow us)"
    using assms length_recorded [of m] by (simp add: ring_ok_def)
  then have l: "length us < kTickWindow \<longleftrightarrow> length (me_tick_samples m) < kTickWindow"
    by (auto simp: newest_def)
  show ?thesis
  proof (cases "length (me_tick_samples m) < kTickWindow")
    case True
    then show ?thesis
      using assms l newest_snoc [OF w, of us x] w
      by (auto simp: ring_ok_def RecordTickUs_def recorded_def)
  next
    case False
    then have "recorded (RecordTickUs x m) = tl (recorded m) @ [x]"
      using assms ring_step [of "me_tick_samples m" kTickWindow "me_tick_pos m" x]
      by (simp add: ring_ok_def RecordTickUs_def recorded_def)
    then show ?thesis
      using assms False l newest_snoc [OF w, of us x] w by (simp add: ring_ok_def RecordTickUs_def)
  qed
qed

lemma ring_ok_all:
  "ring_ok us (fold RecordTickUs us Metrics_new)"
proof (induction us rule: rev_induct)
  case Nil
  then show ?case by (simp add: ring_ok_def recorded_def newest_def Metrics_new_def kTickWindow_def)
qed (simp add: ring_ok_record)

subsection \<open>Quantiles\<close>

lemma sorted_nth_le: "i \<le> j \<Longrightarrow> j < length xs \<Longrightarrow> sort xs ! i \<le> sort xs ! j"
  by (simp add: sorted_nth_mono)

lemma tick_quantiles:
  assumes "samples \<noteq> []"
  shows "tick_p50 samples \<le> tick_p99 samples \<and> tick_p99 samples \<le> tick_max samples \<and>
    tick_p50 samples \<in> set samples \<and> tick_p99 samples \<in> set samples \<and>
    tick_max samples = Max (set samples)"
proof -
  let ?n = "length samples"
  let ?i = "?n * 50 div 100" and ?j = "min (?n - 1) (?n * 99 div 100)"
  have n: "0 < ?n" using assms by simp
  then have i: "?i \<le> ?j" "?i < ?n" and j: "?j < ?n" by (auto simp: min_def)
  have s: "sort samples \<noteq> []" using n by (metis length_0_conv length_sort less_irrefl)
  have last: "last (sort samples) = sort samples ! (?n - 1)" using s by (simp add: last_conv_nth)
  have "Max (set samples) = last (sort samples)"
  proof (rule Max_eqI)
    show "last (sort samples) \<in> set samples" using s by (metis last_in_set set_sort)
    show "y \<le> last (sort samples)" if "y \<in> set samples" for y
    proof -
      have "y \<in> set (sort samples)" using that by simp
      then obtain k where "k < ?n" "y = sort samples ! k" by (auto simp: in_set_conv_nth simp del: set_sort)
      then show ?thesis unfolding last by (auto intro: sorted_nth_le)
    qed
  qed simp
  moreover have "sort samples ! k \<in> set samples" if "k < ?n" for k
    using that by (metis length_sort nth_mem set_sort)
  ultimately show ?thesis
    using assms i j n last sorted_nth_le [of ?i ?j samples] sorted_nth_le [of ?j "?n - 1" samples]
    by (simp add: tick_p50_def tick_p99_def tick_max_def)
qed

end
