(* ===== verification/GameServer.thy ===== *)
theory GameServer
  imports NetEvents Metrics
begin

text \<open>
  The game server (\<^verbatim>\<open>GameServer.cc\<close>): its logic and network shards, each a thread with the queue of
  what was posted to its \<^verbatim>\<open>io_context\<close>. The threads share nothing but these queues and the metrics, so
  a run of the server is an interleaving of the steps below, each taken by one shard. The flag
  \<^verbatim>\<open>b_stop_\<close> of a logic shard is set and cleared together with the server's \<^verbatim>\<open>stopping_\<close>, so the one
  field \<open>gs_stopping\<close> stands for both.
\<close>

subsection \<open>State and operations\<close>

record GameServer =
  gs_logic_shards :: "LogicShard list"
  gs_network_shards :: "NetworkShard list"
  gs_logic_queues :: "LogicTask list list"
  gs_network_queues :: "NetworkTask list list"
  gs_metrics :: Metrics
  gs_stopping :: bool

datatype server_error = invalid_argument string

text \<open>The constructor, which throws on a count of zero.\<close>

definition GameServer_new :: "u64 \<Rightarrow> nat \<Rightarrow> nat \<Rightarrow> server_error + GameServer" where
  "GameServer_new logic_shard_count network_shard_count gateway_link_count =
     (if logic_shard_count = 0 then Inl (invalid_argument ''logic_shard_count must be greater than 0'')
      else if network_shard_count = 0 then Inl (invalid_argument ''network_shard_count must be greater than 0'')
      else if gateway_link_count = 0 then Inl (invalid_argument ''gateway_link_count must be greater than 0'')
      else Inr
        \<lparr>gs_logic_shards = map (\<lambda>i. LogicShard_new (of_nat i) logic_shard_count) [0..<unat logic_shard_count],
         gs_network_shards = map (\<lambda>i. NetworkShard_new (of_nat i) gateway_link_count) [0..<network_shard_count],
         gs_logic_queues = replicate (unat logic_shard_count) [],
         gs_network_queues = replicate network_shard_count [],
         gs_metrics = Metrics_new, gs_stopping = False\<rparr>)"

definition LogicShardCount :: "GameServer \<Rightarrow> u64" where
  "LogicShardCount s = of_nat (length (gs_logic_shards s))"

definition GameServer_PostToLogic :: "u32 \<Rightarrow> LogicTask \<Rightarrow> GameServer \<Rightarrow> GameServer" where
  "GameServer_PostToLogic shard_id task s =
     (if gs_stopping s then s
      else if length (gs_logic_shards s) \<le> unat shard_id then s
      else s\<lparr>gs_logic_queues :=
               (gs_logic_queues s)[unat shard_id := gs_logic_queues s ! unat shard_id @ [task]]\<rparr>)"

definition GameServer_PostToNetwork :: "u32 \<Rightarrow> NetworkTask \<Rightarrow> GameServer \<Rightarrow> GameServer" where
  "GameServer_PostToNetwork net_shard_id task s =
     (if gs_stopping s then s
      else if length (gs_network_shards s) \<le> unat net_shard_id then s
      else s\<lparr>gs_network_queues :=
               (gs_network_queues s)[unat net_shard_id := gs_network_queues s ! unat net_shard_id @ [task]]\<rparr>)"

definition on_metrics :: "(Metrics \<Rightarrow> Metrics) \<Rightarrow> GameServer \<Rightarrow> GameServer" where
  "on_metrics f s = s\<lparr>gs_metrics := f (gs_metrics s)\<rparr>"

text \<open>The effects of a logic shard's handler, carried out in order.\<close>

fun apply_effect :: "effect \<Rightarrow> GameServer \<Rightarrow> GameServer" where
  "apply_effect (PostToNetwork net_shard task) s = GameServer_PostToNetwork net_shard task s"
| "apply_effect CountCommand s = on_metrics (\<lambda>m. m\<lparr>me_commands_total := me_commands_total m + 1\<rparr>) s"
| "apply_effect CountSnapshot s = on_metrics (\<lambda>m. m\<lparr>me_snapshots_total := me_snapshots_total m + 1\<rparr>) s"
| "apply_effect CountDelta s = on_metrics (\<lambda>m. m\<lparr>me_deltas_total := me_deltas_total m + 1\<rparr>) s"
| "apply_effect (RecordTick us) s = on_metrics (RecordTickUs us) s"
| "apply_effect (ShardGauges shard rooms units) s =
     on_metrics (SetShardGauges (unat shard) (of_nat rooms) (of_nat units)) s"

fun apply_net_effect :: "net_effect \<Rightarrow> GameServer \<Rightarrow> GameServer" where
  "apply_net_effect (PostToLogic shard_id task) s = GameServer_PostToLogic shard_id task s"

text \<open>The drop counter of the metrics grows with the drop counters of a network shard's links.\<close>

definition send_drops :: "NetworkShard \<Rightarrow> u64" where
  "send_drops n =
     sum_list (map (\<lambda>slot. case sl_session slot of None \<Rightarrow> 0 | Some session \<Rightarrow> gl_send_dropped session) (ns_slots n))"

definition count_drops :: "NetworkShard \<Rightarrow> NetworkShard \<Rightarrow> GameServer \<Rightarrow> GameServer" where
  "count_drops n n' =
     on_metrics (\<lambda>m. m\<lparr>me_send_drops_total := me_send_drops_total m + (send_drops n' - send_drops n)\<rparr>)"

text \<open>One step of the thread of a logic shard: the oldest posted task, or a tick.\<close>

definition run_logic_task :: "env \<Rightarrow> nat \<Rightarrow> GameServer \<Rightarrow> GameServer" where
  "run_logic_task e i s =
     (case gs_logic_queues s ! i of
        [] \<Rightarrow> s
      | task # rest \<Rightarrow>
          let (effects, shard) = handleTask e task (gs_logic_shards s ! i)
          in fold apply_effect effects
               (s\<lparr>gs_logic_shards := (gs_logic_shards s)[i := shard],
                  gs_logic_queues := (gs_logic_queues s)[i := rest]\<rparr>))"

definition run_tick :: "env \<Rightarrow> u32 \<Rightarrow> nat \<Rightarrow> GameServer \<Rightarrow> GameServer" where
  "run_tick e us i s =
     (let (effects, shard) = TickRooms e us (gs_logic_shards s ! i)
      in fold apply_effect effects (s\<lparr>gs_logic_shards := (gs_logic_shards s)[i := shard]\<rparr>))"

text \<open>One step of the thread of a network shard: the oldest posted task, a packet from a link, or any
  other event of the shard.\<close>

definition run_network_task :: "env \<Rightarrow> nat \<Rightarrow> GameServer \<Rightarrow> GameServer" where
  "run_network_task e j s =
     (case gs_network_queues s ! j of
        [] \<Rightarrow> s
      | task # rest \<Rightarrow>
          let shard = HandleNetworkTask (e_codec e) task (gs_network_shards s ! j)
          in count_drops (gs_network_shards s ! j) shard
               (s\<lparr>gs_network_shards := (gs_network_shards s)[j := shard],
                  gs_network_queues := (gs_network_queues s)[j := rest]\<rparr>))"

definition run_packet :: "env \<Rightarrow> u64 \<Rightarrow> u32 \<Rightarrow> MsgId \<Rightarrow> byte list \<Rightarrow> nat \<Rightarrow> GameServer \<Rightarrow> GameServer" where
  "run_packet e now_unix_ms link_id msg_id body j s =
     (let (effects, shard) =
            OnPacket (e_codec e) (LogicShardCount s) now_unix_ms link_id msg_id 0 body (gs_network_shards s ! j)
      in fold apply_net_effect effects
           (count_drops (gs_network_shards s ! j) shard
              (s\<lparr>gs_network_shards := (gs_network_shards s)[j := shard]\<rparr>)))"

definition GameServer_Start :: "GameServer \<Rightarrow> GameServer" where
  "GameServer_Start s =
     s\<lparr>gs_stopping := False, gs_network_shards := map NetworkShard_Start (gs_network_shards s)\<rparr>"

definition GameServer_Stop :: "GameServer \<Rightarrow> GameServer" where
  "GameServer_Stop s =
     (if gs_stopping s then s
      else s\<lparr>gs_stopping := True, gs_network_shards := map NetworkShard_Stop (gs_network_shards s)\<rparr>)"

subsection \<open>Runs\<close>

inductive server_step :: "env \<Rightarrow> GameServer \<Rightarrow> GameServer \<Rightarrow> bool" for e :: env where
  server_start: "server_step e s (GameServer_Start s)"
| server_task: "i < length (gs_logic_shards s) \<Longrightarrow> id_space_left (gs_logic_shards s ! i) \<Longrightarrow>
    server_step e s (run_logic_task e i s)"
| server_tick: "i < length (gs_logic_shards s) \<Longrightarrow> server_step e s (run_tick e us i s)"
| server_send: "j < length (gs_network_shards s) \<Longrightarrow> server_step e s (run_network_task e j s)"
| server_packet: "j < length (gs_network_shards s) \<Longrightarrow>
    server_step e s (run_packet e now_unix_ms link_id msg_id body j s)"
| server_net: "j < length (gs_network_shards s) \<Longrightarrow> net_step (gs_network_shards s ! j) n \<Longrightarrow>
    server_step e s (s\<lparr>gs_network_shards := (gs_network_shards s)[j := n]\<rparr>)"
| server_stop: "server_step e s (GameServer_Stop s)"

inductive server_reachable :: "env \<Rightarrow> GameServer \<Rightarrow> bool" for e :: env where
  server_init: "GameServer_new logic_shard_count network_shard_count gateway_link_count = Inr s \<Longrightarrow>
    unat logic_shard_count \<le> 2 ^ 32 \<Longrightarrow> gateway_link_count \<le> 2 ^ 32 \<Longrightarrow> server_reachable e s"
| server_next: "server_reachable e s \<Longrightarrow> server_step e s t \<Longrightarrow> server_reachable e t"

text \<open>Every shard is in order, and the logic shard at index \<open>i\<close> is shard \<open>i\<close> of all.\<close>

definition server_ok :: "GameServer \<Rightarrow> bool" where
  "server_ok s \<longleftrightarrow>
     length (gs_logic_queues s) = length (gs_logic_shards s) \<and>
     length (gs_network_queues s) = length (gs_network_shards s) \<and>
     length (gs_logic_shards s) \<le> 2 ^ 32 \<and>
     (\<forall>i < length (gs_logic_shards s).
        shard_ok (gs_logic_shards s ! i) \<and> room_ids_ok (gs_logic_shards s ! i) \<and>
        unat (ls_shard_id (gs_logic_shards s ! i)) = i \<and>
        unat (ls_shard_count (gs_logic_shards s ! i)) = length (gs_logic_shards s)) \<and>
     (\<forall>j < length (gs_network_shards s). net_ok (gs_network_shards s ! j))"

lemma server_ok_new:
  assumes "GameServer_new logic_shard_count network_shard_count gateway_link_count = Inr s"
    and "unat logic_shard_count \<le> 2 ^ 32" and "gateway_link_count \<le> 2 ^ 32"
  shows "server_ok s"
proof -
  have s: "s = \<lparr>gs_logic_shards = map (\<lambda>i. LogicShard_new (of_nat i) logic_shard_count) [0..<unat logic_shard_count],
       gs_network_shards = map (\<lambda>i. NetworkShard_new (of_nat i) gateway_link_count) [0..<network_shard_count],
       gs_logic_queues = replicate (unat logic_shard_count) [],
       gs_network_queues = replicate network_shard_count [],
       gs_metrics = Metrics_new, gs_stopping = False\<rparr>" and nz: "logic_shard_count \<noteq> 0"
    using assms(1) by (auto simp: GameServer_new_def split: if_splits)
  have "unat (of_nat i :: u32) = i" if "i < unat logic_shard_count" for i
    using that assms(2) by (simp add: unat_of_nat)
  then show ?thesis
    using assms(2,3) nz
    by (auto simp: s server_ok_def LogicShard_new_def shard_ok_def room_ids_ok_def net_ok_new)
qed

text \<open>Posting leaves all but the queues and the metrics alone.\<close>

lemma count_drops_simps [simp]:
  "gs_logic_shards (count_drops n n' s) = gs_logic_shards s" "gs_network_shards (count_drops n n' s) = gs_network_shards s"
  "gs_logic_queues (count_drops n n' s) = gs_logic_queues s" "gs_network_queues (count_drops n n' s) = gs_network_queues s"
  "gs_stopping (count_drops n n' s) = gs_stopping s"
  by (simp_all add: count_drops_def on_metrics_def)

lemma server_ok_count_drops [simp]: "server_ok (count_drops n n' s) = server_ok s"
  by (simp add: server_ok_def)

lemma apply_effect_keeps:
  "gs_logic_shards (apply_effect eff s) = gs_logic_shards s"
  "gs_network_shards (apply_effect eff s) = gs_network_shards s"
  "length (gs_logic_queues (apply_effect eff s)) = length (gs_logic_queues s)"
  "length (gs_network_queues (apply_effect eff s)) = length (gs_network_queues s)"
  by (cases eff; simp add: GameServer_PostToNetwork_def on_metrics_def)+

lemma apply_net_effect_keeps:
  "gs_logic_shards (apply_net_effect ne s) = gs_logic_shards s"
  "gs_network_shards (apply_net_effect ne s) = gs_network_shards s"
  "length (gs_logic_queues (apply_net_effect ne s)) = length (gs_logic_queues s)"
  "length (gs_network_queues (apply_net_effect ne s)) = length (gs_network_queues s)"
  by (cases ne; simp add: GameServer_PostToLogic_def)+

lemma server_ok_effects:
  "server_ok (fold apply_effect effects s) = server_ok s"
  "server_ok (fold apply_net_effect neffects s) = server_ok s"
  by (rule fold_constant, simp add: server_ok_def apply_effect_keeps apply_net_effect_keeps)+

lemma server_ok_logic:
  assumes "server_ok s" and "i < length (gs_logic_shards s)"
    and "shard_ok shard" and "room_ids_ok shard"
    and "ls_shard_id shard = ls_shard_id (gs_logic_shards s ! i)"
    and "ls_shard_count shard = ls_shard_count (gs_logic_shards s ! i)"
    and "length qs = length (gs_logic_queues s)"
  shows "server_ok (s\<lparr>gs_logic_shards := (gs_logic_shards s)[i := shard], gs_logic_queues := qs\<rparr>)"
  using assms by (simp add: server_ok_def nth_list_update)

lemma handleTask_place:
  "ls_shard_id (snd (handleTask e task s)) = ls_shard_id s \<and>
   ls_shard_count (snd (handleTask e task s)) = ls_shard_count s"
proof -
  define t where "t = (if lt_uid task \<noteq> 0
      then s\<lparr>ls_uid_route := um_assign (lt_uid task) (lt_origin task) (ls_uid_route s)\<rparr> else s)"
  have create: "ls_shard_id (snd (HandleCreateRoom e task t)) = ls_shard_id t \<and>
      ls_shard_count (snd (HandleCreateRoom e task t)) = ls_shard_count t"
    using no_new_room_leave(1) [of t e "lt_uid task"]
    by (auto simp: HandleCreateRoom_def no_new_room_def set_room_def Let_def split_beta split: option.split)
  have "ls_shard_id (snd (Dispatch e task t)) = ls_shard_id t \<and> ls_shard_count (snd (Dispatch e task t)) = ls_shard_count t"
    using create no_new_room_join [of t e task] no_new_room_disconnect [of t e task] no_new_room_handlers(1-4) [of t e task]
    by (auto simp: Dispatch_def Let_def no_new_room_def)
  moreover have "snd (handleTask e task s) = snd (Dispatch e task t)"
    by (simp add: handleTask_def t_def Let_def split_beta)
  moreover have "ls_shard_id t = ls_shard_id s \<and> ls_shard_count t = ls_shard_count s" by (simp add: t_def)
  ultimately show ?thesis by simp
qed

lemma server_ok_step:
  assumes "server_step e s t" and "server_ok s" and "iter_ok (e_ord e)"
  shows "server_ok t"
  using assms(1)
proof cases
  case server_start
  then show ?thesis
    using assms(2) keeps_Start by (auto simp: server_ok_def GameServer_Start_def keeps_def)
next
  case (server_task i)
  let ?l = "gs_logic_shards s ! i"
  have l: "shard_ok ?l" "room_ids_ok ?l" using assms(2) server_task by (auto simp: server_ok_def)
  show ?thesis
  proof (cases "gs_logic_queues s ! i")
    case (Cons task rest)
    obtain eff l' where h: "handleTask e task ?l = (eff, l')" by fastforce
    then have l': "l' = snd (handleTask e task ?l)" by simp
    have "shard_ok l'" unfolding l'
      using handleTask_shard_ok new_room_id_fresh l server_task(3) assms(3) by blast
    moreover have "room_ids_ok l'" unfolding l' using handleTask_room_ids_ok l(2) server_task(3) by blast
    ultimately show ?thesis
      using server_ok_logic [OF assms(2) server_task(2), of l' "(gs_logic_queues s)[i := rest]"]
        handleTask_place [of e task ?l] server_task(1) Cons h
      by (simp add: run_logic_task_def server_ok_effects)
  qed (use server_task assms(2) in \<open>simp add: run_logic_task_def\<close>)
next
  case (server_tick i us)
  let ?l = "gs_logic_shards s ! i" and ?t = "snd (TickRooms e us (gs_logic_shards s ! i))"
  have l: "shard_ok ?l" "room_ids_ok ?l" using assms(2) server_tick by (auto simp: server_ok_def)
  have "shard_ok ?t" using TickRooms_shard_ok l assms(3) by blast
  moreover have "room_ids_ok ?t" using no_new_room_ids [OF no_new_room_handlers(5)] l(2) by blast
  ultimately show ?thesis
    using server_ok_logic [OF assms(2) server_tick(2), of ?t "gs_logic_queues s"]
      no_new_room_handlers(5) [of ?l e us] server_tick(1)
    by (simp add: run_tick_def server_ok_effects no_new_room_def split_beta)
next
  case (server_send j)
  then show ?thesis
    using assms(2) keeps_HandleNetworkTask
    by (auto simp: run_network_task_def Let_def server_ok_def keeps_def nth_list_update split: list.split)
next
  case (server_packet j now_unix_ms link_id msg_id body)
  then show ?thesis
    using assms(2) keeps_OnPacket [of 0]
    by (auto simp: run_packet_def server_ok_effects split_beta) (auto simp: server_ok_def keeps_def nth_list_update)
next
  case (server_net j n)
  then show ?thesis
    using assms(2) keeps_net_step by (auto simp: server_ok_def keeps_def nth_list_update)
next
  case server_stop
  then show ?thesis
    using assms(2) keeps_Stop [of 0] by (auto simp: server_ok_def GameServer_Stop_def keeps_def)
qed

lemma server_reachable_ok: "server_reachable e s \<Longrightarrow> iter_ok (e_ord e) \<Longrightarrow> server_ok s"
  by (induction rule: server_reachable.induct) (auto intro: server_ok_new server_ok_step)

text \<open>A room lives on one logic shard only, and that is the one its number names.\<close>

lemma room_home:
  assumes "server_ok s" and "i < length (gs_logic_shards s)"
    and "room_id \<in> set (um_keys (ls_rooms (gs_logic_shards s ! i)))"
  shows "i = unat room_id mod length (gs_logic_shards s)"
  using assms by (auto simp: server_ok_def room_ids_ok_def)

end
