(* ===== verification/GateSessions.thy ===== *)
theory GateSessions
  imports LinkSession
begin

text \<open>
  The two kinds of connection a gate server has: \<^verbatim>\<open>Csession\<close> to a game client and \<^verbatim>\<open>ClientSession\<close> to
  the game server. Each runs on the thread of one work shard. This theory has what a session does on
  its own: framing, the send queue with its writer and, for the connection to the game server,
  connecting and the heartbeat. What closing a client session does elsewhere is in \<open>Gate\<close>.
\<close>

subsection \<open>Framing\<close>

text \<open>The readers of the two sessions, on the ten bytes of a header (\<open>None\<close>: the session is closed).\<close>

definition Csession_ReadHead :: "byte list \<Rightarrow> (u16 \<times> u16 \<times> nat) option" where
  "Csession_ReadHead buffer =
     (let magic = get16 buffer 0
      in if magic \<noteq> kPacketMagic then None
         else
           let msg_id = get16 buffer 2;
               flags = get16 buffer 4;
               data_len = get32 buffer 6
           in if msg_id \<le> 0 then None
              else if kMaxPacketBodyLen < unat data_len then None
              else Some (msg_id, flags, unat data_len))"

definition ClientSession_Readhead :: "byte list \<Rightarrow> (u16 \<times> u16 \<times> nat) option" where
  "ClientSession_Readhead buffer =
     (let magic = get16 buffer 0
      in if magic \<noteq> kPacketMagic then None
         else
           let msg_id = get16 buffer 2;
               flags = get16 buffer 4;
               data_len = get32 buffer 6
           in if msg_id \<le> 0 then None
              else if kMaxPacketBodyLen < unat data_len then None
              else Some (msg_id, flags, unat data_len))"

text \<open>The read loops on the bytes that arrive before the connection ends.\<close>

definition Csession_ReadData :: "nat \<Rightarrow> byte list \<Rightarrow> (byte list \<times> byte list) option" where
  "Csession_ReadData len bs =
     (if len = 0 then Some ([], bs) else if length bs < len then None else Some (take len bs, drop len bs))"

function Csession_read :: "byte list \<Rightarrow> RecvNode list" where
  "Csession_read bs =
     (if length bs < kPacketHeaderLen then []
      else
        case Csession_ReadHead (take kPacketHeaderLen bs) of
          None \<Rightarrow> []
        | Some (msg_id, flags, len) \<Rightarrow>
            (case Csession_ReadData len (drop kPacketHeaderLen bs) of
               None \<Rightarrow> []
             | Some (body, rest) \<Rightarrow>
                 \<lparr>rn_msg_id = msg_id, rn_flags = flags, rn_data = body\<rparr> # Csession_read rest))"
  by pat_completeness auto
termination
  by (relation "measure length") (auto simp: Csession_ReadData_def split: if_splits)

declare Csession_read.simps [simp del]

definition ClientSession_ReadData :: "nat \<Rightarrow> byte list \<Rightarrow> (byte list \<times> byte list) option" where
  "ClientSession_ReadData len bs =
     (if len = 0 then Some ([], bs) else if length bs < len then None else Some (take len bs, drop len bs))"

function ClientSession_read :: "byte list \<Rightarrow> RecvNode list" where
  "ClientSession_read bs =
     (if length bs < kPacketHeaderLen then []
      else
        case ClientSession_Readhead (take kPacketHeaderLen bs) of
          None \<Rightarrow> []
        | Some (msg_id, flags, len) \<Rightarrow>
            (case ClientSession_ReadData len (drop kPacketHeaderLen bs) of
               None \<Rightarrow> []
             | Some (body, rest) \<Rightarrow>
                 \<lparr>rn_msg_id = msg_id, rn_flags = flags, rn_data = body\<rparr> # ClientSession_read rest))"
  by pat_completeness auto
termination
  by (relation "measure length") (auto simp: ClientSession_ReadData_def split: if_splits)

declare ClientSession_read.simps [simp del]

lemma ReadHead_variants: "Csession_ReadHead = ReadHead" "ClientSession_Readhead = ReadHead"
  by (auto simp: fun_eq_iff Csession_ReadHead_def ClientSession_Readhead_def ReadHead_def Let_def)

lemma ReadData_variants: "Csession_ReadData = ReadData" "ClientSession_ReadData = ReadData"
  by (auto simp: fun_eq_iff Csession_ReadData_def ClientSession_ReadData_def ReadData_def)

lemma Csession_read_eq: "Csession_read bs = handle_read bs"
  by (induction bs rule: Csession_read.induct)
     (subst Csession_read.simps, subst handle_read.simps,
      auto simp: ReadHead_variants ReadData_variants split: option.splits)

lemma ClientSession_read_eq: "ClientSession_read bs = handle_read bs"
  by (induction bs rule: ClientSession_read.induct)
     (subst ClientSession_read.simps, subst handle_read.simps,
      auto simp: ReadHead_variants ReadData_variants split: option.splits)

subsection \<open>A client's session\<close>

record Csession =
  cs_uuid :: string
  cs_shard :: nat
  cs_uid :: u64
  cs_state :: Session_state
  cs_send_que :: "SendNode list"
  cs_send_dropped :: u64
  cs_is_writing :: bool
  cs_writer :: writer
  cs_accepted :: "SendNode list"
  cs_written :: "SendNode list"

definition Csession_new :: "string \<Rightarrow> nat \<Rightarrow> Csession" where
  "Csession_new uuid shard =
     \<lparr>cs_uuid = uuid, cs_shard = shard, cs_uid = 0, cs_state = Invalid, cs_send_que = [],
      cs_send_dropped = 0, cs_is_writing = False, cs_writer = NoWriter, cs_accepted = [], cs_written = []\<rparr>"

definition Csession_start :: "Csession \<Rightarrow> Csession" where
  "Csession_start s = s\<lparr>cs_state := Conected\<rparr>"

definition Csession_SendData :: "SendNode \<Rightarrow> Csession \<Rightarrow> Csession" where
  "Csession_SendData node s =
     (if cs_state s = Closing \<or> cs_state s = Closed then s
      else
        let s = (if kMaxSendQueueDepth \<le> length (cs_send_que s)
                 then s\<lparr>cs_send_que := tl (cs_send_que s), cs_send_dropped := cs_send_dropped s + 1\<rparr>
                 else s);
            s = s\<lparr>cs_send_que := cs_send_que s @ [node], cs_accepted := cs_accepted s @ [node]\<rparr>
        in if cs_is_writing s then s else s\<lparr>cs_is_writing := True, cs_writer := Spawned\<rparr>)"

definition Csession_write_turn :: "Csession \<Rightarrow> Csession" where
  "Csession_write_turn s =
     (case cs_send_que s of
        node # rest \<Rightarrow>
          if cs_state s \<noteq> Closed \<and> cs_state s \<noteq> Closing
          then s\<lparr>cs_send_que := rest, cs_writer := Writing node, cs_written := cs_written s @ [node]\<rparr>
          else s\<lparr>cs_is_writing := False, cs_writer := NoWriter\<rparr>
      | [] \<Rightarrow> s\<lparr>cs_is_writing := False, cs_writer := NoWriter\<rparr>)"

text \<open>\<^verbatim>\<open>close\<close> as far as the session itself is concerned: unlike the link session it keeps what is queued.\<close>

definition Csession_set_closed :: "Csession \<Rightarrow> Csession" where
  "Csession_set_closed s =
     (if cs_state s = Closing \<or> cs_state s = Closed then s else s\<lparr>cs_state := Closed\<rparr>)"

inductive client_step :: "Csession \<Rightarrow> Csession \<Rightarrow> bool" where
  client_start: "cs_state s = Invalid \<Longrightarrow> client_step s (Csession_start s)"
| client_bind: "client_step s (s\<lparr>cs_uid := uid\<rparr>)"
| client_send: "client_step s (Csession_SendData node s)"
| client_writer: "cs_writer s \<noteq> NoWriter \<Longrightarrow> client_step s (Csession_write_turn s)"
| client_write_error: "cs_writer s = Writing node \<Longrightarrow>
    client_step s (Csession_set_closed (s\<lparr>cs_is_writing := False, cs_writer := NoWriter\<rparr>))"
| client_close: "client_step s (Csession_set_closed s)"

definition client_queue :: "Csession \<Rightarrow> sendq" where
  "client_queue s =
     \<lparr>sq_que = cs_send_que s, sq_accepted = cs_accepted s, sq_written = cs_written s,
      sq_dropped = cs_send_dropped s, sq_discarded = False\<rparr>"

definition client_fresh :: "Csession \<Rightarrow> bool" where
  "client_fresh s \<longleftrightarrow> (\<exists>uuid shard. s = Csession_new uuid shard)"

definition client_open :: "Csession \<Rightarrow> bool" where
  "client_open s \<longleftrightarrow> cs_state s \<noteq> Closing \<and> cs_state s \<noteq> Closed"

definition client_idle :: "Csession \<Rightarrow> bool" where
  "client_idle s \<longleftrightarrow> cs_writer s = NoWriter \<and> \<not> cs_is_writing s"

lemma client_queue_simps [simp]:
  "sq_que (client_queue s) = cs_send_que s" "\<not> sq_discarded (client_queue s)"
  by (simp_all add: client_queue_def)

lemma client_queue_SendData:
  "client_queue (Csession_SendData node s) =
     (if client_open s then sq_push node (client_queue s) else client_queue s)"
  by (simp add: client_queue_def Csession_SendData_def sq_push_def client_open_def Let_def)

lemma client_queue_turn:
  "client_open s \<Longrightarrow> cs_send_que s \<noteq> [] \<Longrightarrow>
     client_open (Csession_write_turn s) \<and> client_queue (Csession_write_turn s) = sq_take (client_queue s)"
  "\<not> client_open s \<or> cs_send_que s = [] \<Longrightarrow>
     client_idle (Csession_write_turn s) \<and> client_queue (Csession_write_turn s) = client_queue s"
  by (auto simp: client_queue_def Csession_write_turn_def sq_take_def client_open_def client_idle_def
      split: list.splits)

lemma client_queue_closed [simp]: "client_queue (Csession_set_closed s) = client_queue s"
  by (simp add: client_queue_def Csession_set_closed_def)

lemma client_queue_event:
  assumes "client_step s t"
  shows "sendq_step\<^sup>*\<^sup>* (client_queue s) (client_queue t)"
  using assms
proof cases
  case (client_send node)
  then show ?thesis using sendq_push [of "client_queue s" node] by (auto simp: client_queue_SendData)
next
  case client_writer
  then show ?thesis
    using client_queue_turn [of s] sendq_take [of "client_queue s"]
    by (cases "client_open s \<and> cs_send_que s \<noteq> []") auto
qed (auto simp: client_queue_def Csession_start_def Csession_set_closed_def)

definition client_inv :: "Csession \<Rightarrow> bool" where
  "client_inv s \<longleftrightarrow> (cs_is_writing s \<longleftrightarrow> cs_writer s \<noteq> NoWriter) \<and>
     (client_open s \<longrightarrow> cs_send_que s \<noteq> [] \<longrightarrow> cs_is_writing s)"

lemma client_inv_event: "client_step s t \<Longrightarrow> client_inv s \<Longrightarrow> client_inv t"
  by (induction rule: client_step.induct)
     (auto simp: client_inv_def client_open_def Csession_start_def Csession_SendData_def
       Csession_write_turn_def Csession_set_closed_def Let_def split: list.splits)

interpretation client: armed_writer client_queue client_fresh client_step Csession_write_turn client_open client_idle client_inv
proof
  show "client_queue s = sendq_empty" if "client_fresh s" for s
    using that by (auto simp: client_fresh_def client_queue_def Csession_new_def sendq_empty_def)
  show "client_inv s" if "client_fresh s" for s
    using that by (auto simp: client_fresh_def client_inv_def Csession_new_def)
  show "sq_que (client_queue s) = []" if "client_inv s" "client_open s" "client_idle s" for s
    using that by (auto simp: client_inv_def client_idle_def)
qed (use client_queue_event client_queue_turn client_inv_event in auto)

end
