(* ===== verification/GateProtocol.thy ===== *)
theory GateProtocol
  imports Messages
begin

text \<open>
  The messages a gate server builds (\<^verbatim>\<open>GateProtocol.cc\<close>). As in \<open>Messages\<close>, the generated protobuf code is
  an argument: a \<open>gate_codec\<close> holds the parsers and the serialiser the gate uses, and
  \<open>std::hash<std::string>\<close> is another, since its values are implementation-defined.
\<close>

definition ERROR_NOT_LOGGED_IN :: ErrorCode where [simp]: "ERROR_NOT_LOGGED_IN = 2"

datatype GateMsg =
  GateLinkHelloMsg u32 u32
  | PingReqMsg u64
  | ClientDisconnectedMsg u64
  | GateToGameMsg Envelope
  | GateCommandRejectedMsg u64 u64 ErrorCode string
  | LoginRspMsg ErrorCode u64 string
  | GatePongMsg u64 u64

record GameToGate =
  gg_target_uids :: "u64 list"
  gg_inner_msg_id :: u32
  gg_payload :: "byte list"

text \<open>\<open>gc_ping\<close> is the time in a ping after the parser ran, whether or not it accepted the bytes.\<close>

record gate_codec =
  gc_login :: "byte list \<Rightarrow> (string \<times> string) option"
  gc_ping :: "byte list \<Rightarrow> u64"
  gc_pong :: "byte list \<Rightarrow> u64 option"
  gc_game_to_gate :: "byte list \<Rightarrow> GameToGate option"
  gc_serialize :: "GateMsg \<Rightarrow> byte list option"

definition SerializeMessage :: "gate_codec \<Rightarrow> GateMsg \<Rightarrow> byte list option" where
  "SerializeMessage c message =
     (case gc_serialize c message of
        None \<Rightarrow> None
      | Some out \<Rightarrow> if kMaxPacketBodyLen < length out then None else Some out)"

definition BuildPacket :: "MsgId \<Rightarrow> byte list \<Rightarrow> SendNode option" where
  "BuildPacket msg_id payload =
     (if 4294967295 < length payload then None else Some (SendNode_new payload msg_id kPacketFlagNone))"

definition BuildGateLinkHello :: "gate_codec \<Rightarrow> u32 \<Rightarrow> u32 \<Rightarrow> SendNode option" where
  "BuildGateLinkHello c gate_id link_index =
     (case SerializeMessage c (GateLinkHelloMsg gate_id link_index) of
        None \<Rightarrow> None
      | Some payload \<Rightarrow> BuildPacket GateLinkHello payload)"

definition BuildPingReq :: "gate_codec \<Rightarrow> u64 \<Rightarrow> SendNode option" where
  "BuildPingReq c client_time_ms =
     (case SerializeMessage c (PingReqMsg client_time_ms) of
        None \<Rightarrow> None
      | Some payload \<Rightarrow> BuildPacket PingReq payload)"

definition BuildClientDisconnectedNtf :: "gate_codec \<Rightarrow> u64 \<Rightarrow> SendNode option" where
  "BuildClientDisconnectedNtf c uid =
     (case SerializeMessage c (ClientDisconnectedMsg uid) of
        None \<Rightarrow> None
      | Some payload \<Rightarrow> BuildPacket ClientDisconnectedNtf payload)"

text \<open>The envelope around a client's message: who sent it is taken from the session, not from the
  message; room, sequence number and tick are left at their defaults.\<close>

definition gate_envelope :: "u64 \<Rightarrow> u64 \<Rightarrow> u16 \<Rightarrow> byte list \<Rightarrow> Envelope" where
  "gate_envelope uid session_id inner_msg_id body =
     \<lparr>ge_uid = uid, ge_session_id = session_id, ge_room_id = 0, ge_inner_msg_id = ucast inner_msg_id,
      ge_client_seq = 0, ge_client_tick = 0, ge_payload = body\<rparr>"

definition BuildGateToGameEnvelope ::
  "gate_codec \<Rightarrow> u64 \<Rightarrow> u64 \<Rightarrow> u16 \<Rightarrow> byte list \<Rightarrow> SendNode option" where
  "BuildGateToGameEnvelope c uid session_id inner_msg_id body =
     (case SerializeMessage c (GateToGameMsg (gate_envelope uid session_id inner_msg_id body)) of
        None \<Rightarrow> None
      | Some payload \<Rightarrow> BuildPacket GateToGameEnvelope payload)"

definition BuildCommandRejected ::
  "gate_codec \<Rightarrow> u64 \<Rightarrow> u64 \<Rightarrow> ErrorCode \<Rightarrow> string \<Rightarrow> SendNode option" where
  "BuildCommandRejected c room_id client_seq code reason =
     (case SerializeMessage c (GateCommandRejectedMsg room_id client_seq code reason) of
        None \<Rightarrow> None
      | Some payload \<Rightarrow> BuildPacket CommandRejectedNtf payload)"

definition get_session_id :: "(string \<Rightarrow> u64) \<Rightarrow> string \<Rightarrow> u64" where
  "get_session_id hash uuid = hash uuid"

definition MakeLoginUid :: "(string \<Rightarrow> u64) \<Rightarrow> string \<Rightarrow> string \<Rightarrow> string \<Rightarrow> u64" where
  "MakeLoginUid hash uuid account token =
     (let key = account @ '':'' @ token @ '':'' @ uuid;
          uid = hash key
      in if uid = 0 then 1 else uid)"

lemma MakeLoginUid_nonzero: "MakeLoginUid hash uuid account token \<noteq> 0"
  by (simp add: MakeLoginUid_def Let_def)

lemma SerializeMessage_Some:
  "SerializeMessage c m = Some out \<longleftrightarrow> gc_serialize c m = Some out \<and> length out \<le> kMaxPacketBodyLen"
  by (auto simp: SerializeMessage_def split: option.splits)

lemma BuildPacket_small:
  "length payload \<le> kMaxPacketBodyLen \<Longrightarrow> BuildPacket i payload = Some (SendNode_new payload i kPacketFlagNone)"
  by (simp add: BuildPacket_def kMaxPacketBodyLen_def)

text \<open>What the builders produce fits the packet format.\<close>

lemma BuildGateToGameEnvelope_Some:
  assumes "BuildGateToGameEnvelope c uid session_id inner_msg_id body = Some packet"
  obtains payload where
    "gc_serialize c (GateToGameMsg (gate_envelope uid session_id inner_msg_id body)) = Some payload"
    and "packet = SendNode_new payload GateToGameEnvelope kPacketFlagNone"
    and "sendable (GateToGameEnvelope, kPacketFlagNone, payload)"
  using assms
  by (auto simp: BuildGateToGameEnvelope_def SerializeMessage_Some BuildPacket_small sendable_def
      split: option.splits)

end
