(* ===== verification/BackendLink.thy ===== *)
theory BackendLink
  imports GateSessions GateProtocol
begin

text \<open>
  The gate's connections to the game server: \<^verbatim>\<open>ClientSession\<close> with its connection set-up, heartbeat and
  send queue, and \<^verbatim>\<open>GameServerConnPool\<close>, the eight connections of a work shard. Times are in
  milliseconds of the steady clock.
\<close>

subsection \<open>A connection to the game server\<close>

datatype ClientSession_state =
  BConnecting | BConnected | BBusy | BTimeout | BError | Bclosing | Bclosed

record ClientSession =
  bc_state :: ClientSession_state
  bc_send_que :: "SendNode list"
  bc_send_dropped :: u64
  bc_is_writing :: bool
  bc_writer :: writer
  bc_last_recv_time :: int
  bc_last_pong_time :: int
  bc_gate_id :: u32
  bc_link_index :: u32
  bc_accepted :: "SendNode list"
  bc_written :: "SendNode list"

definition kBackendHeartbeatInterval :: int where "kBackendHeartbeatInterval = 5000"
definition kBackendHeartbeatTimeout :: int where "kBackendHeartbeatTimeout = 15000"

definition ClientSession_new :: "int \<Rightarrow> u32 \<Rightarrow> ClientSession" where
  "ClientSession_new now link_index =
     \<lparr>bc_state = BConnecting, bc_send_que = [], bc_send_dropped = 0, bc_is_writing = False,
      bc_writer = NoWriter, bc_last_recv_time = 0, bc_last_pong_time = now, bc_gate_id = 1,
      bc_link_index = link_index, bc_accepted = [], bc_written = []\<rparr>"

definition ClientSession_close :: "ClientSession \<Rightarrow> ClientSession" where
  "ClientSession_close s =
     (if bc_state s = Bclosed \<or> bc_state s = Bclosing then s else s\<lparr>bc_state := Bclosed\<rparr>)"

text \<open>\<^verbatim>\<open>SendData\<close> looks at the queue only, whatever the state.\<close>

definition ClientSession_SendData :: "SendNode \<Rightarrow> ClientSession \<Rightarrow> ClientSession" where
  "ClientSession_SendData node s =
     (let s = (if kMaxSendQueueDepth \<le> length (bc_send_que s)
               then s\<lparr>bc_send_que := tl (bc_send_que s), bc_send_dropped := bc_send_dropped s + 1\<rparr>
               else s);
          s = s\<lparr>bc_send_que := bc_send_que s @ [node], bc_accepted := bc_accepted s @ [node]\<rparr>
      in if bc_is_writing s then s else s\<lparr>bc_is_writing := True, bc_writer := Spawned\<rparr>)"

definition ClientSession_write_turn :: "ClientSession \<Rightarrow> ClientSession" where
  "ClientSession_write_turn s =
     (if bc_send_que s \<noteq> [] \<and> (bc_state s = BBusy \<or> bc_state s = BConnected)
      then s\<lparr>bc_state := BBusy, bc_send_que := tl (bc_send_que s),
             bc_writer := Writing (hd (bc_send_que s)),
             bc_written := bc_written s @ [hd (bc_send_que s)]\<rparr>
      else s\<lparr>bc_is_writing := False, bc_writer := NoWriter,
             bc_state := (if bc_state s = BBusy then BConnected else bc_state s)\<rparr>)"

definition ClientSession_write_error :: "ClientSession \<Rightarrow> ClientSession" where
  "ClientSession_write_error s =
     ClientSession_close (s\<lparr>bc_is_writing := False, bc_writer := NoWriter, bc_state := BError\<rparr>)"

definition send_built :: "SendNode option \<Rightarrow> ClientSession \<Rightarrow> ClientSession" where
  "send_built packet s = (case packet of None \<Rightarrow> s | Some p \<Rightarrow> ClientSession_SendData p s)"

definition SendGateLinkHello :: "gate_codec \<Rightarrow> ClientSession \<Rightarrow> ClientSession" where
  "SendGateLinkHello c s = send_built (BuildGateLinkHello c (bc_gate_id s) (bc_link_index s)) s"

definition SendPing :: "gate_codec \<Rightarrow> u64 \<Rightarrow> ClientSession \<Rightarrow> ClientSession" where
  "SendPing c now_unix_ms s = send_built (BuildPingReq c now_unix_ms) s"

definition MarkPongReceived :: "int \<Rightarrow> ClientSession \<Rightarrow> ClientSession" where
  "MarkPongReceived now s = s\<lparr>bc_last_pong_time := now, bc_last_recv_time := now\<rparr>"

text \<open>\<^verbatim>\<open>handleconnect\<close> up to \<^verbatim>\<open>async_connect\<close>: \<open>config\<close> is what the configuration file gives, port and gate
  id, \<open>None\<close> when no file can be read or a value is missing or malformed. The connection goes on only
  with a port in range.\<close>

definition configure :: "(int \<times> u32) option \<Rightarrow> ClientSession \<Rightarrow> ClientSession" where
  "configure config s =
     (case config of
        None \<Rightarrow>
          if bc_state s \<noteq> Bclosing \<and> bc_state s \<noteq> Bclosed
          then ClientSession_close (s\<lparr>bc_state := BError\<rparr>) else s
      | Some (port_value, gate_id) \<Rightarrow>
          let s = s\<lparr>bc_gate_id := gate_id\<rparr>
          in if port_value < 0 \<or> 65535 < port_value then ClientSession_close (s\<lparr>bc_state := BError\<rparr>) else s)"

text \<open>The timer of five seconds set before connecting.\<close>

definition connect_timeout :: "ClientSession \<Rightarrow> ClientSession" where
  "connect_timeout s = (if bc_state s \<noteq> BConnecting then s else ClientSession_close s)"

text \<open>The rest of \<^verbatim>\<open>handleconnect\<close>, when \<^verbatim>\<open>async_connect\<close> has completed.\<close>

definition on_connect :: "gate_codec \<Rightarrow> bool \<Rightarrow> int \<Rightarrow> u64 \<Rightarrow> ClientSession \<Rightarrow> ClientSession" where
  "on_connect c failed now now_unix_ms s =
     (if failed then
        if bc_state s \<noteq> Bclosing \<and> bc_state s \<noteq> Bclosed
        then ClientSession_close (s\<lparr>bc_state := BError\<rparr>) else s
      else if bc_state s = Bclosing \<or> bc_state s = Bclosed then s
      else
        let s = s\<lparr>bc_state := BConnected, bc_last_recv_time := now, bc_last_pong_time := now\<rparr>
        in SendPing c now_unix_ms (SendGateLinkHello c s))"

text \<open>One round of \<^verbatim>\<open>keep_alive\<close>, when its timer has fired at \<open>now\<close>: the loop goes on while the connection
  is in use; a peer that has not answered for fifteen seconds is given up.\<close>

definition keep_alive_turn :: "gate_codec \<Rightarrow> bool \<Rightarrow> int \<Rightarrow> u64 \<Rightarrow> ClientSession \<Rightarrow> ClientSession" where
  "keep_alive_turn c timer_error now now_unix_ms s =
     (if timer_error then ClientSession_close (s\<lparr>bc_state := BError\<rparr>)
      else if kBackendHeartbeatTimeout < now - bc_last_pong_time s
      then ClientSession_close (s\<lparr>bc_state := BTimeout\<rparr>)
      else SendPing c now_unix_ms s)"

text \<open>The body of \<^verbatim>\<open>HandleRead\<close> for a packet: a pong is answered here, anything else goes to the router
  (second component: the packet for it).\<close>

definition on_backend_packet ::
  "gate_codec \<Rightarrow> int \<Rightarrow> RecvNode \<Rightarrow> ClientSession \<Rightarrow> ClientSession \<times> RecvNode option" where
  "on_backend_packet c now node s =
     (let s = s\<lparr>bc_last_recv_time := now\<rparr>
      in if rn_msg_id node = PongRsp
         then (case ParseProtoFromBytes (gc_pong c) (rn_data node) of
                 None \<Rightarrow> (s, None)
               | Some _ \<Rightarrow> (MarkPongReceived now s, None))
         else (s, Some node))"

subsection \<open>The pool\<close>

text \<open>A slot holds no connection only before \<^verbatim>\<open>Init\<close> has filled it.\<close>

record GameServerConnPool =
  cp_sessions :: "ClientSession option list"
  cp_conn_cnt :: nat
  cp_rr_idx :: u64
  cp_initialized :: bool

definition GAMESERVER_CONN_CNT :: nat where "GAMESERVER_CONN_CNT = 8"

definition GameServerConnPool_new :: GameServerConnPool where
  "GameServerConnPool_new =
     \<lparr>cp_sessions = [], cp_conn_cnt = GAMESERVER_CONN_CNT, cp_rr_idx = 0, cp_initialized = False\<rparr>"

definition CreateConn :: "int \<Rightarrow> nat \<Rightarrow> ClientSession" where
  "CreateConn now slot_index = ClientSession_new now (of_nat slot_index)"

definition Pool_Init :: "int \<Rightarrow> GameServerConnPool \<Rightarrow> GameServerConnPool" where
  "Pool_Init now p =
     (if cp_initialized p then p
      else p\<lparr>cp_sessions := map (\<lambda>i. Some (CreateConn now i)) [0..<cp_conn_cnt p], cp_initialized := True\<rparr>)"

definition Pool_Stop :: "GameServerConnPool \<Rightarrow> GameServerConnPool" where
  "Pool_Stop p = p\<lparr>cp_sessions := [], cp_rr_idx := 0, cp_initialized := False\<rparr>"

definition IsConnAvailable :: "ClientSession option \<Rightarrow> bool" where
  "IsConnAvailable conn =
     (case conn of None \<Rightarrow> False | Some s \<Rightarrow> bc_state s = BConnected \<or> bc_state s = BBusy)"

definition IsConnPendingOrAvailable :: "ClientSession option \<Rightarrow> bool" where
  "IsConnPendingOrAvailable conn =
     (case conn of None \<Rightarrow> False
      | Some s \<Rightarrow> bc_state s = BConnecting \<or> bc_state s = BConnected \<or> bc_state s = BBusy)"

text \<open>The probing loop of \<^verbatim>\<open>SelectConnUnsafe\<close>, with the number of probes left.\<close>

fun select_loop :: "ClientSession option list \<Rightarrow> nat \<Rightarrow> nat \<Rightarrow> u64 \<Rightarrow> nat option \<times> u64" where
  "select_loop sessions cnt 0 rr = (None, rr)"
| "select_loop sessions cnt (Suc n) rr =
     (let idx = unat (rr mod of_nat cnt)
      in if IsConnAvailable (sessions ! idx) then (Some idx, rr + 1)
         else select_loop sessions cnt n (rr + 1))"

definition SelectConnUnsafe :: "GameServerConnPool \<Rightarrow> nat option \<times> GameServerConnPool" where
  "SelectConnUnsafe p =
     (if cp_sessions p = [] then (None, p)
      else
        let (conn, rr) = select_loop (cp_sessions p) (cp_conn_cnt p) (cp_conn_cnt p) (cp_rr_idx p)
        in (conn, p\<lparr>cp_rr_idx := rr\<rparr>))"

definition Pool_PostMessage :: "SendNode \<Rightarrow> GameServerConnPool \<Rightarrow> bool \<times> GameServerConnPool" where
  "Pool_PostMessage node p =
     (case SelectConnUnsafe p of
        (None, p) \<Rightarrow> (False, p)
      | (Some i, p) \<Rightarrow>
          (True, p\<lparr>cp_sessions :=
             (cp_sessions p)[i := map_option (ClientSession_SendData node) (cp_sessions p ! i)]\<rparr>))"

text \<open>A round of \<^verbatim>\<open>detection\<close>, once a second: connections that are neither up nor coming up are replaced.\<close>

definition detect_slot :: "int \<Rightarrow> nat \<Rightarrow> ClientSession option \<Rightarrow> ClientSession option" where
  "detect_slot now i conn = (if IsConnPendingOrAvailable conn then conn else Some (CreateConn now i))"

definition detection_round :: "int \<Rightarrow> GameServerConnPool \<Rightarrow> GameServerConnPool" where
  "detection_round now p =
     p\<lparr>cp_sessions := map (\<lambda>i. detect_slot now i (cp_sessions p ! i)) [0..<cp_conn_cnt p]\<rparr>"

subsection \<open>The connection implements the send queue\<close>

text \<open>The events of a connection in the pool. The pool hands packets only to a connection that is up.\<close>

inductive backend_step :: "ClientSession \<Rightarrow> ClientSession \<Rightarrow> bool" where
  backend_configure: "bc_state s = BConnecting \<Longrightarrow> backend_step s (configure config s)"
| backend_timeout: "backend_step s (connect_timeout s)"
| backend_connect: "bc_state s = BConnecting \<or> bc_state s = Bclosed \<Longrightarrow>
    backend_step s (on_connect c failed now now_unix_ms s)"
| backend_send: "IsConnAvailable (Some s) \<Longrightarrow> backend_step s (ClientSession_SendData node s)"
| backend_writer: "bc_writer s \<noteq> NoWriter \<Longrightarrow> backend_step s (ClientSession_write_turn s)"
| backend_write_error: "bc_writer s = Writing node \<Longrightarrow> backend_step s (ClientSession_write_error s)"
| backend_keep_alive: "IsConnAvailable (Some s) \<Longrightarrow>
    backend_step s (keep_alive_turn c timer_error now now_unix_ms s)"
| backend_packet: "IsConnAvailable (Some s) \<Longrightarrow> backend_step s (fst (on_backend_packet c now node s))"
| backend_close: "backend_step s (ClientSession_close s)"

definition backend_queue :: "ClientSession \<Rightarrow> sendq" where
  "backend_queue s =
     \<lparr>sq_que = bc_send_que s, sq_accepted = bc_accepted s, sq_written = bc_written s,
      sq_dropped = bc_send_dropped s, sq_discarded = False\<rparr>"

definition backend_fresh :: "ClientSession \<Rightarrow> bool" where
  "backend_fresh s \<longleftrightarrow> (\<exists>now link_index. s = ClientSession_new now link_index)"

definition backend_open :: "ClientSession \<Rightarrow> bool" where
  "backend_open s \<longleftrightarrow> bc_state s = BBusy \<or> bc_state s = BConnected"

definition backend_idle :: "ClientSession \<Rightarrow> bool" where
  "backend_idle s \<longleftrightarrow> bc_writer s = NoWriter \<and> \<not> bc_is_writing s"

text \<open>A connection that is coming up has nothing queued; the writer of one that is up runs while
  something is; the state is \<^verbatim>\<open>Busy\<close> exactly during a write.\<close>

definition backend_inv :: "ClientSession \<Rightarrow> bool" where
  "backend_inv s \<longleftrightarrow>
     (bc_is_writing s \<longleftrightarrow> bc_writer s \<noteq> NoWriter) \<and>
     (case bc_state s of
        BConnecting \<Rightarrow> bc_send_que s = [] \<and> bc_writer s = NoWriter
      | BConnected \<Rightarrow> (bc_send_que s \<noteq> [] \<longrightarrow> bc_is_writing s) \<and> (\<forall>n. bc_writer s \<noteq> Writing n)
      | BBusy \<Rightarrow> (\<exists>n. bc_writer s = Writing n)
      | Bclosed \<Rightarrow> True
      | _ \<Rightarrow> False)"

lemma backend_queue_simps [simp]:
  "sq_que (backend_queue s) = bc_send_que s" "\<not> sq_discarded (backend_queue s)"
  by (simp_all add: backend_queue_def)

lemma backend_queue_SendData:
  "backend_queue (ClientSession_SendData node s) = sq_push node (backend_queue s)"
  by (simp add: backend_queue_def ClientSession_SendData_def sq_push_def Let_def)

lemma backend_queue_close [simp]:
  "backend_queue (ClientSession_close s) = backend_queue s"
  "backend_queue (s\<lparr>bc_state := st\<rparr>) = backend_queue s"
  by (simp_all add: backend_queue_def ClientSession_close_def)

lemma backend_queue_send_built:
  "sendq_step\<^sup>*\<^sup>* (backend_queue s) (backend_queue (send_built packet s))"
  using sendq_push [of "backend_queue s"]
  by (auto simp: send_built_def backend_queue_SendData split: option.split)

lemma backend_queue_turn:
  "backend_open s \<Longrightarrow> bc_send_que s \<noteq> [] \<Longrightarrow>
     backend_open (ClientSession_write_turn s) \<and> backend_queue (ClientSession_write_turn s) = sq_take (backend_queue s)"
  "\<not> backend_open s \<or> bc_send_que s = [] \<Longrightarrow>
     backend_idle (ClientSession_write_turn s) \<and> backend_queue (ClientSession_write_turn s) = backend_queue s"
  by (auto simp: backend_queue_def ClientSession_write_turn_def sq_take_def backend_open_def backend_idle_def)

lemma backend_queue_event:
  assumes "backend_step s t"
  shows "sendq_step\<^sup>*\<^sup>* (backend_queue s) (backend_queue t)"
  using assms
proof cases
  case (backend_configure config)
  then show ?thesis by (auto simp: configure_def backend_queue_def ClientSession_close_def Let_def split: option.split)
next
  case (backend_connect c failed now now_unix_ms)
  let ?s = "s\<lparr>bc_state := BConnected, bc_last_recv_time := now, bc_last_pong_time := now\<rparr>"
  have "backend_queue ?s = backend_queue s" by (simp add: backend_queue_def)
  then have "sendq_step\<^sup>*\<^sup>* (backend_queue s) (backend_queue (SendPing c now_unix_ms (SendGateLinkHello c ?s)))"
    unfolding SendPing_def SendGateLinkHello_def
    using backend_queue_send_built rtranclp_trans by metis
  then show ?thesis using backend_connect by (simp add: on_connect_def Let_def)
next
  case (backend_send node)
  then show ?thesis using sendq_push [of "backend_queue s" node] by (auto simp: backend_queue_SendData)
next
  case backend_writer
  then show ?thesis
    using backend_queue_turn [of s] sendq_take [of "backend_queue s"]
    by (cases "backend_open s \<and> bc_send_que s \<noteq> []") auto
next
  case (backend_keep_alive c timer_error now now_unix_ms)
  then show ?thesis using backend_queue_send_built by (auto simp: keep_alive_turn_def SendPing_def)
qed (auto simp: backend_queue_def connect_timeout_def ClientSession_write_error_def on_backend_packet_def
      MarkPongReceived_def ClientSession_close_def Let_def split: option.split)

lemma backend_inv_SendData:
  "backend_inv s \<Longrightarrow> backend_open s \<Longrightarrow>
     backend_inv (ClientSession_SendData node s) \<and> backend_open (ClientSession_SendData node s)"
  by (auto simp: backend_inv_def backend_open_def ClientSession_SendData_def Let_def)

lemma backend_inv_send_built:
  "backend_inv s \<Longrightarrow> backend_open s \<Longrightarrow> backend_inv (send_built p s) \<and> backend_open (send_built p s)"
  by (simp add: send_built_def backend_inv_SendData split: option.split)

lemma backend_inv_close: "backend_inv s \<Longrightarrow> backend_inv (ClientSession_close s)"
  "bc_is_writing s = (bc_writer s \<noteq> NoWriter) \<Longrightarrow> bc_state s \<noteq> Bclosing \<Longrightarrow> backend_inv (ClientSession_close s)"
  by (auto simp: backend_inv_def ClientSession_close_def)

lemma backend_inv_event:
  assumes "backend_inv s" and "backend_step s t"
  shows "backend_inv t"
  using assms(2,1)
proof cases
  case (backend_configure config)
  then show ?thesis using assms(1) by (auto simp: configure_def backend_inv_def ClientSession_close_def Let_def split: option.split)
next
  case backend_timeout
  then show ?thesis using assms(1) by (simp add: connect_timeout_def backend_inv_close)
next
  case (backend_connect c failed now now_unix_ms)
  let ?s = "s\<lparr>bc_state := BConnected, bc_last_recv_time := now, bc_last_pong_time := now\<rparr>"
  have "backend_inv (SendPing c now_unix_ms (SendGateLinkHello c ?s))" if "bc_state s = BConnecting"
  proof -
    have "backend_inv ?s \<and> backend_open ?s" using that assms(1) by (simp add: backend_inv_def backend_open_def)
    then show ?thesis by (simp add: SendPing_def SendGateLinkHello_def backend_inv_send_built)
  qed
  then show ?thesis
    using backend_connect assms(1)
    by (auto simp: on_connect_def Let_def, auto simp: backend_inv_def ClientSession_close_def)
next
  case (backend_send node)
  then show ?thesis
    using assms(1) backend_inv_SendData by (auto simp: IsConnAvailable_def backend_open_def)
next
  case backend_writer
  then show ?thesis
    using assms(1) by (auto simp: backend_inv_def ClientSession_write_turn_def split: ClientSession_state.splits)
next
  case (backend_keep_alive c timer_error now now_unix_ms)
  then have "backend_open s" by (auto simp: IsConnAvailable_def backend_open_def)
  then show ?thesis
    using backend_keep_alive assms(1) backend_inv_send_built [of s]
    by (auto simp: keep_alive_turn_def SendPing_def, auto simp: backend_inv_def ClientSession_close_def)
qed (use assms(1) in \<open>auto simp: backend_inv_def ClientSession_write_error_def on_backend_packet_def
      MarkPongReceived_def ClientSession_close_def Let_def split: option.splits ClientSession_state.splits\<close>)

interpretation backend: armed_writer backend_queue backend_fresh backend_step ClientSession_write_turn backend_open backend_idle backend_inv
proof
  show "backend_queue s = sendq_empty" "backend_inv s" if "backend_fresh s" for s
    using that by (auto simp: backend_fresh_def backend_queue_def ClientSession_new_def sendq_empty_def backend_inv_def)
  show "sq_que (backend_queue s) = []" if "backend_inv s" "backend_open s" "backend_idle s" for s
    using that by (auto simp: backend_inv_def backend_idle_def backend_open_def)
qed (use backend_queue_event backend_queue_turn backend_inv_event in auto)

subsection \<open>The heartbeat\<close>

text \<open>The rounds of the heartbeat at the times \<open>ts\<close>, with no answer in between.\<close>

definition unanswered :: "gate_codec \<Rightarrow> u64 \<Rightarrow> int list \<Rightarrow> ClientSession \<Rightarrow> ClientSession" where
  "unanswered c now_unix_ms ts s = fold (\<lambda>now. keep_alive_turn c False now now_unix_ms) ts s"

lemma send_built_time [simp]:
  "bc_last_pong_time (send_built p s) = bc_last_pong_time s" "bc_state (send_built p s) = bc_state s"
  by (simp_all add: send_built_def ClientSession_SendData_def Let_def split: option.split)

lemma keep_alive_turn_state:
  "bc_state (keep_alive_turn c False now now_unix_ms s) =
     (if kBackendHeartbeatTimeout < now - bc_last_pong_time s then Bclosed else bc_state s)"
  "bc_last_pong_time (keep_alive_turn c False now now_unix_ms s) = bc_last_pong_time s"
  by (simp_all add: keep_alive_turn_def SendPing_def ClientSession_close_def)

lemma unanswered_state:
  "bc_state (unanswered c now_unix_ms ts s) =
     (if list_ex (\<lambda>t. kBackendHeartbeatTimeout < t - bc_last_pong_time s) ts then Bclosed else bc_state s)"
  by (induction ts arbitrary: s) (auto simp: unanswered_def keep_alive_turn_state)

subsection \<open>Choosing a connection\<close>

definition pool_ok :: "GameServerConnPool \<Rightarrow> bool" where
  "pool_ok p \<longleftrightarrow> cp_conn_cnt p = GAMESERVER_CONN_CNT \<and> length (cp_sessions p) = GAMESERVER_CONN_CNT"

definition probe :: "u64 \<Rightarrow> nat \<Rightarrow> nat" where
  "probe rr k = (unat rr + k) mod GAMESERVER_CONN_CNT"

lemma probe_word: "unat ((rr + of_nat k) mod of_nat GAMESERVER_CONN_CNT) = probe rr k"
proof -
  have "unat ((rr + of_nat k) mod 8) = unat (rr + of_nat k) mod 8" by (simp add: unat_mod_distrib)
  also have "\<dots> = (unat rr + k) mod 2 ^ 64 mod 8"
    by (simp add: unat_word_ariths unat_of_nat mod_add_right_eq)
  also have "\<dots> = (unat rr + k) mod 8" by (simp add: mod_mod_cancel)
  finally show ?thesis by (simp add: probe_def GAMESERVER_CONN_CNT_def)
qed

lemma probe_Suc: "probe (rr + 1) k = probe rr (Suc k)"
  using probe_word [of "rr + 1" k] probe_word [of rr "Suc k"] by (simp add: add.assoc)

lemma probe_less: "probe rr k < GAMESERVER_CONN_CNT"
  by (simp add: probe_def GAMESERVER_CONN_CNT_def)

lemma probe_onto:
  assumes "i < GAMESERVER_CONN_CNT"
  shows "\<exists>k < GAMESERVER_CONN_CNT. probe rr k = i"
proof -
  define r where "r = unat rr mod 8"
  have "probe rr ((i + (8 - r)) mod 8) = (unat rr + (i + (8 - r))) mod 8"
    by (simp add: probe_def GAMESERVER_CONN_CNT_def mod_add_right_eq)
  also have "\<dots> = (r + (i + (8 - r))) mod 8" unfolding r_def by (rule mod_add_left_eq [symmetric])
  also have "r + (i + (8 - r)) = i + 8" by (simp add: r_def)
  also have "(i + 8) mod 8 = i" using assms by (simp add: GAMESERVER_CONN_CNT_def)
  finally have "probe rr ((i + (8 - r)) mod 8) = i" .
  then show ?thesis
    by (intro exI [of _ "(i + (8 - r)) mod 8"]) (simp add: GAMESERVER_CONN_CNT_def)
qed

lemma select_loop_find:
  "select_loop sessions GAMESERVER_CONN_CNT n rr =
     (case List.find (\<lambda>k. IsConnAvailable (sessions ! probe rr k)) [0..<n] of
        None \<Rightarrow> (None, rr + of_nat n)
      | Some k \<Rightarrow> (Some (probe rr k), rr + of_nat (Suc k)))"
proof (induction n arbitrary: rr)
  case (Suc n)
  have shift: "List.find P [0..<Suc n] = (if P 0 then Some 0 else map_option Suc (List.find (\<lambda>k. P (Suc k)) [0..<n]))"
    for P :: "nat \<Rightarrow> bool"
  proof -
    have "List.find P (map Suc ks) = map_option Suc (List.find (\<lambda>k. P (Suc k)) ks)" for ks
      by (induction ks) auto
    then show ?thesis by (simp add: upt_conv_Cons map_Suc_upt [symmetric] del: upt_Suc map_Suc_upt)
  qed
  show ?case
    using Suc.IH [of "rr + 1"] probe_word [of rr 0]
    by (auto simp: shift probe_Suc Let_def add.assoc simp del: upt_Suc split: option.split)
qed simp

text \<open>A packet goes to the first connection that is up, starting with the next one in turn; it is lost
  only if none is.\<close>

lemma Pool_PostMessage_spec:
  assumes "pool_ok p"
  shows "if \<forall>i < GAMESERVER_CONN_CNT. \<not> IsConnAvailable (cp_sessions p ! i)
    then \<not> fst (Pool_PostMessage node p) \<and> cp_sessions (snd (Pool_PostMessage node p)) = cp_sessions p
    else \<exists>k < GAMESERVER_CONN_CNT.
      (\<forall>j < k. \<not> IsConnAvailable (cp_sessions p ! probe (cp_rr_idx p) j)) \<and>
      IsConnAvailable (cp_sessions p ! probe (cp_rr_idx p) k) \<and>
      Pool_PostMessage node p = (True, p\<lparr>cp_rr_idx := cp_rr_idx p + of_nat (Suc k),
        cp_sessions := (cp_sessions p)[probe (cp_rr_idx p) k :=
          map_option (ClientSession_SendData node) (cp_sessions p ! probe (cp_rr_idx p) k)]\<rparr>)"
proof -
  let ?P = "\<lambda>k. IsConnAvailable (cp_sessions p ! probe (cp_rr_idx p) k)"
  have ne: "cp_sessions p \<noteq> []" "cp_conn_cnt p = GAMESERVER_CONN_CNT"
    using assms by (auto simp: pool_ok_def GAMESERVER_CONN_CNT_def)
  have all: "(\<forall>i < GAMESERVER_CONN_CNT. \<not> IsConnAvailable (cp_sessions p ! i)) \<longleftrightarrow>
      (\<forall>k < GAMESERVER_CONN_CNT. \<not> ?P k)"
    using probe_onto probe_less by metis
  show ?thesis
  proof (cases "List.find ?P [0..<GAMESERVER_CONN_CNT]")
    case None
    then have "\<forall>k < GAMESERVER_CONN_CNT. \<not> ?P k" by (simp add: find_None_iff)
    then show ?thesis
      using ne None all by (simp add: Pool_PostMessage_def SelectConnUnsafe_def select_loop_find)
  next
    case (Some k)
    then have k: "k < GAMESERVER_CONN_CNT" "?P k" "\<forall>j < k. \<not> ?P j"
      by (auto simp: find_Some_iff)
    then show ?thesis
      using ne Some all by (auto simp: Pool_PostMessage_def SelectConnUnsafe_def select_loop_find)
  qed
qed

lemma pool_ok_ops:
  "pool_ok (Pool_Init now GameServerConnPool_new)"
  "pool_ok p \<Longrightarrow> pool_ok (snd (Pool_PostMessage node p))"
  "pool_ok p \<Longrightarrow> pool_ok (detection_round now p)"
  by (auto simp: pool_ok_def Pool_Init_def GameServerConnPool_new_def Pool_PostMessage_def
      SelectConnUnsafe_def detection_round_def Let_def split: option.splits prod.splits)

lemma detection_round_up:
  assumes "pool_ok p" and "i < GAMESERVER_CONN_CNT"
  shows "IsConnPendingOrAvailable (cp_sessions (detection_round now p) ! i) \<and>
    (IsConnPendingOrAvailable (cp_sessions p ! i) \<longrightarrow>
       cp_sessions (detection_round now p) ! i = cp_sessions p ! i)"
  using assms
  by (auto simp: pool_ok_def detection_round_def detect_slot_def CreateConn_def ClientSession_new_def
      IsConnPendingOrAvailable_def)

end
