(* ===== verification/Gate.thy ===== *)
theory Gate
  imports BackendLink
begin

text \<open>
  The gate server (\<^verbatim>\<open>GateSessionRegistry.cc\<close>, \<^verbatim>\<open>WorkShard.cc\<close>, \<^verbatim>\<open>Router.cc\<close>, \<^verbatim>\<open>Csession.cc\<close>, \<^verbatim>\<open>Cserver.cc\<close> and
  the forwarding in \<^verbatim>\<open>GateProtocol.cc\<close>). Sessions are shared objects: \<open>gt_objs\<close> is the store of those
  alive, by their uuid; a \<^verbatim>\<open>shared_ptr\<close> or \<^verbatim>\<open>weak_ptr\<close> to a session is its uuid, and locking a weak
  pointer is a lookup in the store. A send that is posted to the thread of another shard is an
  effect, which \<open>run_effect\<close> executes later.
\<close>

subsection \<open>State\<close>

record Entry =
  en_shard :: nat
  en_session :: string
  en_session_id :: u64

type_synonym registry = "(u64, Entry) umap"

record WorkShard =
  ws_ConnPool :: "GameServerConnPool option"
  ws_user_session_mgr :: "(string, string) umap"
  ws_user_id_mgr :: "(u64, string) umap"
  ws_b_stop :: bool

record Gate =
  gt_objs :: "(string, Csession) umap"
  gt_shards :: "WorkShard list"
  gt_registry :: registry
  gt_idx :: nat
  gt_stopping :: bool

datatype gate_effect = PostSendData nat string SendNode

record gate_env =
  gv_hash :: "string \<Rightarrow> u64"
  gv_codec :: gate_codec
  gv_ord :: "u64 list \<Rightarrow> u64 list"

definition WORK_SHARD_NUMBER :: nat where "WORK_SHARD_NUMBER = 8"

definition WorkShard_new :: WorkShard where
  "WorkShard_new = \<lparr>ws_ConnPool = None, ws_user_session_mgr = [], ws_user_id_mgr = [], ws_b_stop = True\<rparr>"

definition Gate_new :: Gate where
  "Gate_new = \<lparr>gt_objs = [], gt_shards = replicate WORK_SHARD_NUMBER WorkShard_new, gt_registry = [],
     gt_idx = 0, gt_stopping = False\<rparr>"

definition on_shard :: "nat \<Rightarrow> (WorkShard \<Rightarrow> WorkShard) \<Rightarrow> Gate \<Rightarrow> Gate" where
  "on_shard k f g = g\<lparr>gt_shards := (gt_shards g)[k := f (gt_shards g ! k)]\<rparr>"

definition on_session :: "string \<Rightarrow> (Csession \<Rightarrow> Csession) \<Rightarrow> Gate \<Rightarrow> Gate" where
  "on_session uuid f g = g\<lparr>gt_objs := um_adjust uuid f (gt_objs g)\<rparr>"

definition send_data :: "string \<Rightarrow> SendNode \<Rightarrow> Gate \<Rightarrow> Gate" where
  "send_data uuid node = on_session uuid (Csession_SendData node)"

fun run_effect :: "gate_effect \<Rightarrow> Gate \<Rightarrow> Gate" where
  "run_effect (PostSendData shard uuid node) g = send_data uuid node g"

subsection \<open>The registry\<close>

definition Register :: "(string \<Rightarrow> u64) \<Rightarrow> u64 \<Rightarrow> nat \<Rightarrow> string \<Rightarrow> registry \<Rightarrow> registry" where
  "Register hash uid shard uuid r =
     (if uid = 0 then r
      else um_assign uid
        \<lparr>en_shard = shard, en_session = uuid, en_session_id = get_session_id hash uuid\<rparr> r)"

definition Unregister :: "u64 \<Rightarrow> u64 \<Rightarrow> registry \<Rightarrow> registry" where
  "Unregister uid session_id r =
     (if uid = 0 then r
      else case um_find r uid of
        None \<Rightarrow> r
      | Some entry \<Rightarrow>
          if session_id \<noteq> 0 \<and> en_session_id entry \<noteq> session_id then r else um_erase uid r)"

definition Registry_SendToUid :: "u64 \<Rightarrow> SendNode \<Rightarrow> Gate \<Rightarrow> bool \<times> gate_effect list \<times> Gate" where
  "Registry_SendToUid uid node g =
     (if uid = 0 then (False, [], g)
      else case um_find (gt_registry g) uid of
        None \<Rightarrow> (False, [], g)
      | Some entry \<Rightarrow>
          (case um_find (gt_objs g) (en_session entry) of
             None \<Rightarrow> (False, [], g\<lparr>gt_registry := um_erase uid (gt_registry g)\<rparr>)
           | Some _ \<Rightarrow> (True, [PostSendData (en_shard entry) (en_session entry) node], g)))"

definition alive :: "Gate \<Rightarrow> Entry \<Rightarrow> bool" where
  "alive g entry \<longleftrightarrow> um_find (gt_objs g) (en_session entry) \<noteq> None"

definition Registry_Broadcast ::
  "gate_env \<Rightarrow> SendNode \<Rightarrow> Gate \<Rightarrow> nat \<times> gate_effect list \<times> Gate" where
  "Registry_Broadcast e node g =
     (let targets = filter (alive g)
            (List.map_filter (um_find (gt_registry g)) (gv_ord e (um_keys (gt_registry g))))
      in (length targets, map (\<lambda>t. PostSendData (en_shard t) (en_session t) node) targets,
          g\<lparr>gt_registry := um_erase_if (\<lambda>entry. \<not> alive g entry) (gt_registry g)\<rparr>))"

subsection \<open>Work shards\<close>

definition WorkShard_start :: "int \<Rightarrow> WorkShard \<Rightarrow> WorkShard" where
  "WorkShard_start now w =
     (if \<not> ws_b_stop w then w
      else w\<lparr>ws_b_stop := False, ws_ConnPool := Some (Pool_Init now GameServerConnPool_new)\<rparr>)"

definition WorkShard_stop :: "WorkShard \<Rightarrow> WorkShard" where
  "WorkShard_stop w =
     (if ws_b_stop w then w else w\<lparr>ws_b_stop := True, ws_ConnPool := map_option Pool_Stop (ws_ConnPool w)\<rparr>)"

definition WorkShard_PostMessage :: "SendNode \<Rightarrow> WorkShard \<Rightarrow> WorkShard" where
  "WorkShard_PostMessage node w =
     w\<lparr>ws_ConnPool := map_option (\<lambda>pool. snd (Pool_PostMessage node pool)) (ws_ConnPool w)\<rparr>"

definition NotifyGameServerDisconnect :: "gate_codec \<Rightarrow> u64 \<Rightarrow> WorkShard \<Rightarrow> WorkShard" where
  "NotifyGameServerDisconnect c uid w =
     (if ws_ConnPool w = None \<or> uid = 0 then w
      else case BuildClientDisconnectedNtf c uid of
        None \<Rightarrow> w
      | Some packet \<Rightarrow> WorkShard_PostMessage packet w)"

definition FindSessionByUid :: "u64 \<Rightarrow> WorkShard \<Rightarrow> string option" where
  "FindSessionByUid uid w =
     (case um_find (ws_user_id_mgr w) uid of
        None \<Rightarrow> None
      | Some name \<Rightarrow> um_find (ws_user_session_mgr w) name)"

definition add_user_session :: "string \<Rightarrow> string \<Rightarrow> WorkShard \<Rightarrow> WorkShard" where
  "add_user_session name session w = w\<lparr>ws_user_session_mgr := um_assign name session (ws_user_session_mgr w)\<rparr>"

definition delete_user_session :: "string \<Rightarrow> WorkShard \<Rightarrow> WorkShard" where
  "delete_user_session name w =
     w\<lparr>ws_user_id_mgr := um_erase_if (\<lambda>n. n = name) (ws_user_id_mgr w),
       ws_user_session_mgr := um_erase name (ws_user_session_mgr w)\<rparr>"

definition add_uid :: "u64 \<Rightarrow> string \<Rightarrow> WorkShard \<Rightarrow> WorkShard" where
  "add_uid uid uuid w = w\<lparr>ws_user_id_mgr := um_assign uid uuid (ws_user_id_mgr w)\<rparr>"

definition delete_uid :: "u64 \<Rightarrow> WorkShard \<Rightarrow> WorkShard" where
  "delete_uid uid w = w\<lparr>ws_user_id_mgr := um_erase uid (ws_user_id_mgr w)\<rparr>"

definition WorkShard_SendToUid :: "nat \<Rightarrow> u64 \<Rightarrow> SendNode \<Rightarrow> Gate \<Rightarrow> bool \<times> gate_effect list \<times> Gate" where
  "WorkShard_SendToUid k uid node g =
     (case FindSessionByUid uid (gt_shards g ! k) of
        Some session \<Rightarrow> (True, [], send_data session node g)
      | None \<Rightarrow> Registry_SendToUid uid node g)"

definition WorkShard_Broadcast :: "gate_env \<Rightarrow> SendNode \<Rightarrow> Gate \<Rightarrow> nat \<times> gate_effect list \<times> Gate" where
  "WorkShard_Broadcast e node g = Registry_Broadcast e node g"

subsection \<open>Client sessions\<close>

definition Csession_close :: "gate_env \<Rightarrow> string \<Rightarrow> Gate \<Rightarrow> Gate" where
  "Csession_close e uuid g =
     (case um_find (gt_objs g) uuid of
        None \<Rightarrow> g
      | Some s \<Rightarrow>
          if cs_state s = Closing \<or> cs_state s = Closed then g
          else
            let uid = cs_uid s;
                g = g\<lparr>gt_registry := Unregister uid (get_session_id (gv_hash e) uuid) (gt_registry g)\<rparr>;
                g = on_session uuid Csession_set_closed g;
                g = (if uid \<noteq> 0 then on_shard (cs_shard s) (NotifyGameServerDisconnect (gv_codec e) uid) g else g);
                g = on_shard (cs_shard s) (delete_uid uid) g
            in on_shard (cs_shard s) (delete_user_session uuid) g)"

definition BindUid :: "gate_env \<Rightarrow> string \<Rightarrow> u64 \<Rightarrow> Gate \<Rightarrow> Gate" where
  "BindUid e uuid uid g =
     (case um_find (gt_objs g) uuid of
        None \<Rightarrow> g
      | Some s \<Rightarrow>
          if uid = 0 then g
          else
            let g = (if cs_uid s \<noteq> 0 \<and> cs_uid s \<noteq> uid
                     then on_shard (cs_shard s) (delete_uid (cs_uid s))
                            (g\<lparr>gt_registry := Unregister (cs_uid s) (get_session_id (gv_hash e) uuid) (gt_registry g)\<rparr>)
                     else g);
                g = on_session uuid (\<lambda>s. s\<lparr>cs_uid := uid\<rparr>) g;
                g = on_shard (cs_shard s) (add_uid uid uuid) g
            in g\<lparr>gt_registry := Register (gv_hash e) uid (cs_shard s) uuid (gt_registry g)\<rparr>)"

subsection \<open>The client router\<close>

definition SendToClient :: "string \<Rightarrow> SendNode option \<Rightarrow> Gate \<Rightarrow> Gate" where
  "SendToClient uuid packet g = (case packet of None \<Rightarrow> g | Some p \<Rightarrow> send_data uuid p g)"

definition reply :: "gate_codec \<Rightarrow> MsgId \<Rightarrow> string \<Rightarrow> GateMsg \<Rightarrow> Gate \<Rightarrow> Gate" where
  "reply c msg_id uuid message g =
     (case gc_serialize c message of
        None \<Rightarrow> g
      | Some payload \<Rightarrow> SendToClient uuid (BuildPacket msg_id payload) g)"

definition HandleLoginReq :: "gate_env \<Rightarrow> string \<Rightarrow> byte list \<Rightarrow> Gate \<Rightarrow> Gate" where
  "HandleLoginReq e uuid body g =
     (case ParseProtoFromBytes (gc_login (gv_codec e)) body of
        None \<Rightarrow>
          reply (gv_codec e) LoginRsp uuid
            (LoginRspMsg ERROR_INVALID_REQUEST 0 ''invalid LoginReq protobuf body'') g
      | Some (account, token) \<Rightarrow>
          let uid = MakeLoginUid (gv_hash e) uuid account token
          in reply (gv_codec e) LoginRsp uuid (LoginRspMsg ERROR_NONE uid []) (BindUid e uuid uid g))"

definition HandlePingReq :: "gate_env \<Rightarrow> u64 \<Rightarrow> string \<Rightarrow> byte list \<Rightarrow> Gate \<Rightarrow> Gate" where
  "HandlePingReq e now_unix_ms uuid body g =
     (let client_time_ms = (if 2147483647 < length body then 0 else gc_ping (gv_codec e) body)
      in reply (gv_codec e) PongRsp uuid (GatePongMsg client_time_ms now_unix_ms) g)"

definition ForwardClientMsgToGame :: "gate_env \<Rightarrow> MsgId \<Rightarrow> string \<Rightarrow> byte list \<Rightarrow> Gate \<Rightarrow> Gate" where
  "ForwardClientMsgToGame e msgid uuid body g =
     (case um_find (gt_objs g) uuid of
        None \<Rightarrow> g
      | Some s \<Rightarrow>
          if cs_uid s = 0
          then SendToClient uuid
                 (BuildCommandRejected (gv_codec e) 0 0 ERROR_NOT_LOGGED_IN ''client is not logged in'') g
          else
            case BuildGateToGameEnvelope (gv_codec e) (cs_uid s) (get_session_id (gv_hash e) uuid) msgid body of
              None \<Rightarrow> g
            | Some packet \<Rightarrow> on_shard (cs_shard s) (WorkShard_PostMessage packet) g)"

definition client_forwards :: "MsgId list" where
  "client_forwards = [CreateRoomReq, JoinRoomReq, LeaveRoomReq, PlayerReadyReq, EnterBattleReq, MoveCmd,
     AttackCmd, SkillCmd, HarvestCmd, StoreResourceCmd, PickupResourceCmd, BuildCmd, ConstructCmd,
     TrainUnitCmd, StopCmd]"

definition ClientIngress_HandleMsg :: "gate_env \<Rightarrow> u64 \<Rightarrow> MsgId \<Rightarrow> string \<Rightarrow> byte list \<Rightarrow> Gate \<Rightarrow> Gate" where
  "ClientIngress_HandleMsg e now_unix_ms msgid uuid body g =
     (if msgid = LoginReq then HandleLoginReq e uuid body g
      else if msgid = PingReq then HandlePingReq e now_unix_ms uuid body g
      else if msgid \<in> set client_forwards then ForwardClientMsgToGame e msgid uuid body g
      else g)"

text \<open>The read loop of a session on all that arrives before the connection ends: the packets are handled
  in order, then the session is closed, by the end of the stream or by a bad header.\<close>

definition Csession_handle_read :: "gate_env \<Rightarrow> u64 \<Rightarrow> string \<Rightarrow> byte list \<Rightarrow> Gate \<Rightarrow> Gate" where
  "Csession_handle_read e now_unix_ms uuid bs g =
     Csession_close e uuid
       (fold (\<lambda>node. ClientIngress_HandleMsg e now_unix_ms (rn_msg_id node) uuid (rn_data node))
          (Csession_read bs) g)"

text \<open>A round of \<^verbatim>\<open>start_heartbeat\<close>: the timer of thirty seconds is cancelled by every packet, and only if
  it runs out the session is closed.\<close>

datatype timer_result = TimerExpired | TimerAborted | TimerFailed

definition heartbeat_round :: "gate_env \<Rightarrow> timer_result \<Rightarrow> string \<Rightarrow> Gate \<Rightarrow> Gate" where
  "heartbeat_round e result uuid g = (if result = TimerExpired then Csession_close e uuid g else g)"

subsection \<open>The backend router\<close>

definition send_to_uids :: "nat \<Rightarrow> SendNode \<Rightarrow> u64 list \<Rightarrow> Gate \<Rightarrow> nat \<times> gate_effect list \<times> Gate" where
  "send_to_uids k packet uids g =
     fold (\<lambda>uid (sent, effects, g).
             let (ok, posted, g) = WorkShard_SendToUid k uid packet g
             in (if ok then Suc sent else sent, effects @ posted, g))
       uids (0, [], g)"

definition ForwardGameToClients ::
  "gate_env \<Rightarrow> nat \<Rightarrow> byte list \<Rightarrow> Gate \<Rightarrow> bool \<times> gate_effect list \<times> Gate" where
  "ForwardGameToClients e k body g =
     (case ParseProtoFromBytes (gc_game_to_gate (gv_codec e)) body of
        None \<Rightarrow> (False, [], g)
      | Some envelope \<Rightarrow>
          (case BuildPacket (ucast (gg_inner_msg_id envelope)) (gg_payload envelope) of
             None \<Rightarrow> (False, [], g)
           | Some packet \<Rightarrow>
               let (sent, effects, g) =
                     (if gg_target_uids envelope = [] then WorkShard_Broadcast e packet g
                      else send_to_uids k packet (gg_target_uids envelope) g)
               in (0 < sent, effects, g)))"

definition BackendIngress_HandleMsg ::
  "gate_env \<Rightarrow> nat \<Rightarrow> RecvNode \<Rightarrow> Gate \<Rightarrow> gate_effect list \<times> Gate" where
  "BackendIngress_HandleMsg e k node g =
     (if rn_msg_id node = GameToGateEnvelope then snd (ForwardGameToClients e k (rn_data node) g) else ([], g))"

subsection \<open>The server\<close>

definition get_shard :: "Gate \<Rightarrow> nat \<times> Gate" where
  "get_shard g = (gt_idx g, g\<lparr>gt_idx := (gt_idx g + 1) mod WORK_SHARD_NUMBER\<rparr>)"

text \<open>\<^verbatim>\<open>StartAccept\<close> with the uuid of the session it creates, and its completion handler, which runs
  \<^verbatim>\<open>StartAccept\<close> again.\<close>

definition StartAccept :: "string \<Rightarrow> Gate \<Rightarrow> Gate" where
  "StartAccept uuid g =
     (if gt_stopping g then g
      else let (k, g) = get_shard g
           in g\<lparr>gt_objs := um_emplace uuid (Csession_new uuid k) (gt_objs g)\<rparr>)"

definition on_client_accept :: "accept_result \<Rightarrow> string \<Rightarrow> string \<Rightarrow> Gate \<Rightarrow> Gate" where
  "on_client_accept result uuid next_uuid g =
     (if result = Accepted
      then case um_find (gt_objs g) uuid of
             None \<Rightarrow> g
           | Some s \<Rightarrow>
               StartAccept next_uuid
                 (on_session uuid Csession_start (on_shard (cs_shard s) (add_user_session uuid uuid) g))
      else if gt_stopping g \<or> result = AcceptAborted then g
      else StartAccept next_uuid g)"

definition Cserver_start :: "int \<Rightarrow> string \<Rightarrow> Gate \<Rightarrow> Gate" where
  "Cserver_start now uuid g =
     StartAccept uuid (g\<lparr>gt_stopping := False, gt_shards := map (WorkShard_start now) (gt_shards g)\<rparr>)"

definition Cserver_stop :: "Gate \<Rightarrow> Gate" where
  "Cserver_stop g =
     (if gt_stopping g then g
      else g\<lparr>gt_stopping := True, gt_shards := map WorkShard_stop (gt_shards g)\<rparr>)"

end
