(* ===== verification/GateInvariants.thy ===== *)
theory GateInvariants
  imports Gate
begin

text \<open>
  The gate server over time: its events as a step relation and the invariant that its three tables,
  the registry and the two maps of every work shard, agree with the sessions they name. What is
  addressed to a player then reaches a session of that player or nobody.
\<close>

subsection \<open>The invariant\<close>

text \<open>Who a session of the store is and where: the player's id and the work shard.\<close>

definition who :: "Gate \<Rightarrow> string \<Rightarrow> (u64 \<times> nat) option" where
  "who g u = map_option (\<lambda>s. (cs_uid s, cs_shard s)) (um_find (gt_objs g) u)"

definition entry_ok :: "(string \<Rightarrow> u64) \<Rightarrow> (string \<Rightarrow> (u64 \<times> nat) option) \<Rightarrow> u64 \<Rightarrow> Entry \<Rightarrow> bool" where
  "entry_ok hash at uid en \<longleftrightarrow>
     uid \<noteq> 0 \<and> en_session_id en = get_session_id hash (en_session en) \<and>
     at (en_session en) \<in> {None, Some (uid, en_shard en)}"

definition tables_ok :: "(string \<Rightarrow> (u64 \<times> nat) option) \<Rightarrow> nat \<Rightarrow> WorkShard \<Rightarrow> bool" where
  "tables_ok at k w \<longleftrightarrow>
     um_ok (ws_user_id_mgr w) \<and> um_ok (ws_user_session_mgr w) \<and>
     (\<forall>name session. um_find (ws_user_session_mgr w) name = Some session \<longrightarrow>
        session = name \<and> (\<exists>uid. at name = Some (uid, k))) \<and>
     (\<forall>uid name. um_find (ws_user_id_mgr w) uid = Some name \<longrightarrow>
        uid \<noteq> 0 \<and> at name \<in> {None, Some (uid, k)})"

definition gate_ok :: "(string \<Rightarrow> u64) \<Rightarrow> Gate \<Rightarrow> bool" where
  "gate_ok hash g \<longleftrightarrow>
     um_ok (gt_objs g) \<and> um_ok (gt_registry g) \<and>
     length (gt_shards g) = WORK_SHARD_NUMBER \<and> gt_idx g < WORK_SHARD_NUMBER \<and>
     (\<forall>u uid k. who g u = Some (uid, k) \<longrightarrow> k < WORK_SHARD_NUMBER) \<and>
     (\<forall>uid en. um_find (gt_registry g) uid = Some en \<longrightarrow> entry_ok hash (who g) uid en) \<and>
     (\<forall>k < WORK_SHARD_NUMBER. tables_ok (who g) k (gt_shards g ! k))"

lemma gate_ok_new: "gate_ok hash Gate_new"
  by (simp add: gate_ok_def Gate_new_def tables_ok_def WorkShard_new_def WORK_SHARD_NUMBER_def who_def)

subsection \<open>Updates that keep it\<close>

lemma on_shard_simps [simp]:
  "gt_objs (on_shard k f g) = gt_objs g" "gt_registry (on_shard k f g) = gt_registry g"
  "gt_idx (on_shard k f g) = gt_idx g" "length (gt_shards (on_shard k f g)) = length (gt_shards g)"
  "k < length (gt_shards g) \<Longrightarrow> gt_shards (on_shard k f g) ! j = (if j = k then f (gt_shards g ! k) else gt_shards g ! j)"
  by (simp_all add: on_shard_def nth_list_update)

lemma on_session_simps [simp]:
  "gt_shards (on_session u f g) = gt_shards g" "gt_registry (on_session u f g) = gt_registry g"
  "gt_idx (on_session u f g) = gt_idx g" "gt_objs (on_session u f g) = um_adjust u f (gt_objs g)"
  by (simp_all add: on_session_def)

lemma who_simps [simp]:
  "who (on_shard k f g) = who g" "who (g\<lparr>gt_registry := r\<rparr>) = who g"
  by (simp_all add: who_def fun_eq_iff)

lemma who_on_session:
  assumes "\<And>s. cs_shard (f s) = cs_shard s \<and> cs_uid (f s) = cs_uid s"
  shows "who (on_session u f g) = who g"
  using assms by (simp add: who_def fun_eq_iff option.map_comp comp_def)

text \<open>An event of a session that does not touch who and where it is.\<close>

lemma gate_ok_session:
  assumes "gate_ok hash g" and "\<And>s. cs_shard (f s) = cs_shard s \<and> cs_uid (f s) = cs_uid s"
  shows "gate_ok hash (on_session u f g)"
  using assms by (simp add: gate_ok_def who_on_session)

lemma gate_ok_tables:
  assumes "gate_ok hash g" and "k < WORK_SHARD_NUMBER \<Longrightarrow> tables_ok (who g) k (f (gt_shards g ! k))"
  shows "gate_ok hash (on_shard k f g)"
proof (cases "k < WORK_SHARD_NUMBER")
  case True
  then show ?thesis using assms by (auto simp: gate_ok_def)
next
  case False
  then show ?thesis using assms(1) by (simp add: gate_ok_def on_shard_def list_update_beyond)
qed

lemma gate_ok_pool:
  assumes "gate_ok hash g"
    and "\<And>w. ws_user_session_mgr (f w) = ws_user_session_mgr w \<and> ws_user_id_mgr (f w) = ws_user_id_mgr w"
  shows "gate_ok hash (on_shard k f g)"
  using assms by (intro gate_ok_tables) (auto simp: gate_ok_def tables_ok_def)

lemma gate_ok_registry_sub:
  assumes "gate_ok hash g" and "um_ok r"
    and "\<And>uid en. um_find r uid = Some en \<Longrightarrow> um_find (gt_registry g) uid = Some en"
  shows "gate_ok hash (g\<lparr>gt_registry := r\<rparr>)"
  using assms by (simp add: gate_ok_def)

lemma um_find_Unregister:
  "um_find (Unregister uid sid r) j = Some en \<Longrightarrow> um_find r j = Some en"
  by (auto simp: Unregister_def split: if_splits option.splits)

lemma um_ok_Unregister: "um_ok r \<Longrightarrow> um_ok (Unregister uid sid r)"
  by (simp add: Unregister_def split: option.split)

lemma gate_ok_Unregister: "gate_ok hash g \<Longrightarrow> gate_ok hash (g\<lparr>gt_registry := Unregister uid sid (gt_registry g)\<rparr>)"
  by (rule gate_ok_registry_sub) (auto simp: gate_ok_def um_ok_Unregister dest: um_find_Unregister)

lemma tables_ok_delete_uid: "tables_ok at k w \<Longrightarrow> tables_ok at k (delete_uid uid w)"
  by (auto simp: tables_ok_def delete_uid_def split: if_splits)

lemma tables_ok_delete_session: "tables_ok at k w \<Longrightarrow> tables_ok at k (delete_user_session name w)"
  by (auto simp: tables_ok_def delete_user_session_def um_find_erase_if split: if_splits option.splits)

lemma gate_ok_delete:
  assumes "gate_ok hash g"
  shows "gate_ok hash (on_shard k (delete_uid uid) g)" "gate_ok hash (on_shard k (delete_user_session name) g)"
  using assms
  by (intro gate_ok_tables; simp add: gate_ok_def tables_ok_delete_uid tables_ok_delete_session)+

text \<open>Sending, posting and building change queues only.\<close>

lemma SendData_identity:
  "cs_shard (Csession_SendData node s) = cs_shard s"
  "cs_uid (Csession_SendData node s) = cs_uid s"
  by (simp_all add: Csession_SendData_def Let_def)

lemma gate_ok_send_data: "gate_ok hash g \<Longrightarrow> gate_ok hash (send_data u node g)"
  by (simp add: send_data_def gate_ok_session SendData_identity)

lemma gate_ok_SendToClient: "gate_ok hash g \<Longrightarrow> gate_ok hash (SendToClient u p g)"
  by (simp add: SendToClient_def gate_ok_send_data split: option.split)

lemma gate_ok_reply: "gate_ok hash g \<Longrightarrow> gate_ok hash (reply c i u m g)"
  by (simp add: reply_def gate_ok_SendToClient split: option.split)

lemma gate_ok_post: "gate_ok hash g \<Longrightarrow> gate_ok hash (on_shard k (WorkShard_PostMessage p) g)"
  by (rule gate_ok_pool) (simp_all add: WorkShard_PostMessage_def)

lemma gate_ok_notify: "gate_ok hash g \<Longrightarrow> gate_ok hash (on_shard k (NotifyGameServerDisconnect c uid) g)"
  by (rule gate_ok_pool) (simp_all add: NotifyGameServerDisconnect_def WorkShard_PostMessage_def split: option.split)

lemma gate_ok_Forward: "gate_ok hash g \<Longrightarrow> gate_ok hash (ForwardClientMsgToGame e i u body g)"
  by (simp add: ForwardClientMsgToGame_def gate_ok_SendToClient gate_ok_post split: option.split)

lemma Csession_set_closed_identity:
  "cs_shard (Csession_set_closed s) = cs_shard s"
  "cs_uid (Csession_set_closed s) = cs_uid s"
  by (simp_all add: Csession_set_closed_def)

lemma gate_ok_close:
  assumes "gate_ok hash g"
  shows "gate_ok hash (Csession_close e u g)"
proof (cases "um_find (gt_objs g) u")
  case None
  then show ?thesis using assms by (simp add: Csession_close_def)
next
  case (Some s)
  then show ?thesis
    using assms
    by (simp add: Csession_close_def Let_def gate_ok_delete gate_ok_notify gate_ok_session
        gate_ok_Unregister Csession_set_closed_identity)
qed

subsection \<open>Logging in\<close>

definition unreferenced :: "string \<Rightarrow> Gate \<Rightarrow> bool" where
  "unreferenced u g \<longleftrightarrow>
     (\<forall>uid en. um_find (gt_registry g) uid = Some en \<longrightarrow> en_session en \<noteq> u) \<and>
     (\<forall>k < WORK_SHARD_NUMBER. \<forall>uid. um_find (ws_user_id_mgr (gt_shards g ! k)) uid \<noteq> Some u)"

text \<open>Before a session gets another id, nothing refers to it under the old one.\<close>

lemma unreferenced_before_bind:
  assumes ok: "gate_ok (gv_hash e) g" and s: "um_find (gt_objs g) u = Some s"
  defines "g1 \<equiv> on_shard (cs_shard s) (delete_uid (cs_uid s))
    (g\<lparr>gt_registry := Unregister (cs_uid s) (get_session_id (gv_hash e) u) (gt_registry g)\<rparr>)"
  shows "unreferenced u (if cs_uid s \<noteq> 0 then g1 else g)"
proof -
  have w: "who g u = Some (cs_uid s, cs_shard s)" using s by (simp add: who_def)
  then have sh: "cs_shard s < WORK_SHARD_NUMBER" "length (gt_shards g) = WORK_SHARD_NUMBER"
    using ok by (auto simp: gate_ok_def)
  have reg: "uid = cs_uid s \<and> uid \<noteq> 0 \<and> en_session_id en = get_session_id (gv_hash e) u"
    if "um_find (gt_registry g) uid = Some en" "en_session en = u" for uid en
  proof -
    have "entry_ok (gv_hash e) (who g) uid en" using ok that(1) by (simp add: gate_ok_def)
    then show ?thesis using w that(2) by (auto simp: entry_ok_def)
  qed
  have tab: "uid = cs_uid s \<and> uid \<noteq> 0 \<and> k = cs_shard s"
    if "k < WORK_SHARD_NUMBER" "um_find (ws_user_id_mgr (gt_shards g ! k)) uid = Some u" for k uid
    using ok w that unfolding gate_ok_def tables_ok_def by (metis insert_iff option.distinct(1) option.inject prod.inject singletonD)
  show ?thesis
  proof (cases "cs_uid s = 0")
    case True
    then show ?thesis using reg tab by (auto simp: unreferenced_def)
  next
    case False
    have "en_session en \<noteq> u" if "um_find (Unregister (cs_uid s) (get_session_id (gv_hash e) u) (gt_registry g)) uid = Some en"
      for uid en
      using that reg [OF um_find_Unregister [OF that]] False
      by (auto simp: Unregister_def split: if_splits option.splits)
    moreover have "um_find (ws_user_id_mgr (gt_shards g1 ! k)) uid \<noteq> Some u" if "k < WORK_SHARD_NUMBER" for k uid
      using tab [OF that] sh by (auto simp: g1_def delete_uid_def)
    ultimately show ?thesis using False sh by (auto simp: unreferenced_def g1_def)
  qed
qed

lemma who_set_uid:
  "who (on_session u (\<lambda>s. s\<lparr>cs_uid := uid\<rparr>) g) =
     (who g)(u := map_option (\<lambda>(_, k). (uid, k)) (who g u))"
  by (auto simp: who_def fun_eq_iff option.map_comp comp_def)

lemma gate_ok_set_uid:
  assumes "gate_ok hash g" and "unreferenced u g"
  shows "gate_ok hash (on_session u (\<lambda>s. s\<lparr>cs_uid := uid\<rparr>) g)" (is "gate_ok hash ?g")
proof -
  have reg: "entry_ok hash (who ?g) i en" if "um_find (gt_registry g) i = Some en" for i en
    using assms that by (auto simp: gate_ok_def unreferenced_def entry_ok_def who_set_uid)
  have tab: "tables_ok (who ?g) k (gt_shards g ! k)" if "k < WORK_SHARD_NUMBER" for k
  proof -
    have "tables_ok (who g) k (gt_shards g ! k)"
      and "\<And>i. um_find (ws_user_id_mgr (gt_shards g ! k)) i \<noteq> Some u"
      using assms that by (simp_all add: gate_ok_def unreferenced_def)
    then show ?thesis by (fastforce simp: tables_ok_def who_set_uid)
  qed
  show ?thesis
    using assms(1) reg tab by (auto simp: gate_ok_def who_set_uid split: if_splits)
qed

lemma tables_ok_add_uid:
  "tables_ok at k w \<Longrightarrow> at u = Some (uid, k) \<Longrightarrow> uid \<noteq> 0 \<Longrightarrow> tables_ok at k (add_uid uid u w)"
  by (auto simp: tables_ok_def add_uid_def)

lemma gate_ok_add_uid:
  assumes "gate_ok hash g" and "who g u = Some (uid, k)" and "uid \<noteq> 0"
  shows "gate_ok hash (on_shard k (add_uid uid u) g)"
  using assms by (intro gate_ok_tables tables_ok_add_uid) (auto simp: gate_ok_def)

lemma gate_ok_Register:
  assumes "gate_ok hash g" and "who g u = Some (uid, k)"
  shows "gate_ok hash (g\<lparr>gt_registry := Register hash uid k u (gt_registry g)\<rparr>)"
  using assms by (auto simp: gate_ok_def entry_ok_def Register_def)

lemma gate_ok_BindUid:
  assumes ok: "gate_ok (gv_hash e) g"
  shows "gate_ok (gv_hash e) (BindUid e u uid g)"
proof (cases "um_find (gt_objs g) u = None \<or> uid = 0")
  case True
  then show ?thesis using ok by (auto simp: BindUid_def split: option.split)
next
  case False
  then obtain s where s: "um_find (gt_objs g) u = Some s" and uid: "uid \<noteq> 0" by auto
  define g1 where "g1 = (if cs_uid s \<noteq> 0 \<and> cs_uid s \<noteq> uid
    then on_shard (cs_shard s) (delete_uid (cs_uid s))
      (g\<lparr>gt_registry := Unregister (cs_uid s) (get_session_id (gv_hash e) u) (gt_registry g)\<rparr>) else g)"
  define g2 where "g2 = on_session u (\<lambda>s. s\<lparr>cs_uid := uid\<rparr>) g1"
  have ok1: "gate_ok (gv_hash e) g1" using ok by (simp add: g1_def gate_ok_delete gate_ok_Unregister)
  have w1: "who g1 u = Some (cs_uid s, cs_shard s)" using s by (simp add: g1_def who_def on_shard_def)
  have ok2: "gate_ok (gv_hash e) g2"
  proof (cases "cs_uid s = uid")
    case True
    then have "who g2 = who g1" using w1 by (auto simp: g2_def who_set_uid)
    then show ?thesis using ok1 by (simp add: gate_ok_def g2_def)
  next
    case False
    then have "unreferenced u g1" using unreferenced_before_bind [OF ok s] by (auto simp: g1_def split: if_splits)
    then show ?thesis using ok1 by (simp add: g2_def gate_ok_set_uid)
  qed
  have w2: "who g2 u = Some (uid, cs_shard s)" using w1 by (simp add: g2_def who_set_uid)
  have ok3: "gate_ok (gv_hash e) (on_shard (cs_shard s) (add_uid uid u) g2)"
    using gate_ok_add_uid [OF ok2 w2 uid] .
  have r2: "gt_registry g2 = gt_registry g1" by (simp add: g2_def)
  show ?thesis
    using gate_ok_Register [OF ok3, of u uid "cs_shard s"] w2 s uid r2
    by (simp add: BindUid_def Let_def g1_def [symmetric] g2_def [symmetric])
qed

lemma gate_ok_HandleMsg:
  assumes "gate_ok (gv_hash e) g"
  shows "gate_ok (gv_hash e) (ClientIngress_HandleMsg e now_unix_ms msgid u body g)"
  using assms
  by (auto simp: ClientIngress_HandleMsg_def HandleLoginReq_def HandlePingReq_def Let_def gate_ok_reply
      gate_ok_Forward gate_ok_BindUid split: option.split)

subsection \<open>Messages for players\<close>

text \<open>The session a message for a player goes to.\<close>

definition recipient :: "nat \<Rightarrow> Gate \<Rightarrow> u64 \<Rightarrow> string option" where
  "recipient k g uid =
     (case FindSessionByUid uid (gt_shards g ! k) of
        Some u \<Rightarrow> Some u
      | None \<Rightarrow>
          if uid = 0 then None
          else case um_find (gt_registry g) uid of
                 None \<Rightarrow> None
               | Some en \<Rightarrow> if alive g en then Some (en_session en) else None)"

lemma recipient_who:
  assumes "gate_ok hash g" and "k < WORK_SHARD_NUMBER" and "recipient k g uid = Some u"
  shows "\<exists>j. who g u = Some (uid, j)"
proof (cases "FindSessionByUid uid (gt_shards g ! k)")
  case None
  then obtain en where en: "um_find (gt_registry g) uid = Some en" "alive g en" "u = en_session en"
    using assms(3) by (auto simp: recipient_def split: if_splits option.splits)
  then have "entry_ok hash (who g) uid en" using assms(1) by (simp add: gate_ok_def)
  then show ?thesis using en by (auto simp: entry_ok_def alive_def who_def)
next
  case (Some v)
  then have uv: "u = v" using assms(3) by (simp add: recipient_def)
  obtain name where n: "um_find (ws_user_id_mgr (gt_shards g ! k)) uid = Some name"
      "um_find (ws_user_session_mgr (gt_shards g ! k)) name = Some v"
    using Some by (auto simp: FindSessionByUid_def split: option.splits)
  have t: "tables_ok (who g) k (gt_shards g ! k)" using assms(1,2) by (simp add: gate_ok_def)
  then have "v = name" "\<exists>i. who g name = Some (i, k)" using n(2) by (auto simp: tables_ok_def)
  moreover have "who g name \<in> {None, Some (uid, k)}" using t n(1) unfolding tables_ok_def by blast
  ultimately show ?thesis using uv by auto
qed

lemma recipient_send_data [simp]: "recipient k (send_data u node g) = recipient k g"
  by (auto simp: recipient_def fun_eq_iff alive_def send_data_def split: option.split)

definition posted :: "string \<Rightarrow> gate_effect list \<Rightarrow> nat" where
  "posted v effects = length (filter (\<lambda>eff. case eff of PostSendData _ u _ \<Rightarrow> u = v) effects)"

definition carries :: "SendNode \<Rightarrow> gate_effect list \<Rightarrow> bool" where
  "carries node effects \<longleftrightarrow> (\<forall>eff \<in> set effects. case eff of PostSendData _ _ n \<Rightarrow> n = node)"

lemma funpow_option:
  "map_option f (map_option (f ^^ n) x) = map_option (f ^^ Suc n) x"
  "map_option (f ^^ n) (map_option f x) = map_option (f ^^ Suc n) x"
  by (cases x; simp add: funpow_swap1)+

lemma um_find_send_data:
  "um_find (gt_objs (send_data u node g)) v =
     map_option (Csession_SendData node ^^ (if u = v then 1 else 0)) (um_find (gt_objs g) v)"
  by (cases "um_find (gt_objs g) v") (auto simp: send_data_def)

lemma um_find_run_effects:
  "carries node effects \<Longrightarrow>
     um_find (gt_objs (fold run_effect effects g)) v =
       map_option (Csession_SendData node ^^ posted v effects) (um_find (gt_objs g) v)"
proof (induction effects arbitrary: g)
  case Nil
  then show ?case by (cases "um_find (gt_objs g) v") (simp_all add: posted_def)
next
  case (Cons eff effects)
  obtain k u n where eff: "eff = PostSendData k u n" by (cases eff)
  have n: "n = node" "carries node effects" using Cons.prems by (simp_all add: carries_def eff)
  have "posted v (eff # effects) = (if u = v then 1 else 0) + posted v effects"
    by (simp add: posted_def eff)
  then show ?case
    using Cons.IH [OF n(2), of "send_data u node g"] n(1)
    by (cases "u = v"; cases "um_find (gt_objs g) v")
       (auto simp: eff um_find_send_data funpow_swap1)
qed

text \<open>One message: delivered at once on the same shard, or posted to the shard of the recipient.\<close>

lemma WorkShard_SendToUid_spec:
  assumes "WorkShard_SendToUid k uid node g = (ok, effects, g')"
  shows "ok \<longleftrightarrow> recipient k g uid \<noteq> None" and "recipient k g' = recipient k g" and "carries node effects"
    and "\<exists>n. um_find (gt_objs g') v = map_option (Csession_SendData node ^^ n) (um_find (gt_objs g) v) \<and>
      n + posted v effects = (if recipient k g uid = Some v then 1 else 0)"
proof -
  have "(ok \<longleftrightarrow> recipient k g uid \<noteq> None) \<and> recipient k g' = recipient k g \<and> carries node effects \<and>
    (\<exists>n. um_find (gt_objs g') v = map_option (Csession_SendData node ^^ n) (um_find (gt_objs g) v) \<and>
      n + posted v effects = (if recipient k g uid = Some v then 1 else 0))"
  proof (cases "FindSessionByUid uid (gt_shards g ! k)")
    case (Some u)
    then have r: "recipient k g uid = Some u" by (simp add: recipient_def)
    have e: "ok" "effects = []" "g' = send_data u node g" using assms Some by (simp_all add: WorkShard_SendToUid_def)
    then show ?thesis
      using r by (auto simp: carries_def posted_def um_find_send_data intro!: exI [of _ "if u = v then 1 else 0"])
  next
    case None
    then have e: "Registry_SendToUid uid node g = (ok, effects, g')" using assms by (simp add: WorkShard_SendToUid_def)
    have same: "um_find x v = map_option (Csession_SendData node ^^ 0) (um_find x v)" for x
      by (cases "um_find x v") simp_all
    show ?thesis
    proof (cases "recipient k g uid")
      case r: None
      then have "\<not> ok \<and> effects = [] \<and> (g' = g \<or> g' = g\<lparr>gt_registry := um_erase uid (gt_registry g)\<rparr> \<and>
          (\<exists>en. um_find (gt_registry g) uid = Some en \<and> \<not> alive g en))"
        using e None by (auto simp: Registry_SendToUid_def recipient_def alive_def split: if_splits option.splits)
      moreover have "recipient k (g\<lparr>gt_registry := um_erase uid (gt_registry g)\<rparr>) = recipient k g"
        using r None by (auto simp: recipient_def fun_eq_iff alive_def split: if_splits option.splits)
      ultimately show ?thesis using r same by (auto simp: carries_def posted_def)
    next
      case (Some u)
      then have "ok \<and> g' = g \<and> (\<exists>j. effects = [PostSendData j u node])"
        using e None by (auto simp: Registry_SendToUid_def recipient_def alive_def split: if_splits option.splits)
      then show ?thesis using Some same by (auto simp: carries_def posted_def)
    qed
  qed
  then show "ok \<longleftrightarrow> recipient k g uid \<noteq> None" "recipient k g' = recipient k g" "carries node effects"
    "\<exists>n. um_find (gt_objs g') v = map_option (Csession_SendData node ^^ n) (um_find (gt_objs g) v) \<and>
      n + posted v effects = (if recipient k g uid = Some v then 1 else 0)"
    by auto
qed

lemma send_to_uids_spec:
  assumes "send_to_uids k node uids g = (sent, effects, g')"
  shows "sent = length (filter (\<lambda>uid. recipient k g uid \<noteq> None) uids)" and "recipient k g' = recipient k g"
    and "carries node effects"
    and "\<exists>n. um_find (gt_objs g') v = map_option (Csession_SendData node ^^ n) (um_find (gt_objs g) v) \<and>
      n + posted v effects = length (filter (\<lambda>uid. recipient k g uid = Some v) uids)"
proof -
  have "sent = length (filter (\<lambda>uid. recipient k g uid \<noteq> None) uids) \<and> recipient k g' = recipient k g \<and>
    carries node effects \<and>
    (\<exists>n. um_find (gt_objs g') v = map_option (Csession_SendData node ^^ n) (um_find (gt_objs g) v) \<and>
      n + posted v effects = length (filter (\<lambda>uid. recipient k g uid = Some v) uids))"
    using assms
  proof (induction uids arbitrary: sent effects g' rule: rev_induct)
    case Nil
    then show ?case
      by (cases "um_find (gt_objs g) v") (auto simp: send_to_uids_def carries_def posted_def intro: exI [of _ 0])
  next
    case (snoc uid uids)
    obtain sent1 eff1 g1 where 1: "send_to_uids k node uids g = (sent1, eff1, g1)" by (metis prod_cases3)
    obtain ok eff2 g2 where 2: "WorkShard_SendToUid k uid node g1 = (ok, eff2, g2)" by (metis prod_cases3)
    have all: "sent = (if ok then Suc sent1 else sent1)" "effects = eff1 @ eff2" "g' = g2"
      using snoc.prems 1 2 by (auto simp: send_to_uids_def)
    note IH = snoc.IH [OF 1] and spec = WorkShard_SendToUid_spec [OF 2]
    obtain n1 where n1: "um_find (gt_objs g1) v = map_option (Csession_SendData node ^^ n1) (um_find (gt_objs g) v)"
        "n1 + posted v eff1 = length (filter (\<lambda>uid. recipient k g uid = Some v) uids)" using IH by blast
    obtain n2 where n2: "um_find (gt_objs g2) v = map_option (Csession_SendData node ^^ n2) (um_find (gt_objs g1) v)"
        "n2 + posted v eff2 = (if recipient k g1 uid = Some v then 1 else 0)" using spec(4) [of v] by blast
    have "um_find (gt_objs g') v = map_option (Csession_SendData node ^^ (n2 + n1)) (um_find (gt_objs g) v)"
      using n1(1) n2(1) all(3) by (cases "um_find (gt_objs g) v") (simp_all add: funpow_add)
    moreover have "n2 + n1 + posted v effects = length (filter (\<lambda>uid. recipient k g uid = Some v) (uids @ [uid]))"
      using n1(2) n2(2) IH all(2) by (auto simp: posted_def)
    moreover have "carries node effects" using IH spec(3) all(2) by (auto simp: carries_def)
    ultimately show ?case using IH spec(1,2) all by auto
  qed
  then show "sent = length (filter (\<lambda>uid. recipient k g uid \<noteq> None) uids)" "recipient k g' = recipient k g"
    "carries node effects"
    "\<exists>n. um_find (gt_objs g') v = map_option (Csession_SendData node ^^ n) (um_find (gt_objs g) v) \<and>
      n + posted v effects = length (filter (\<lambda>uid. recipient k g uid = Some v) uids)"
    by auto
qed

text \<open>A message from the game server, once what it posted has run: every session has the packet as often
  as its player is among the addressees.\<close>

lemma ForwardGameToClients_delivers:
  assumes "ParseProtoFromBytes (gc_game_to_gate (gv_codec e)) body = Some envelope"
    and "BuildPacket (ucast (gg_inner_msg_id envelope)) (gg_payload envelope) = Some packet"
    and "gg_target_uids envelope \<noteq> []"
    and "ForwardGameToClients e k body g = (ok, effects, g')"
  shows "um_find (gt_objs (fold run_effect effects g')) v =
      map_option (Csession_SendData packet ^^
        length (filter (\<lambda>uid. recipient k g uid = Some v) (gg_target_uids envelope))) (um_find (gt_objs g) v)"
    and "ok \<longleftrightarrow> (\<exists>uid \<in> set (gg_target_uids envelope). recipient k g uid \<noteq> None)"
proof -
  obtain sent where s: "send_to_uids k packet (gg_target_uids envelope) g = (sent, effects, g')" "ok \<longleftrightarrow> 0 < sent"
    using assms by (auto simp: ForwardGameToClients_def Let_def split: prod.splits)
  note spec = send_to_uids_spec [OF s(1)]
  obtain n where n: "um_find (gt_objs g') v = map_option (Csession_SendData packet ^^ n) (um_find (gt_objs g) v)"
      "n + posted v effects = length (filter (\<lambda>uid. recipient k g uid = Some v) (gg_target_uids envelope))"
    using spec(4) by blast
  show "um_find (gt_objs (fold run_effect effects g')) v =
      map_option (Csession_SendData packet ^^
        length (filter (\<lambda>uid. recipient k g uid = Some v) (gg_target_uids envelope))) (um_find (gt_objs g) v)"
    using um_find_run_effects [OF spec(3), of g' v] n
    by (cases "um_find (gt_objs g) v") (simp_all add: n(2) [symmetric] add.commute [of n] funpow_add)
  show "ok \<longleftrightarrow> (\<exists>uid \<in> set (gg_target_uids envelope). recipient k g uid \<noteq> None)"
    using s(2) spec(1) by (auto simp: filter_empty_conv)
qed

subsection \<open>Events\<close>

text \<open>A uuid nothing refers to, as the random generator makes it.\<close>

definition fresh_uuid :: "string \<Rightarrow> Gate \<Rightarrow> bool" where
  "fresh_uuid u g \<longleftrightarrow> um_find (gt_objs g) u = None \<and> unreferenced u g"

text \<open>The events of a gate server with the environment \<open>e\<close>. A posted send may run at any later time; the
  connections to the game server change at will; an object goes away when the session is not open
  any more and no table holds it.\<close>

inductive gate_step :: "gate_env \<Rightarrow> Gate \<Rightarrow> Gate \<Rightarrow> bool" for e :: gate_env where
  gate_start: "fresh_uuid u g \<Longrightarrow> gate_step e g (Cserver_start now u g)"
| gate_accept: "um_find (gt_objs g) u = Some s \<Longrightarrow> cs_state s = Invalid \<Longrightarrow> fresh_uuid next_u g \<Longrightarrow>
    gate_step e g (on_client_accept result u next_u g)"
| gate_packet: "gate_step e g (ClientIngress_HandleMsg e now_unix_ms msgid u body g)"
| gate_heartbeat: "gate_step e g (heartbeat_round e result u g)"
| gate_close: "gate_step e g (Csession_close e u g)"
| gate_write: "gate_step e g (on_session u Csession_write_turn g)"
| gate_write_error: "gate_step e g
    (Csession_close e u (on_session u (\<lambda>s. s\<lparr>cs_is_writing := False, cs_writer := NoWriter\<rparr>) g))"
| gate_backend: "k < WORK_SHARD_NUMBER \<Longrightarrow> gate_step e g (snd (BackendIngress_HandleMsg e k node g))"
| gate_effect: "gate_step e g (run_effect eff g)"
| gate_pool: "gate_step e g (on_shard k (\<lambda>w. w\<lparr>ws_ConnPool := pool\<rparr>) g)"
| gate_stop: "gate_step e g (Cserver_stop g)"
| gate_release: "um_find (gt_objs g) u = Some s \<Longrightarrow> \<not> client_open s \<Longrightarrow>
    \<forall>k < WORK_SHARD_NUMBER. um_find (ws_user_session_mgr (gt_shards g ! k)) u = None \<Longrightarrow>
    gate_step e g (g\<lparr>gt_objs := um_erase u (gt_objs g)\<rparr>)"

text \<open>Updates of the store that add an unreferenced session, or take one away.\<close>

lemma tables_ok_mono:
  assumes "tables_ok at k w"
    and "\<And>name. um_find (ws_user_session_mgr w) name = Some name \<Longrightarrow> at' name = at name"
    and "\<And>uid name. um_find (ws_user_id_mgr w) uid = Some name \<Longrightarrow> at' name \<in> {None, at name}"
  shows "tables_ok at' k w"
proof -
  have "session = name \<and> (\<exists>uid. at' name = Some (uid, k))"
    if "um_find (ws_user_session_mgr w) name = Some session" for name session
    using assms(1,2) that unfolding tables_ok_def by metis
  moreover have "uid \<noteq> 0 \<and> at' name \<in> {None, Some (uid, k)}" if "um_find (ws_user_id_mgr w) uid = Some name" for uid name
    using assms(1) assms(3) [OF that] that unfolding tables_ok_def by (metis insert_iff singletonD)
  ultimately show ?thesis using assms(1) unfolding tables_ok_def by blast
qed

lemma gate_ok_store:
  assumes ok: "gate_ok hash g" and "um_ok objs"
    and "\<And>u uid k. who (g\<lparr>gt_objs := objs\<rparr>) u = Some (uid, k) \<Longrightarrow> k < WORK_SHARD_NUMBER"
    and ref: "\<And>u. \<not> unreferenced u g \<Longrightarrow> who (g\<lparr>gt_objs := objs\<rparr>) u \<in> {None, who g u}"
    and held: "\<And>u k. k < WORK_SHARD_NUMBER \<Longrightarrow> um_find (ws_user_session_mgr (gt_shards g ! k)) u = Some u \<Longrightarrow>
      who (g\<lparr>gt_objs := objs\<rparr>) u = who g u"
  shows "gate_ok hash (g\<lparr>gt_objs := objs\<rparr>)" (is "gate_ok hash ?g")
proof -
  have "entry_ok hash (who ?g) uid en" if r: "um_find (gt_registry g) uid = Some en" for uid en
  proof -
    have "\<not> unreferenced (en_session en) g" using r by (auto simp: unreferenced_def)
    then have "who ?g (en_session en) \<in> {None, who g (en_session en)}" by (rule ref)
    moreover have "entry_ok hash (who g) uid en" using ok r by (simp add: gate_ok_def)
    ultimately show ?thesis by (auto simp: entry_ok_def)
  qed
  moreover have "tables_ok (who ?g) k (gt_shards g ! k)" if k: "k < WORK_SHARD_NUMBER" for k
  proof (rule tables_ok_mono)
    show "tables_ok (who g) k (gt_shards g ! k)" using ok k by (simp add: gate_ok_def)
    show "who ?g name \<in> {None, who g name}" if "um_find (ws_user_id_mgr (gt_shards g ! k)) uid = Some name" for uid name
      using that k by (intro ref) (auto simp: unreferenced_def)
  qed (use held k in blast)
  ultimately show ?thesis using ok assms(2,3) by (simp add: gate_ok_def)
qed

lemma gate_ok_StartAccept:
  assumes "gate_ok hash g" and "fresh_uuid u g"
  shows "gate_ok hash (StartAccept u g)"
proof (cases "gt_stopping g")
  case False
  let ?g = "g\<lparr>gt_idx := (gt_idx g + 1) mod WORK_SHARD_NUMBER\<rparr>"
  let ?objs = "um_emplace u (Csession_new u (gt_idx g)) (gt_objs g)"
  have idx: "gt_idx g < WORK_SHARD_NUMBER" using assms(1) by (simp add: gate_ok_def)
  have w: "who (?g\<lparr>gt_objs := ?objs\<rparr>) v = (if v = u then Some (0, gt_idx g) else who g v)" for v
    using assms(2) by (simp add: who_def fresh_uuid_def Csession_new_def)
  have "who ?g = who g" by (simp add: who_def fun_eq_iff)
  then have ok: "gate_ok hash ?g" using assms(1) by (simp add: gate_ok_def WORK_SHARD_NUMBER_def)
  have "gate_ok hash (?g\<lparr>gt_objs := ?objs\<rparr>)"
  proof (rule gate_ok_store [OF ok])
    show "um_ok ?objs" using assms(1) by (simp add: gate_ok_def)
    show "k < WORK_SHARD_NUMBER" if "who (?g\<lparr>gt_objs := ?objs\<rparr>) v = Some (uid, k)" for v uid k
      using that idx assms(1) unfolding w by (auto simp: gate_ok_def split: if_splits)
    show "who (?g\<lparr>gt_objs := ?objs\<rparr>) v \<in> {None, who ?g v}" if "\<not> unreferenced v ?g" for v
      using that assms(2) unfolding w by (auto simp: fresh_uuid_def unreferenced_def who_def)
    show "who (?g\<lparr>gt_objs := ?objs\<rparr>) v = who ?g v"
      if k: "k < WORK_SHARD_NUMBER" and f: "um_find (ws_user_session_mgr (gt_shards ?g ! k)) v = Some v" for v k
    proof -
      have "tables_ok (who g) k (gt_shards g ! k)" using assms(1) k by (simp add: gate_ok_def)
      then have "who g v \<noteq> None" using f unfolding tables_ok_def by fastforce
      then have "v \<noteq> u" using assms(2) by (auto simp: fresh_uuid_def who_def)
      then show ?thesis unfolding w by (simp add: who_def)
    qed
  qed
  then show ?thesis using False by (simp add: StartAccept_def get_shard_def)
qed (use assms in \<open>simp add: StartAccept_def\<close>)

end
