(* ===== verification/GateRuns.thy ===== *)
theory GateRuns
  imports GateInvariants
begin

text \<open>
  Runs of the gate server: every event keeps the invariant, and as long as no two sessions share a
  player id, every open session that has logged in can be reached by its id.
\<close>

subsection \<open>Every event keeps the invariant\<close>

lemma who_fields [simp]:
  "who (g\<lparr>gt_stopping := b\<rparr>) = who g" "who (g\<lparr>gt_shards := ws\<rparr>) = who g"
  by (simp_all add: who_def fun_eq_iff)

lemma gate_ok_stopping [simp]: "gate_ok hash (g\<lparr>gt_stopping := b\<rparr>) = gate_ok hash g"
  by (simp add: gate_ok_def)

lemma gate_ok_all_shards:
  assumes "gate_ok hash g"
    and "\<And>w. ws_user_session_mgr (f w) = ws_user_session_mgr w \<and> ws_user_id_mgr (f w) = ws_user_id_mgr w"
  shows "gate_ok hash (g\<lparr>gt_shards := map f (gt_shards g)\<rparr>)"
proof -
  have "tables_ok at k (f w) = tables_ok at k w" for at k w using assms(2) by (simp add: tables_ok_def)
  then show ?thesis using assms(1) by (simp add: gate_ok_def)
qed

lemma fresh_uuid_simps [simp]:
  "fresh_uuid u (g\<lparr>gt_stopping := b\<rparr>) = fresh_uuid u g"
  "fresh_uuid u (on_session v f g) = fresh_uuid u g"
  by (auto simp: fresh_uuid_def unreferenced_def)

lemma fresh_uuid_all_shards:
  "\<forall>w. ws_user_id_mgr (f w) = ws_user_id_mgr w \<Longrightarrow> length (gt_shards g) = WORK_SHARD_NUMBER \<Longrightarrow>
     fresh_uuid u (g\<lparr>gt_shards := map f (gt_shards g)\<rparr>) = fresh_uuid u g"
  by (simp add: fresh_uuid_def unreferenced_def)

lemma WorkShard_start_tables:
  "ws_user_session_mgr (WorkShard_start now w) = ws_user_session_mgr w"
  "ws_user_id_mgr (WorkShard_start now w) = ws_user_id_mgr w"
  by (simp_all add: WorkShard_start_def)

lemma gate_ok_start:
  assumes "gate_ok hash g" and "fresh_uuid u g"
  shows "gate_ok hash (Cserver_start now u g)"
proof -
  let ?g = "g\<lparr>gt_stopping := False\<rparr>"
  have n: "length (gt_shards ?g) = WORK_SHARD_NUMBER" using assms(1) by (simp add: gate_ok_def)
  have "gate_ok hash (?g\<lparr>gt_shards := map (WorkShard_start now) (gt_shards ?g)\<rparr>)"
    by (rule gate_ok_all_shards) (simp_all add: assms(1) WorkShard_start_tables)
  moreover have "fresh_uuid u (?g\<lparr>gt_shards := map (WorkShard_start now) (gt_shards ?g)\<rparr>)"
    using fresh_uuid_all_shards [OF _ n, of "WorkShard_start now" u] assms(2)
    by (simp add: WorkShard_start_tables)
  ultimately show ?thesis by (simp add: Cserver_start_def gate_ok_StartAccept)
qed

lemma gate_ok_stop:
  assumes "gate_ok hash g"
  shows "gate_ok hash (Cserver_stop g)"
  using gate_ok_all_shards [of hash "g\<lparr>gt_stopping := True\<rparr>" WorkShard_stop] assms
  by (simp add: Cserver_stop_def WorkShard_stop_def)

lemma tables_ok_add_session:
  "tables_ok at k w \<Longrightarrow> at u = Some (uid, k) \<Longrightarrow> tables_ok at k (add_user_session u u w)"
  by (auto simp: tables_ok_def add_user_session_def)

lemma gate_ok_accept:
  assumes "gate_ok hash g" and "um_find (gt_objs g) u = Some s" and "fresh_uuid next_u g"
  shows "gate_ok hash (on_client_accept result u next_u g)"
proof -
  let ?g = "on_shard (cs_shard s) (add_user_session u u) g"
  have w: "who g u = Some (cs_uid s, cs_shard s)" using assms(2) by (simp add: who_def)
  then have k: "cs_shard s < WORK_SHARD_NUMBER" using assms(1) by (simp add: gate_ok_def)
  have "gate_ok hash ?g"
    using assms(1) w k by (intro gate_ok_tables tables_ok_add_session) (auto simp: gate_ok_def)
  moreover have "fresh_uuid next_u ?g"
    using assms(1,3) k by (auto simp: fresh_uuid_def unreferenced_def gate_ok_def add_user_session_def)
  ultimately have "gate_ok hash (StartAccept next_u (on_session u Csession_start ?g))"
    by (intro gate_ok_StartAccept gate_ok_session) (simp_all add: Csession_start_def)
  then show ?thesis
    using assms gate_ok_StartAccept [OF assms(1,3)] by (simp add: on_client_accept_def)
qed

lemma gate_ok_release:
  assumes "gate_ok hash g"
    and "\<forall>k < WORK_SHARD_NUMBER. um_find (ws_user_session_mgr (gt_shards g ! k)) u = None"
  shows "gate_ok hash (g\<lparr>gt_objs := um_erase u (gt_objs g)\<rparr>)"
proof (rule gate_ok_store [OF assms(1)])
  have w: "who (g\<lparr>gt_objs := um_erase u (gt_objs g)\<rparr>) v = (if v = u then None else who g v)" for v
    by (simp add: who_def)
  show "who (g\<lparr>gt_objs := um_erase u (gt_objs g)\<rparr>) v = Some (uid, k) \<Longrightarrow> k < WORK_SHARD_NUMBER" for v uid k
    using assms(1) unfolding w by (auto simp: gate_ok_def split: if_splits)
  show "who (g\<lparr>gt_objs := um_erase u (gt_objs g)\<rparr>) v \<in> {None, who g v}" for v unfolding w by simp
  show "who (g\<lparr>gt_objs := um_erase u (gt_objs g)\<rparr>) v = who g v"
    if "k < WORK_SHARD_NUMBER" "um_find (ws_user_session_mgr (gt_shards g ! k)) v = Some v" for v k
    using that assms(2) unfolding w by auto
qed (use assms(1) in \<open>simp add: gate_ok_def\<close>)

lemma gate_ok_SendToUid:
  assumes "gate_ok hash g" and "WorkShard_SendToUid k uid node g = (ok, effects, g')"
  shows "gate_ok hash g'"
proof -
  have "um_ok (gt_registry g)" using assms(1) by (simp add: gate_ok_def)
  then have "gate_ok hash (g\<lparr>gt_registry := um_erase uid (gt_registry g)\<rparr>)"
    using assms(1) by (intro gate_ok_registry_sub) (auto split: if_splits)
  then show ?thesis
    using assms
    by (auto simp: WorkShard_SendToUid_def Registry_SendToUid_def gate_ok_send_data split: option.splits if_splits)
qed

lemma gate_ok_send_to_uids: "gate_ok hash g \<Longrightarrow> gate_ok hash (snd (snd (send_to_uids k node uids g)))"
  unfolding send_to_uids_def
  by (rule fold_invariant [where P = "\<lambda>x. gate_ok hash (snd (snd x))"])
     (auto simp: Let_def split: prod.splits intro: gate_ok_SendToUid)

lemma gate_ok_Broadcast:
  assumes "gate_ok hash g"
  shows "gate_ok hash (snd (snd (WorkShard_Broadcast e node g)))"
proof -
  have "um_ok (gt_registry g)" using assms by (simp add: gate_ok_def)
  then have "gate_ok hash (g\<lparr>gt_registry := um_erase_if (\<lambda>entry. \<not> alive g entry) (gt_registry g)\<rparr>)"
    using assms by (intro gate_ok_registry_sub) (auto simp: um_find_erase_if split: option.splits if_splits)
  then show ?thesis by (simp add: WorkShard_Broadcast_def Registry_Broadcast_def Let_def)
qed

lemma gate_ok_backend:
  assumes "gate_ok hash g"
  shows "gate_ok hash (snd (BackendIngress_HandleMsg e k node g))"
  using gate_ok_send_to_uids [OF assms] gate_ok_Broadcast [OF assms] assms
  by (auto simp: BackendIngress_HandleMsg_def ForwardGameToClients_def Let_def split: option.split prod.splits)
     (metis snd_conv)+

lemma gate_ok_step: "gate_step e g g' \<Longrightarrow> gate_ok (gv_hash e) g \<Longrightarrow> gate_ok (gv_hash e) g'"
proof (induction rule: gate_step.induct)
  case (gate_effect g eff)
  then show ?case by (cases eff) (simp add: gate_ok_send_data)
next
  case (gate_write g u)
  then show ?case by (auto intro!: gate_ok_session simp: Csession_write_turn_def split: list.split)
qed (auto simp: gate_ok_start gate_ok_accept gate_ok_HandleMsg heartbeat_round_def gate_ok_close
    gate_ok_session gate_ok_backend gate_ok_pool gate_ok_stop gate_ok_release)

subsection \<open>Who is logged in can be reached\<close>

definition unique_uids :: "Gate \<Rightarrow> bool" where
  "unique_uids g \<longleftrightarrow>
     (\<forall>u v uid j k. who g u = Some (uid, j) \<longrightarrow> who g v = Some (uid, k) \<longrightarrow> uid \<noteq> 0 \<longrightarrow> u = v)"

text \<open>The id under which a session is logged in while it is open.\<close>

definition logged_in :: "Gate \<Rightarrow> string \<Rightarrow> u64 option" where
  "logged_in g u =
     (case um_find (gt_objs g) u of
        None \<Rightarrow> None
      | Some s \<Rightarrow> if client_open s \<and> cs_uid s \<noteq> 0 then Some (cs_uid s) else None)"

definition registered :: "Gate \<Rightarrow> bool" where
  "registered g \<longleftrightarrow>
     (\<forall>u uid. logged_in g u = Some uid \<longrightarrow>
        (\<exists>en. um_find (gt_registry g) uid = Some en \<and> en_session en = u))"

lemma logged_in_who: "logged_in g u = Some uid \<Longrightarrow> uid \<noteq> 0 \<and> (\<exists>k. who g u = Some (uid, k))"
  by (auto simp: logged_in_def who_def split: option.splits if_splits)

lemma logged_in_unique:
  "unique_uids g \<Longrightarrow> logged_in g u = Some uid \<Longrightarrow> who g v = Some (uid, k) \<Longrightarrow> v = u"
  by (metis logged_in_who unique_uids_def)

lemma registered_mono:
  assumes "registered g" and "\<And>u uid. logged_in g' u = Some uid \<Longrightarrow> logged_in g u = Some uid"
    and "\<And>u uid en. logged_in g' u = Some uid \<Longrightarrow> um_find (gt_registry g) uid = Some en \<Longrightarrow> en_session en = u \<Longrightarrow>
      um_find (gt_registry g') uid = Some en"
  shows "registered g'"
  using assms unfolding registered_def by metis

lemma logged_in_simps [simp]:
  "logged_in (on_shard k f g) = logged_in g" "logged_in (g\<lparr>gt_registry := r\<rparr>) = logged_in g"
  "logged_in (g\<lparr>gt_stopping := b\<rparr>) = logged_in g" "logged_in (g\<lparr>gt_shards := ws\<rparr>) = logged_in g"
  "logged_in (g\<lparr>gt_idx := i\<rparr>) = logged_in g"
  by (simp_all add: logged_in_def fun_eq_iff)

lemma logged_in_on_session:
  assumes "\<And>s. cs_uid (f s) = cs_uid s" and "\<And>s. client_open (f s) \<Longrightarrow> client_open s"
  shows "logged_in (on_session v f g) u = Some uid \<Longrightarrow> logged_in g u = Some uid"
  using assms by (auto simp: logged_in_def split: option.splits if_splits)

lemma registered_on_session:
  assumes "registered g" and "\<And>s. cs_uid (f s) = cs_uid s" and "\<And>s. client_open (f s) \<Longrightarrow> client_open s"
  shows "registered (on_session v f g)"
  using assms(1) by (rule registered_mono) (auto intro: logged_in_on_session [OF assms(2,3)])

lemma registered_on_shard [simp]: "registered (on_shard k f g) = registered g"
  by (simp add: registered_def)

lemma client_open_SendData: "client_open (Csession_SendData node s) = client_open s"
  by (simp add: client_open_def Csession_SendData_def Let_def)

lemma registered_send_data: "registered g \<Longrightarrow> registered (send_data u node g)"
  unfolding send_data_def
  by (rule registered_on_session) (simp_all add: SendData_identity client_open_SendData)

lemma registered_reply: "registered g \<Longrightarrow> registered (reply c i u m g)"
  by (simp add: reply_def SendToClient_def registered_send_data split: option.split)

lemma registered_Forward: "registered g \<Longrightarrow> registered (ForwardClientMsgToGame e i u body g)"
  by (simp add: ForwardClientMsgToGame_def SendToClient_def registered_send_data split: option.split)

lemma um_find_Unregister_other: "j \<noteq> uid \<Longrightarrow> um_find (Unregister uid sid r) j = um_find r j"
  by (simp add: Unregister_def split: option.split)

lemma registered_close:
  assumes "registered g" and "unique_uids g"
  shows "registered (Csession_close e u g)"
proof (cases "um_find (gt_objs g) u")
  case None
  then show ?thesis using assms(1) by (simp add: Csession_close_def)
next
  case (Some s)
  define r where "r = Unregister (cs_uid s) (get_session_id (gv_hash e) u) (gt_registry g)"
  define g1 where "g1 = on_session u Csession_set_closed (g\<lparr>gt_registry := r\<rparr>)"
  have sub: "logged_in g v = Some uid \<and> v \<noteq> u" if "logged_in g1 v = Some uid" for v uid
    using that Some
    by (auto simp: g1_def logged_in_def Csession_set_closed_def client_open_def split: option.splits if_splits)
  have w: "who g u = Some (cs_uid s, cs_shard s)" using Some by (simp add: who_def)
  have same: "um_find (gt_registry g1) uid = um_find (gt_registry g) uid" if "logged_in g1 v = Some uid" for v uid
    using sub [OF that] w logged_in_unique [OF assms(2), of v uid u]
    by (auto simp: g1_def r_def intro: um_find_Unregister_other)
  have "registered g1" by (rule registered_mono [OF assms(1)]) (simp_all add: sub same)
  then show ?thesis
    using assms(1) Some by (cases "cs_uid s = 0") (simp_all add: Csession_close_def Let_def g1_def r_def)
qed

lemma registered_BindUid:
  assumes "registered g" and "unique_uids g" and "unique_uids (BindUid e u uid g)"
  shows "registered (BindUid e u uid g)"
proof (cases "um_find (gt_objs g) u = None \<or> uid = 0")
  case True
  then show ?thesis using assms(1) by (auto simp: BindUid_def split: option.split)
next
  case False
  then obtain s where s: "um_find (gt_objs g) u = Some s" and uid: "uid \<noteq> 0" by auto
  define g' where "g' = BindUid e u uid g"
  define r where "r = (if cs_uid s \<noteq> 0 \<and> cs_uid s \<noteq> uid
    then Unregister (cs_uid s) (get_session_id (gv_hash e) u) (gt_registry g) else gt_registry g)"
  have g': "gt_registry g' = Register (gv_hash e) uid (cs_shard s) u r"
    "gt_objs g' = um_adjust u (\<lambda>s. s\<lparr>cs_uid := uid\<rparr>) (gt_objs g)"
    using s uid by (simp_all add: g'_def BindUid_def r_def Let_def on_session_def on_shard_def)
  have w: "who g' u = Some (uid, cs_shard s)" "who g u = Some (cs_uid s, cs_shard s)"
    using s by (simp_all add: who_def g')
  have "\<exists>en. um_find (gt_registry g') i = Some en \<and> en_session en = v" if l: "logged_in g' v = Some i" for v i
  proof (cases "v = u")
    case True
    then have "i = uid" using logged_in_who [OF l] w(1) by auto
    then show ?thesis using True uid by (simp add: g' Register_def)
  next
    case False
    then have lg: "logged_in g v = Some i" using l by (simp add: logged_in_def g')
    have "i \<noteq> uid" using logged_in_unique [of g' v i u] assms(3) l w(1) False by (auto simp: g'_def)
    moreover have "cs_uid s \<noteq> i" using logged_in_unique [OF assms(2) lg] w(2) False by auto
    moreover obtain en where "um_find (gt_registry g) i = Some en" "en_session en = v"
      using assms(1) lg by (auto simp: registered_def)
    ultimately show ?thesis using uid by (simp add: g' Register_def r_def um_find_Unregister_other)
  qed
  then show ?thesis by (simp add: registered_def g'_def)
qed

lemma registered_alive: "registered g \<Longrightarrow> logged_in g u = Some uid \<Longrightarrow>
    um_find (gt_registry g) uid = Some en \<Longrightarrow> en_session en = u \<and> alive g en"
  by (force simp: registered_def alive_def logged_in_def split: option.splits)

lemma registered_prune:
  assumes "registered g" and "\<And>uid en. um_find (gt_registry g) uid = Some en \<Longrightarrow> alive g en \<Longrightarrow> um_find r uid = Some en"
  shows "registered (g\<lparr>gt_registry := r\<rparr>)"
proof (rule registered_mono [OF assms(1)])
  show "um_find (gt_registry (g\<lparr>gt_registry := r\<rparr>)) uid = Some en"
    if "logged_in (g\<lparr>gt_registry := r\<rparr>) u = Some uid" "um_find (gt_registry g) uid = Some en" "en_session en = u" for u uid en
    using that registered_alive [OF assms(1)] assms(2) by auto
qed simp

lemma registered_SendToUid:
  assumes "registered g" and "WorkShard_SendToUid k uid node g = (ok, effects, g')"
  shows "registered g'"
proof -
  have "registered (g\<lparr>gt_registry := um_erase uid (gt_registry g)\<rparr>)"
    if "um_find (gt_registry g) uid = Some en" "\<not> alive g en" for en
    using that assms(1) by (intro registered_prune) auto
  then show ?thesis
    using assms
    by (auto simp: WorkShard_SendToUid_def Registry_SendToUid_def registered_send_data alive_def
        split: option.splits if_splits)
qed

lemma registered_send_to_uids: "registered g \<Longrightarrow> registered (snd (snd (send_to_uids k node uids g)))"
  unfolding send_to_uids_def
  by (rule fold_invariant [where P = "\<lambda>x. registered (snd (snd x))"])
     (auto simp: Let_def split: prod.splits intro: registered_SendToUid)

lemma registered_Broadcast:
  assumes "registered g" and "um_ok (gt_registry g)"
  shows "registered (snd (snd (WorkShard_Broadcast e node g)))"
  using assms
  by (auto simp: WorkShard_Broadcast_def Registry_Broadcast_def Let_def um_find_erase_if
      intro!: registered_prune)

lemma registered_backend:
  assumes "registered g" and "um_ok (gt_registry g)"
  shows "registered (snd (BackendIngress_HandleMsg e k node g))"
  using registered_send_to_uids [OF assms(1)] registered_Broadcast [OF assms] assms(1)
  by (auto simp: BackendIngress_HandleMsg_def ForwardGameToClients_def Let_def split: option.split prod.splits)
     (metis snd_conv)+

lemma registered_StartAccept: "registered g \<Longrightarrow> registered (StartAccept u g)"
proof (cases "gt_stopping g")
  case False
  assume "registered g"
  then show ?thesis
    by (rule registered_mono)
       (use False in \<open>auto simp: StartAccept_def get_shard_def logged_in_def Csession_new_def
          split: option.splits if_splits\<close>)
qed (simp add: StartAccept_def)

lemma registered_accept:
  assumes "registered g" and "um_find (gt_objs g) u = Some s" and "cs_state s = Invalid"
  shows "registered (on_client_accept result u next_u g)"
proof -
  let ?g = "on_session u Csession_start (on_shard (cs_shard s) (add_user_session u u) g)"
  have "registered ?g"
    by (rule registered_mono [OF assms(1)])
       (use assms(2,3) in \<open>auto simp: logged_in_def client_open_def Csession_start_def split: option.splits if_splits\<close>)
  then show ?thesis
    using assms registered_StartAccept by (simp add: on_client_accept_def)
qed

lemma registered_HandleMsg:
  assumes "registered g" and "unique_uids g" and "unique_uids (ClientIngress_HandleMsg e now_unix_ms msgid u body g)"
  shows "registered (ClientIngress_HandleMsg e now_unix_ms msgid u body g)"
proof -
  have who_reply: "who (reply c i u m g) = who g" for c i m and g :: Gate
    by (simp add: reply_def SendToClient_def send_data_def who_on_session SendData_identity split: option.split)
  have "registered (HandleLoginReq e u body g)" if "unique_uids (HandleLoginReq e u body g)"
    using that registered_BindUid [OF assms(1,2)] assms(1)
    by (auto simp: HandleLoginReq_def Let_def registered_reply who_reply unique_uids_def split: option.splits)
  then show ?thesis
    using assms by (auto simp: ClientIngress_HandleMsg_def HandlePingReq_def Let_def registered_reply registered_Forward)
qed

lemma client_open_write_turn: "client_open (Csession_write_turn s) = client_open s"
  by (simp add: client_open_def Csession_write_turn_def split: list.split)

lemma registered_step:
  assumes "gate_step e g g'" and "gate_ok (gv_hash e) g" and "registered g"
    and "unique_uids g" and "unique_uids g'"
  shows "registered g'"
  using assms(1)
proof cases
  case (gate_start u now)
  have "registered (g\<lparr>gt_stopping := False, gt_shards := map (WorkShard_start now) (gt_shards g)\<rparr>)"
    using assms(3) by (simp add: registered_def)
  then show ?thesis using gate_start by (simp add: Cserver_start_def registered_StartAccept)
next
  case (gate_write_error u)
  let ?g = "on_session u (\<lambda>s. s\<lparr>cs_is_writing := False, cs_writer := NoWriter\<rparr>) g"
  have "registered ?g" by (rule registered_on_session) (simp_all add: assms(3) client_open_def)
  moreover have "unique_uids ?g" using assms(4) by (simp add: unique_uids_def who_on_session)
  ultimately show ?thesis using gate_write_error by (simp add: registered_close)
next
  case (gate_effect eff)
  then show ?thesis using assms(3) by (cases eff) (simp add: registered_send_data)
next
  case (gate_write u)
  have "registered (on_session u Csession_write_turn g)"
    by (rule registered_on_session) (auto simp: assms(3) client_open_write_turn, simp add: Csession_write_turn_def split: list.split)
  then show ?thesis using gate_write by simp
next
  case (gate_release u s)
  have "registered (g\<lparr>gt_objs := um_erase u (gt_objs g)\<rparr>)"
    by (rule registered_mono [OF assms(3)]) (auto simp: logged_in_def split: option.splits if_splits)
  then show ?thesis using gate_release by simp
next
  case gate_stop
  then show ?thesis using assms(3) by (simp add: Cserver_stop_def registered_def)
next
  case (gate_packet now_unix_ms msgid u body)
  then show ?thesis using assms(3-5) registered_HandleMsg by simp
qed (use assms(2-4) in \<open>auto simp: registered_accept heartbeat_round_def registered_close registered_backend gate_ok_def\<close>)

text \<open>Runs in which no two sessions ever share a player id.\<close>

inductive gate_run :: "gate_env \<Rightarrow> Gate \<Rightarrow> bool" for e :: gate_env where
  gate_run_init: "gate_run e Gate_new"
| gate_run_step: "gate_run e g \<Longrightarrow> gate_step e g g' \<Longrightarrow> unique_uids g' \<Longrightarrow> gate_run e g'"

lemma gate_run_inv: "gate_run e g \<Longrightarrow> gate_ok (gv_hash e) g \<and> registered g \<and> unique_uids g"
proof (induction rule: gate_run.induct)
  case gate_run_init
  show ?case
    using gate_ok_new [of "gv_hash e"]
    by (auto simp: registered_def logged_in_def unique_uids_def who_def Gate_new_def)
qed (auto intro: gate_ok_step registered_step)

lemma gate_run_recipient:
  assumes "gate_run e g" and "k < WORK_SHARD_NUMBER" and "logged_in g u = Some uid"
  shows "recipient k g uid = Some u"
proof -
  have ok: "gate_ok (gv_hash e) g" "registered g" "unique_uids g" using gate_run_inv [OF assms(1)] by auto
  obtain en where en: "um_find (gt_registry g) uid = Some en" "en_session en = u"
    using ok(2) assms(3) by (auto simp: registered_def)
  have "recipient k g uid \<noteq> None"
    using en registered_alive [OF ok(2) assms(3) en(1)] logged_in_who [OF assms(3)]
    by (auto simp: recipient_def split: option.split)
  then obtain v where v: "recipient k g uid = Some v" by auto
  obtain j where "who g v = Some (uid, j)" using recipient_who [OF ok(1) assms(2) v] by auto
  then show ?thesis using logged_in_unique [OF ok(3) assms(3)] v by simp
qed

end
