(* ===== verification/EndToEnd.thy ===== *)
theory EndToEnd
  imports GameServer GateRuns
begin

text \<open>
  A message on its whole way: from a client through the gate to the logic shard that handles it, and
  from a logic shard through the gate to the clients it is for. What the servers need of the
  generated protobuf code is that a message one of them serialised is parsed back by the other.
\<close>

subsection \<open>Assumptions on the generated code\<close>

definition envelope_roundtrip :: "gate_codec \<Rightarrow> codec \<Rightarrow> bool" where
  "envelope_roundtrip gc c \<longleftrightarrow>
     (\<forall>env bytes. gc_serialize gc (GateToGameMsg env) = Some bytes \<longrightarrow> cd_envelope c bytes = Some env)"

definition reply_roundtrip :: "codec \<Rightarrow> gate_codec \<Rightarrow> bool" where
  "reply_roundtrip c gc \<longleftrightarrow>
     (\<forall>uids msg_id seq payload bytes.
        cd_serialize c (GameToGateMsg uids msg_id seq payload) = Some bytes \<longrightarrow>
        gc_game_to_gate gc bytes =
          Some \<lparr>gg_target_uids = uids, gg_inner_msg_id = ucast msg_id, gg_payload = payload\<rparr>)"

lemma ParseProtoFromBytes_small:
  "length bytes \<le> kMaxPacketBodyLen \<Longrightarrow> ParseProtoFromBytes parse bytes = parse bytes"
  by (simp add: ParseProtoFromBytes_def kMaxPacketBodyLen_def)

lemma handle_read_one: "sendable (i, f, p) \<Longrightarrow> handle_read (sn_data (SendNode_new p i f)) =
    [\<lparr>rn_msg_id = i, rn_flags = f, rn_data = p\<rparr>]"
  using handle_read_wire [of "(i, f, p)" "[]"]
  by (simp add: wire_def received_def handle_read.simps [of "[]"])

subsection \<open>From a client to a logic shard\<close>

lemma client_forwards_forwarded: "client_forwards = forwarded_ids"
  by (simp add: client_forwards_def forwarded_ids_def)

lemma forwarded_nonzero: "i \<in> set client_forwards \<Longrightarrow> i \<noteq> 0 \<and>
    i \<noteq> GateLinkHello \<and> i \<noteq> PingReq \<and> i \<noteq> ClientDisconnectedNtf"
  by (auto simp: client_forwards_def)

lemma ucast_msg_id: "(ucast (ucast (i :: u16) :: u32) :: u16) = i"
  by (rule bit_word_eqI) (simp add: bit_simps)

lemma ucast_msg_id_0: "(ucast (i :: u16) :: u32) = 0 \<longleftrightarrow> i = 0"
  using ucast_msg_id [of i] by (metis unsigned_0)

text \<open>What the game server reads and dispatches when the gate forwards a message.\<close>

lemma forwarded_to_logic:
  assumes codec: "envelope_roundtrip gc c"
    and packet: "BuildGateToGameEnvelope gc uid session_id msgid body = Some packet"
    and msgid: "msgid \<in> set client_forwards" and uid: "uid \<noteq> 0"
    and n: "\<not> ns_stopping n" "logic_count \<noteq> 0"
  obtains node shard task n' where "handle_read (sn_data packet) = [node]"
    and "OnPacket c logic_count now_unix_ms link_id (rn_msg_id node) 0 (rn_data node) n = ([PostToLogic shard task], n')"
    and "lt_msg_id task = msgid" and "lt_uid task = uid" and "lt_origin task = MakeRoute link_id n"
    and "ParseProtoFromBytes (cd_envelope c) (lt_body task) = Some (gate_envelope uid session_id msgid body)"
    and "(shard, n') = ResolveLogicShard c logic_count msgid (gate_envelope uid session_id msgid body) n"
proof -
  obtain payload where p: "gc_serialize gc (GateToGameMsg (gate_envelope uid session_id msgid body)) = Some payload"
      "packet = SendNode_new payload GateToGameEnvelope kPacketFlagNone"
      "sendable (GateToGameEnvelope, kPacketFlagNone, payload)"
    using packet by (rule BuildGateToGameEnvelope_Some)
  define env where "env = gate_envelope uid session_id msgid body"
  have env: "ParseProtoFromBytes (cd_envelope c) payload = Some env"
    using codec p(1,3) by (simp add: envelope_roundtrip_def ParseProtoFromBytes_small sendable_def env_def)
  have fields: "ge_uid env = uid" "ge_inner_msg_id env = ucast msgid" "ge_client_seq env = 0"
    by (simp_all add: env_def gate_envelope_def)
  have parse: "ParseGateToGameEnvelope c payload = Some env"
    using env fields(2) forwarded_nonzero [OF msgid] ucast_msg_id_0 [of msgid]
    by (simp add: ParseGateToGameEnvelope_def)
  obtain shard n' where r: "ResolveLogicShard c logic_count msgid env n = (shard, n')" by fastforce
  define task where "task = \<lparr>lt_msg_id = msgid, lt_uid = uid, lt_seq = 0, lt_origin = MakeRoute link_id n', lt_body = payload\<rparr>"
  have "MakeRoute link_id n' = MakeRoute link_id n"
    using r by (auto simp: MakeRoute_def ResolveLogicShard_def PickLogicShard_def Let_def split: if_splits option.splits)
  then have o: "lt_origin task = MakeRoute link_id n" by (simp add: task_def)
  have "OnPacket c logic_count now_unix_ms link_id GateToGameEnvelope 0 payload n = ([PostToLogic shard task], n')"
    using n uid msgid forwarded_nonzero [OF msgid] parse fields r ucast_msg_id [of msgid]
    by (simp add: OnPacket_def ForwardToLogic_def client_forwards_forwarded task_def)
  then show thesis
    using that [of _ shard task n'] handle_read_one [OF p(3)] p(2) o env r by (simp add: task_def env_def)
qed

subsection \<open>From a logic shard to the clients\<close>

lemma BuildGameToGatewayEnvelope_eq:
  assumes "cd_serialize c (GameToGateMsg uids (nk_msg_id task) (nk_seq task) payload) = Some bytes"
    and "nk_body task = SendNode_new payload (nk_msg_id task) kPacketFlagNone" and "length payload < 2 ^ 32"
  shows "BuildGameToGatewayEnvelope c task uids = Some (SendNode_new bytes GameToGateEnvelope kPacketFlagNone)"
  using assms by (simp add: BuildGameToGatewayEnvelope_def ExtractPacketPayload_SendNode)

text \<open>The gate unwraps exactly the packet the logic shard built and queues it on the sessions of the
  addressees.\<close>

lemma reply_delivered:
  assumes codec: "reply_roundtrip c (gv_codec e)"
    and bytes: "cd_serialize c (GameToGateMsg uids (nk_msg_id task) (nk_seq task) payload) = Some bytes"
      "length bytes \<le> kMaxPacketBodyLen"
    and body: "nk_body task = SendNode_new payload (nk_msg_id task) kPacketFlagNone" "length payload < 2 ^ 32"
    and uids: "uids \<noteq> []"
    and gate: "gate_run e g" "k < WORK_SHARD_NUMBER"
    and packet: "BuildGameToGatewayEnvelope c task uids = Some packet"
    and read: "ClientSession_read (sn_data packet) = nodes"
    and handled: "BackendIngress_HandleMsg e k (hd nodes) g = (effects, g')"
  shows "length nodes = 1"
    and "logged_in g u = Some uid \<Longrightarrow>
      um_find (gt_objs (fold run_effect effects g')) u =
        map_option (Csession_SendData (nk_body task) ^^ count_list uids uid) (um_find (gt_objs g) u)"
    and "(\<forall>uid \<in> set uids. recipient k g uid \<noteq> Some v) \<Longrightarrow>
      um_find (gt_objs (fold run_effect effects g')) v = um_find (gt_objs g) v"
proof -
  have p: "packet = SendNode_new bytes GameToGateEnvelope kPacketFlagNone"
    using packet BuildGameToGatewayEnvelope_eq [OF bytes(1) body] by simp
  have nodes: "nodes = [\<lparr>rn_msg_id = GameToGateEnvelope, rn_flags = kPacketFlagNone, rn_data = bytes\<rparr>]"
    using read p bytes(2) by (simp add: ClientSession_read_eq handle_read_one sendable_def)
  then show "length nodes = 1" by simp
  define envelope where "envelope = \<lparr>gg_target_uids = uids, gg_inner_msg_id = ucast (nk_msg_id task), gg_payload = payload\<rparr>"
  have parse: "ParseProtoFromBytes (gc_game_to_gate (gv_codec e)) bytes = Some envelope"
    using codec bytes by (simp add: reply_roundtrip_def ParseProtoFromBytes_small envelope_def)
  have build: "BuildPacket (ucast (gg_inner_msg_id envelope)) (gg_payload envelope) = Some (nk_body task)"
    using body by (simp add: envelope_def BuildPacket_def ucast_msg_id)
  obtain ok where f: "ForwardGameToClients e k bytes g = (ok, effects, g')"
    using handled nodes by (cases "ForwardGameToClients e k bytes g") (auto simp: BackendIngress_HandleMsg_def)
  have ne: "gg_target_uids envelope \<noteq> []" using uids by (simp add: envelope_def)
  note delivers = ForwardGameToClients_delivers(1) [OF parse build ne f]
  show "um_find (gt_objs (fold run_effect effects g')) u =
        map_option (Csession_SendData (nk_body task) ^^ count_list uids uid) (um_find (gt_objs g) u)"
    if l: "logged_in g u = Some uid"
  proof -
    have ok: "gate_ok (gv_hash e) g" using gate_run_inv [OF gate(1)] by simp
    have r: "(recipient k g i = Some u) = (uid = i)" for i
      using gate_run_recipient [OF gate l] recipient_who [OF ok gate(2)] logged_in_who [OF l] by fastforce
    have "length (filter (\<lambda>i. recipient k g i = Some u) uids) = count_list uids uid"
      unfolding r by (simp add: count_list_eq_length_filter)
    then show ?thesis using delivers [of u] by (simp add: envelope_def)
  qed
  show "um_find (gt_objs (fold run_effect effects g')) v = um_find (gt_objs g) v"
    if "\<forall>uid \<in> set uids. recipient k g uid \<noteq> Some v"
  proof -
    have "filter (\<lambda>uid. recipient k g uid = Some v) uids = []" using that by (simp add: filter_empty_conv)
    then show ?thesis using delivers [of v] by (cases "um_find (gt_objs g) v") (simp_all add: envelope_def)
  qed
qed

end
