(* ===== verification/WireExample.thy ===== *)
theory WireExample
  imports EndToEnd RoomTheorems
begin

text \<open>
  A concrete stand-in for the generated message code, used where a property is instantiated: numbers
  as little-endian bytes, records as the concatenation of their fields. It satisfies what the servers
  need of the real one.
\<close>

subsection \<open>Evaluation\<close>

text \<open>Bounds are compared in binary, not by counting successors.\<close>

lemma compare_nat_int [code_unfold]:
  "nat_of_num k < n \<longleftrightarrow> numeral k < int n" "nat_of_num k \<le> n \<longleftrightarrow> numeral k \<le> int n"
  "n < nat_of_num k \<longleftrightarrow> int n < numeral k"
  by (simp_all only: nat_of_num_numeral of_nat_numeral [symmetric, where 'a = int] of_nat_less_iff of_nat_le_iff)

lemma compare_limits [code_unfold]:
  "kMaxPacketBodyLen < n \<longleftrightarrow> 65536 < int n" "kMaxSendQueueDepth \<le> n \<longleftrightarrow> 2048 \<le> int n"
  by (auto simp: kMaxPacketBodyLen_def kMaxSendQueueDepth_def)

subsection \<open>Numbers\<close>

unbundle bit_operations_syntax

fun enc :: "nat \<Rightarrow> u64 \<Rightarrow> byte list" where
  "enc 0 w = []"
| "enc (Suc k) w = ucast w # enc k (drop_bit 8 w)"

fun dec :: "byte list \<Rightarrow> u64" where
  "dec [] = 0"
| "dec (b # bs) = ucast b OR push_bit 8 (dec bs)"

lemma length_enc [simp]: "length (enc k n) = k"
  by (induction k arbitrary: n) auto

lemma dec_enc: "dec (enc k w) = take_bit (8 * k) w"
proof (induction k arbitrary: w)
  case (Suc k)
  show ?case
    unfolding enc.simps dec.simps Suc by (rule bit_word_eqI) (auto simp: bit_simps)
qed simp

definition enc64 :: "u64 \<Rightarrow> byte list" where "enc64 w = enc 8 w"
definition dec64 :: "byte list \<Rightarrow> u64" where "dec64 bs = dec (take 8 bs)"

lemma length_enc64 [simp]: "length (enc64 w) = 8"
  by (simp add: enc64_def)

lemma dec64_enc64 [simp]: "dec64 (enc64 w @ bs) = w"
  unfolding dec64_def enc64_def by (simp add: dec_enc) (rule bit_word_eqI, simp add: bit_simps)

lemma drop_enc64 [simp]: "drop 8 (enc64 w @ bs) = bs"
  by simp

definition number :: "byte list \<Rightarrow> u64 option" where
  "number bs = (if length bs = 8 then Some (dec64 bs) else None)"

fun numbers :: "nat \<Rightarrow> byte list \<Rightarrow> u64 list" where
  "numbers 0 bs = []"
| "numbers (Suc k) bs = dec64 bs # numbers k (drop 8 bs)"

lemma numbers_concat [simp]: "numbers (length ws) (concat (map enc64 ws) @ bs) = ws"
  by (induction ws) auto

lemma length_concat_enc64 [simp]: "length (concat (map enc64 ws)) = 8 * length ws"
  by (induction ws) auto

subsection \<open>Envelopes\<close>

definition enc_envelope :: "Envelope \<Rightarrow> byte list" where
  "enc_envelope env =
     enc64 (ge_uid env) @ enc64 (ge_session_id env) @ enc64 (ge_room_id env) @
     enc64 (ucast (ge_inner_msg_id env)) @ enc64 (ge_client_seq env) @ enc64 (ge_client_tick env) @
     ge_payload env"

definition dec_envelope :: "byte list \<Rightarrow> Envelope option" where
  "dec_envelope bs =
     (if length bs < 48 then None
      else Some \<lparr>ge_uid = dec64 bs, ge_session_id = dec64 (drop 8 bs), ge_room_id = dec64 (drop 16 bs),
        ge_inner_msg_id = ucast (dec64 (drop 24 bs)), ge_client_seq = dec64 (drop 32 bs),
        ge_client_tick = dec64 (drop 40 bs), ge_payload = drop 48 bs\<rparr>)"

lemma ucast_inner: "(ucast (ucast (i :: u32) :: u64) :: u32) = i"
  by (rule bit_word_eqI) (simp add: bit_simps)

lemma dec_enc_envelope: "dec_envelope (enc_envelope env) = Some env"
  by (simp add: dec_envelope_def enc_envelope_def ucast_inner)

definition enc_reply :: "u64 list \<Rightarrow> u16 \<Rightarrow> byte list \<Rightarrow> byte list option" where
  "enc_reply uids msg_id payload =
     (if unat (of_nat (length uids) :: u64) \<noteq> length uids then None
      else Some (enc64 (of_nat (length uids)) @ enc64 (ucast msg_id) @ concat (map enc64 uids) @ payload))"

definition dec_reply :: "byte list \<Rightarrow> GameToGate option" where
  "dec_reply bs =
     (let k = unat (dec64 bs)
      in if length bs < 16 + 8 * k then None
         else Some \<lparr>gg_target_uids = numbers k (drop 16 bs), gg_inner_msg_id = ucast (dec64 (drop 8 bs)),
           gg_payload = drop (16 + 8 * k) bs\<rparr>)"

lemma ucast_reply_id: "(ucast (ucast (i :: u16) :: u64) :: u32) = ucast i"
  by (rule bit_word_eqI) (auto simp: bit_simps)

lemma dec_enc_reply:
  "enc_reply uids msg_id payload = Some bs \<Longrightarrow>
     dec_reply bs = Some \<lparr>gg_target_uids = uids, gg_inner_msg_id = ucast msg_id, gg_payload = payload\<rparr>"
  by (auto simp: enc_reply_def dec_reply_def ucast_reply_id unat_of_nat split: if_splits)

subsection \<open>The codecs\<close>

definition example_codec :: codec where
  "example_codec =
     \<lparr>cd_envelope = dec_envelope,
      cd_create_room = (\<lambda>bs. map_option (\<lambda>w. \<lparr>cr_room_name = [], cr_max_players = ucast w\<rparr>) (number bs)),
      cd_join_room = number, cd_leave_room = number,
      cd_player_ready = (\<lambda>bs. map_option (\<lambda>w. \<lparr>pr_room_id = w, pr_ready = True\<rparr>) (number bs)),
      cd_enter_battle = number, cd_route_hint = number, cd_disconnected = number, cd_ping = number,
      cd_commands =
        \<lparr>cd_move = (\<lambda>_. None), cd_stop = (\<lambda>bs. Some (numbers (length bs div 8) bs)),
         cd_attack = (\<lambda>_. None), cd_harvest = (\<lambda>_. None), cd_store = (\<lambda>_. None),
         cd_pickup = (\<lambda>_. None), cd_build = (\<lambda>_. None), cd_construct = (\<lambda>_. None), cd_train = (\<lambda>_. None)\<rparr>,
      cd_serialize = (\<lambda>msg. case msg of
          GameToGateMsg uids msg_id seq payload \<Rightarrow> enc_reply uids msg_id payload
        | _ \<Rightarrow> Some [0]),
      cd_entity_state = (\<lambda>_. [])\<rparr>"

definition example_gate_codec :: gate_codec where
  "example_gate_codec =
     \<lparr>gc_login = (\<lambda>bs. Some (map (char_of \<circ> unat) bs, [])),
      gc_ping = dec64, gc_pong = number, gc_game_to_gate = dec_reply,
      gc_serialize = (\<lambda>msg. case msg of
          GateToGameMsg env \<Rightarrow> Some (enc_envelope env)
        | ClientDisconnectedMsg uid \<Rightarrow> Some (enc64 uid)
        | PingReqMsg t \<Rightarrow> Some (enc64 t)
        | _ \<Rightarrow> Some [0])\<rparr>"

lemma example_codec_ok:
  "envelope_roundtrip example_gate_codec example_codec" "reply_roundtrip example_codec example_gate_codec"
  by (auto simp: envelope_roundtrip_def reply_roundtrip_def example_codec_def example_gate_codec_def
      dec_enc_envelope intro: dec_enc_reply)

definition example_env :: env where
  "example_env = \<lparr>e_ord = (\<lambda>_ xs. xs), e_ord_net = (\<lambda>xs. xs), e_ord_link = (\<lambda>xs. xs),
     e_libm = example_libm, e_codec = example_codec\<rparr>"

lemma example_env_ok: "iter_ok (e_ord example_env)"
  by (simp add: example_env_def iter_ok_insertion)

definition example_hash :: "string \<Rightarrow> u64" where
  "example_hash s = foldr (\<lambda>c h. of_char c + 31 * h) s 0"

definition example_gate_env :: gate_env where
  "example_gate_env = \<lparr>gv_hash = example_hash, gv_codec = example_gate_codec, gv_ord = (\<lambda>xs. xs)\<rparr>"

end
