(* ===== verification/ClientReplica.thy ===== *)
theory ClientReplica
  imports ShardInvariants RoomSync RoomLineage
begin

text \<open>
  What a client that follows the server knows. \<open>announcement\<close> is the content of the messages a delta
  consists of, \<open>replica\<close> the world as a client keeps it, and \<open>apply_announcement\<close> the meaning of a
  message. The refinement: a replica that shows the room at the start of a frame shows it at the
  end, after the announcements of \<^verbatim>\<open>SendDelta\<close>, up to the two quantities a delta does not carry, the
  amounts left in fields and in drops.
\<close>

subsection \<open>Announcements\<close>

datatype announcement =
  Spawn EntityState
  | Despawn EntityType u64
  | Update "UnitStateSnapshot list" "BuildingStateSnapshot list" "PlayerResources list"

definition delta_announcements :: "iter_order \<Rightarrow> DungeonRoom \<Rightarrow> announcement list" where
  "delta_announcements ord room =
     map (\<lambda>u. Spawn (UnitState (FillUnitSnapshot u))) (List.map_filter (FindUnit room) (dr_spawned room)) @
     map (\<lambda>b. Spawn (BuildingState (FillBuildingSnapshot b)))
       (List.map_filter (FindBuilding room) (dr_building_spawned room)) @
     map (\<lambda>f. Spawn (FieldState (FillFieldSnapshot f))) (List.map_filter (FindField room) (dr_field_spawned room)) @
     map (\<lambda>d. Spawn (DropState (FillDropSnapshot d))) (List.map_filter (FindDrop room) (dr_drop_spawned room)) @
     map (Despawn ENTITY_UNIT) (dr_despawned room) @
     map (Despawn ENTITY_BUILDING) (dr_building_despawned room) @
     map (Despawn ENTITY_RESOURCE_FIELD) (dr_field_despawned room) @
     map (Despawn ENTITY_RESOURCE_DROP) (dr_drop_despawned room) @
     (if delta_units ord room \<noteq> [] \<or> delta_buildings ord room \<noteq> [] \<or> delta_resources ord room \<noteq> []
      then [Update (delta_units ord room) (delta_buildings ord room) (delta_resources ord room)] else [])"

definition entity_type :: "EntityState \<Rightarrow> EntityType" where
  "entity_type state =
     (case state of UnitState _ \<Rightarrow> ENTITY_UNIT | BuildingState _ \<Rightarrow> ENTITY_BUILDING
      | FieldState _ \<Rightarrow> ENTITY_RESOURCE_FIELD | DropState _ \<Rightarrow> ENTITY_RESOURCE_DROP)"

definition announce ::
  "env \<Rightarrow> (u64, GatewayRoute) umap \<Rightarrow> DungeonRoom \<Rightarrow> announcement \<Rightarrow> effect list" where
  "announce e routes room a =
     (case a of
        Spawn state \<Rightarrow> send_spawn e routes room (entity_type state) state
      | Despawn type i \<Rightarrow> send_despawn e routes room type i
      | Update us bs rs \<Rightarrow>
          SendToPlayers e routes WorldDeltaNtf (PlayerUids (e_ord e) room)
            (WorldDeltaMsg (dr_room_id room) (dr_server_tick room) us bs rs) (dr_server_tick room))"

text \<open>\<^verbatim>\<open>SendDelta\<close> sends exactly these, in this order.\<close>

lemma SendDelta_announces:
  "SendDelta e routes room =
     CountDelta # concat (map (announce e routes room) (delta_announcements (e_ord e) room))"
  by (simp add: SendDelta_def delta_announcements_def announce_def entity_type_def comp_def Let_def)

subsection \<open>The replica\<close>

record replica =
  rp_units :: "(u64, UnitStateSnapshot) umap"
  rp_buildings :: "(u64, BuildingStateSnapshot) umap"
  rp_fields :: "(u64, FieldStateSnapshot) umap"
  rp_drops :: "(u64, DropStateSnapshot) umap"
  rp_resources :: "(u64, PlayerResources) umap"

fun apply_announcement :: "announcement \<Rightarrow> replica \<Rightarrow> replica" where
  "apply_announcement (Spawn (UnitState u)) p = p\<lparr>rp_units := um_assign (us_id u) u (rp_units p)\<rparr>"
| "apply_announcement (Spawn (BuildingState b)) p =
     p\<lparr>rp_buildings := um_assign (bs_id b) b (rp_buildings p)\<rparr>"
| "apply_announcement (Spawn (FieldState f)) p = p\<lparr>rp_fields := um_assign (fs_id f) f (rp_fields p)\<rparr>"
| "apply_announcement (Spawn (DropState d)) p = p\<lparr>rp_drops := um_assign (ds_id d) d (rp_drops p)\<rparr>"
| "apply_announcement (Despawn ENTITY_UNIT i) p = p\<lparr>rp_units := um_erase i (rp_units p)\<rparr>"
| "apply_announcement (Despawn ENTITY_BUILDING i) p = p\<lparr>rp_buildings := um_erase i (rp_buildings p)\<rparr>"
| "apply_announcement (Despawn ENTITY_RESOURCE_FIELD i) p = p\<lparr>rp_fields := um_erase i (rp_fields p)\<rparr>"
| "apply_announcement (Despawn ENTITY_RESOURCE_DROP i) p = p\<lparr>rp_drops := um_erase i (rp_drops p)\<rparr>"
| "apply_announcement (Update us bs rs) p =
     p\<lparr>rp_units := fold (\<lambda>u. um_assign (us_id u) u) us (rp_units p),
       rp_buildings := fold (\<lambda>b. um_assign (bs_id b) b) bs (rp_buildings p),
       rp_resources := fold (\<lambda>r. um_assign (rs_uid r) r) rs (rp_resources p)\<rparr>"

definition shows_room :: "replica \<Rightarrow> DungeonRoom \<Rightarrow> bool" where
  "shows_room p r \<longleftrightarrow>
     (\<forall>i. um_find (rp_units p) i = map_option FillUnitSnapshot (um_find (dr_units r) i)) \<and>
     (\<forall>i. um_find (rp_buildings p) i = map_option FillBuildingSnapshot (um_find (dr_buildings r) i)) \<and>
     (\<forall>i. um_find (rp_fields p) i = None \<longleftrightarrow> um_find (dr_fields r) i = None) \<and>
     (\<forall>i. um_find (rp_drops p) i = None \<longleftrightarrow> um_find (dr_drops r) i = None) \<and>
     (\<forall>uid. um_find (rp_resources p) uid = map_option (FillPlayerResources uid) (um_find (dr_player_res r) uid))"


subsection \<open>One table\<close>

definition put_all :: "('s \<Rightarrow> u64) \<Rightarrow> 's list \<Rightarrow> (u64, 's) umap \<Rightarrow> (u64, 's) umap" where
  "put_all key xs t = fold (\<lambda>x. um_assign (key x) x) xs t"

definition drop_all :: "u64 list \<Rightarrow> (u64, 's) umap \<Rightarrow> (u64, 's) umap" where
  "drop_all xs t = fold um_erase xs t"

lemma find_put_all:
  assumes "\<And>i v. um_find m i = Some v \<Longrightarrow> key (view v) = i"
  shows "um_find (put_all key (map view (List.map_filter (um_find m) xs)) t) i =
    (if i \<in> set xs \<and> um_find m i \<noteq> None then map_option view (um_find m i) else um_find t i)"
proof (induction xs arbitrary: t)
  case Nil
  then show ?case by (simp add: put_all_def)
next
  case (Cons x xs)
  show ?case
  proof (cases "um_find m x")
    case None
    then show ?thesis using Cons by (auto simp: put_all_def)
  next
    case (Some v)
    then show ?thesis using Cons assms [OF Some] by (auto simp: put_all_def)
  qed
qed

lemma find_drop_all: "um_find (drop_all xs t) i = (if i \<in> set xs then None else um_find t i)"
  by (induction xs arbitrary: t) (auto simp: drop_all_def)

text \<open>
  A table that showed \<open>m\<close>, told of the spawned, the despawned and the dirty entries of \<open>m'\<close>, shows
  \<open>m'\<close>, when the change lists record what happened and no despawned identifier is in use.
\<close>

lemma table_sync:
  assumes old: "\<And>i. um_find t i = map_option view (um_find m i)"
    and "keyed_by ident m'" and key: "\<And>v. key (view v) = ident v"
    and tr: "entity_tracked same dirty spawned despawned m m'"
    and same: "\<And>v v'. same v v' \<Longrightarrow> view v' = view v"
    and gone: "\<And>i. i \<in> set despawned \<Longrightarrow> um_find m' i = None"
    and upd: "\<And>i. i \<in> set updated \<longleftrightarrow> i \<in> set dirty \<and> i \<notin> set spawned"
  shows "um_find (put_all key (map view (List.map_filter (um_find m') updated))
      (drop_all despawned (put_all key (map view (List.map_filter (um_find m') spawned)) t))) i =
    map_option view (um_find m' i)"
proof -
  have k: "um_find m' i = Some v \<Longrightarrow> key (view v) = i" for i v
    using key keyed_by_find [OF assms(2)] by simp
  note put = find_put_all [where key = key and view = view and m = m', OF k]
  show ?thesis
    using tr [unfolded entity_tracked_def, rule_format, of i] gone [of i] upd [of i] old [of i]
    by (cases "um_find m i"; cases "um_find m' i")
       (auto simp: put find_drop_all dest: same)
qed

lemma presence_sync:
  assumes old: "\<And>i. um_find t i = None \<longleftrightarrow> um_find m i = None"
    and "keyed_by ident m'" and key: "\<And>v. key (view v) = ident v"
    and tr: "entity_tracked same dirty spawned despawned m m'"
    and gone: "\<And>i. i \<in> set despawned \<Longrightarrow> um_find m' i = None"
  shows "um_find (drop_all despawned (put_all key (map view (List.map_filter (um_find m') spawned)) t)) i
      = None \<longleftrightarrow> um_find m' i = None"
proof -
  have k: "um_find m' i = Some v \<Longrightarrow> key (view v) = i" for i v
    using key keyed_by_find [OF assms(2)] by simp
  note put = find_put_all [where key = key and view = view and m = m', OF k]
  show ?thesis
    using tr [unfolded entity_tracked_def, rule_format, of i] gone [of i] old [of i]
    by (cases "um_find m i"; cases "um_find m' i") (auto simp: put find_drop_all)
qed

subsection \<open>The tables of a replica\<close>

lemma fold_spawn_units:
  "fold apply_announcement (map (\<lambda>u. Spawn (UnitState (f u))) xs) p =
     p\<lparr>rp_units := put_all us_id (map f xs) (rp_units p)\<rparr>"
  by (induction xs arbitrary: p) (auto simp: put_all_def)

lemma fold_spawn_buildings:
  "fold apply_announcement (map (\<lambda>u. Spawn (BuildingState (f u))) xs) p =
     p\<lparr>rp_buildings := put_all bs_id (map f xs) (rp_buildings p)\<rparr>"
  by (induction xs arbitrary: p) (auto simp: put_all_def)

lemma fold_spawn_fields:
  "fold apply_announcement (map (\<lambda>u. Spawn (FieldState (f u))) xs) p =
     p\<lparr>rp_fields := put_all fs_id (map f xs) (rp_fields p)\<rparr>"
  by (induction xs arbitrary: p) (auto simp: put_all_def)

lemma fold_spawn_drops:
  "fold apply_announcement (map (\<lambda>u. Spawn (DropState (f u))) xs) p =
     p\<lparr>rp_drops := put_all ds_id (map f xs) (rp_drops p)\<rparr>"
  by (induction xs arbitrary: p) (auto simp: put_all_def)

lemma fold_despawn:
  "fold apply_announcement (map (Despawn ENTITY_UNIT) xs) p = p\<lparr>rp_units := drop_all xs (rp_units p)\<rparr>"
  "fold apply_announcement (map (Despawn ENTITY_BUILDING) xs) p =
     p\<lparr>rp_buildings := drop_all xs (rp_buildings p)\<rparr>"
  "fold apply_announcement (map (Despawn ENTITY_RESOURCE_FIELD) xs) p =
     p\<lparr>rp_fields := drop_all xs (rp_fields p)\<rparr>"
  "fold apply_announcement (map (Despawn ENTITY_RESOURCE_DROP) xs) p =
     p\<lparr>rp_drops := drop_all xs (rp_drops p)\<rparr>"
  by (induction xs arbitrary: p) (auto simp: drop_all_def)

lemma fold_update:
  "fold apply_announcement (if us \<noteq> [] \<or> bs \<noteq> [] \<or> rs \<noteq> [] then [Update us bs rs] else []) p =
     p\<lparr>rp_units := put_all us_id us (rp_units p), rp_buildings := put_all bs_id bs (rp_buildings p),
       rp_resources := put_all rs_uid rs (rp_resources p)\<rparr>"
  by (auto simp: put_all_def)

lemmas replica_folds = fold_spawn_units fold_spawn_buildings fold_spawn_fields fold_spawn_drops
  fold_despawn fold_update

lemma find_put_resources:
  "um_find (put_all rs_uid (List.map_filter (\<lambda>uid. map_option (FillPlayerResources uid) (um_find m uid)) xs) t) i =
    (if i \<in> set xs \<and> um_find m i \<noteq> None then map_option (FillPlayerResources i) (um_find m i) else um_find t i)"
proof (induction xs arbitrary: t)
  case Nil
  then show ?case by (simp add: put_all_def)
next
  case (Cons x xs)
  show ?case
  proof (cases "um_find m x")
    case None
    then show ?thesis using Cons by (auto simp: put_all_def)
  next
    case (Some v)
    then show ?thesis using Cons by (auto simp: put_all_def FillPlayerResources_def)
  qed
qed

subsection \<open>The refinement\<close>

lemma snapshot_ids [simp]:
  "us_id (FillUnitSnapshot u) = u_id u" "bs_id (FillBuildingSnapshot b) = b_id b"
  "fs_id (FillFieldSnapshot f) = f_id f" "ds_id (FillDropSnapshot d) = d_id d"
  by (simp_all add: FillUnitSnapshot_def FillBuildingSnapshot_def FillFieldSnapshot_def FillDropSnapshot_def)

lemma same_view_snapshot: "same_view u v \<Longrightarrow> FillUnitSnapshot v = FillUnitSnapshot u"
  by (simp add: same_view_def same_body_def FillUnitSnapshot_def)

lemma same_building_view_snapshot:
  "same_building_view b c \<Longrightarrow> FillBuildingSnapshot c = FillBuildingSnapshot b"
  by (simp add: same_building_view_def FillBuildingSnapshot_def)

text \<open>In a room with fresh identifiers nothing despawned in this frame is in use.\<close>

lemma fresh_ids_gone:
  assumes "fresh_ids s"
  shows "i \<in> set (dr_despawned s) \<Longrightarrow> um_find (dr_units s) i = None"
    and "i \<in> set (dr_building_despawned s) \<Longrightarrow> um_find (dr_buildings s) i = None"
    and "i \<in> set (dr_field_despawned s) \<Longrightarrow> um_find (dr_fields s) i = None"
    and "i \<in> set (dr_drop_despawned s) \<Longrightarrow> um_find (dr_drops s) i = None"
  using assms by (auto simp: fresh_ids_def all_ids_def um_find_None_iff)

lemma delta_sync:
  assumes shows_r: "shows_room p r" and "keyed s" and tr: "tracked r s" and fresh: "fresh_ids s"
    and ord: "iter_ok ord"
  shows "shows_room (fold apply_announcement (delta_announcements ord s) p) s"
proof -
  note set_ord = iter_ok_set [OF ord]
  note gone = fresh_ids_gone [OF fresh]
  have k: "keyed_by u_id (dr_units s)" "keyed_by b_id (dr_buildings s)" "keyed_by f_id (dr_fields s)"
      "keyed_by d_id (dr_drops s)"
    using assms(2) by (simp_all add: keyed_def)
  have t: "entity_tracked same_view (dr_dirty s) (dr_spawned s) (dr_despawned s) (dr_units r) (dr_units s)"
    "entity_tracked same_building_view (dr_building_dirty s) (dr_building_spawned s)
       (dr_building_despawned s) (dr_buildings r) (dr_buildings s)"
    "entity_tracked (=) (dr_field_dirty s) (dr_field_spawned s) (dr_field_despawned s)
       (dr_fields r) (dr_fields s)"
    "entity_tracked (\<lambda>_ _. True) [] (dr_drop_spawned s) (dr_drop_despawned s) (dr_drops r) (dr_drops s)"
    "entity_tracked (=) (dr_resource_dirty s) [] [] (dr_player_res r) (dr_player_res s)"
    using tr by (simp_all add: tracked_def)
  have units: "um_find (put_all us_id (delta_units ord s) (drop_all (dr_despawned s)
      (put_all us_id (map FillUnitSnapshot (List.map_filter (um_find (dr_units s)) (dr_spawned s)))
         (rp_units p)))) i = map_option FillUnitSnapshot (um_find (dr_units s) i)" for i
    unfolding delta_units_def FindUnit_def [abs_def]
    by (rule table_sync [OF _ k(1) _ t(1) same_view_snapshot gone(1)])
       (use shows_r in \<open>auto simp: shows_room_def set_ord\<close>)
  have buildings: "um_find (put_all bs_id (delta_buildings ord s) (drop_all (dr_building_despawned s)
      (put_all bs_id (map FillBuildingSnapshot (List.map_filter (um_find (dr_buildings s))
        (dr_building_spawned s))) (rp_buildings p)))) i =
      map_option FillBuildingSnapshot (um_find (dr_buildings s) i)" for i
    unfolding delta_buildings_def FindBuilding_def [abs_def]
    by (rule table_sync [OF _ k(2) _ t(2) same_building_view_snapshot gone(2)])
       (use shows_r in \<open>auto simp: shows_room_def set_ord\<close>)
  have fields: "um_find (drop_all (dr_field_despawned s) (put_all fs_id (map FillFieldSnapshot
      (List.map_filter (um_find (dr_fields s)) (dr_field_spawned s))) (rp_fields p))) i = None \<longleftrightarrow>
      um_find (dr_fields s) i = None" for i
    by (rule presence_sync [OF _ k(3) _ t(3) gone(3)])
       (use shows_r in \<open>auto simp: shows_room_def\<close>)
  have drops: "um_find (drop_all (dr_drop_despawned s) (put_all ds_id (map FillDropSnapshot
      (List.map_filter (um_find (dr_drops s)) (dr_drop_spawned s))) (rp_drops p))) i = None \<longleftrightarrow>
      um_find (dr_drops s) i = None" for i
    by (rule presence_sync [OF _ k(4) _ t(4) gone(4)])
       (use shows_r in \<open>auto simp: shows_room_def\<close>)
  have resources: "um_find (put_all rs_uid (delta_resources ord s) (rp_resources p)) uid =
      map_option (FillPlayerResources uid) (um_find (dr_player_res s) uid)" for uid
    using t(5) [unfolded entity_tracked_def, rule_format, of uid] shows_r
    unfolding delta_resources_def FindPlayerRes_def [abs_def]
    by (auto simp: find_put_resources set_ord shows_room_def split: option.splits)
  show ?thesis
    unfolding delta_announcements_def fold_append comp_def replica_folds shows_room_def
    by (simp add: units buildings fields drops resources FindUnit_def [abs_def] FindBuilding_def [abs_def]
        FindField_def [abs_def] FindDrop_def [abs_def])
qed


subsection \<open>A tick\<close>

text \<open>The room as it is when its delta or snapshot is sent.\<close>

definition sent_room :: "env \<Rightarrow> DungeonRoom \<Rightarrow> DungeonRoom" where
  "sent_room e r =
     snd (NextServerTick (Step (e_ord e) (e_libm e) kTickSeconds (snd (TakeRejected (ApplyPending (e_libm e) r)))))"

lemma tick_running_sent:
  "snd (tick_running e routes i r) \<in>
     {ClearFrameChanges (sent_room e r), SetGameOver True (ClearFrameChanges (sent_room e r))}"
  "\<exists>pre post. fst (tick_running e routes i r) = pre @
     (if (dr_server_tick r + 1) mod kFullSnapshotInterval = 0 then SendFullSnapshot e routes (sent_room e r)
      else SendDelta e routes (sent_room e r)) @ post"
  if "keyed r" "iter_ok (e_ord e)"
proof -
  show "snd (tick_running e routes i r) \<in>
     {ClearFrameChanges (sent_room e r), SetGameOver True (ClearFrameChanges (sent_room e r))}"
    by (auto simp: tick_running_def sent_room_def Let_def split_beta split: option.split)
  let ?a = "snd (TakeRejected (ApplyPending (e_libm e) r))"
  have "keyed ?a" using keyed_ApplyPending [OF that(1)] by (simp add: TakeRejected_def keyed_def)
  then have "dr_server_tick (Step (e_ord e) (e_libm e) kTickSeconds ?a) = dr_server_tick r"
    using lobby.simulation [of ?a "e_ord e" "e_libm e" kTickSeconds] that(2)
      lobby.commands [OF that(1), of "e_libm e"]
    by (simp add: same_lobby_def TakeRejected_def)
  then show "\<exists>pre post. fst (tick_running e routes i r) = pre @
     (if (dr_server_tick r + 1) mod kFullSnapshotInterval = 0 then SendFullSnapshot e routes (sent_room e r)
      else SendDelta e routes (sent_room e r)) @ post"
    unfolding tick_running_def sent_room_def Let_def split_beta NextServerTick_def
    by (auto split: option.split intro!: exI)
qed

lemma sent_room_spec:
  assumes "keyed r" and "iter_ok (e_ord e)"
  shows "keyed (sent_room e r)" and "tracked r (sent_room e r)" and "ids_follow r (sent_room e r)"
proof -
  let ?c = "ApplyPending (e_libm e) r"
  let ?a = "snd (TakeRejected ?c)"
  let ?b = "Step (e_ord e) (e_libm e) kTickSeconds ?a"
  have a: "keyed ?a" using keyed_ApplyPending [OF assms(1)] by (simp add: TakeRejected_def keyed_def)
  then show "keyed (sent_room e r)"
    using keyed_Step [OF a assms(2)] by (simp add: sent_room_def NextServerTick_def keyed_def)
  have "tracked ?c ?a" "tracked ?b (sent_room e r)"
    by (simp_all add: tracked_def lists_grow_def TakeRejected_def sent_room_def NextServerTick_def)
  then show "tracked r (sent_room e r)"
    using sync.commands [OF assms(1)] sync.simulation [OF a assms(2)] tracked_trans by metis
  have "ids_follow ?c ?a" "ids_follow ?b (sent_room e r)"
    by (auto simp: all_ids_def spawn_count_def TakeRejected_def sent_room_def NextServerTick_def
        intro!: ids_follow_shrink)
  then show "ids_follow r (sent_room e r)"
    using ids.commands [OF assms(1)] ids.simulation [OF a assms(2)] ids_follow_trans by metis
qed

lemma shows_room_admin:
  "shows_room p (ClearFrameChanges r) = shows_room p r" "shows_room p (SetGameOver b r) = shows_room p r"
  by (simp_all add: shows_room_def ClearFrameChanges_def SetGameOver_def)

lemma tick_sync:
  assumes "keyed r" and "iter_ok (e_ord e)" and "fresh_ids r" and "shows_room p r"
    and "unat (dr_next_entity_id r) + (spawn_count (sent_room e r) - spawn_count r) < 2 ^ 64"
  shows "shows_room (fold apply_announcement (delta_announcements (e_ord e) (sent_room e r)) p)
    (snd (tick_running e routes i r))"
proof -
  note spec = sent_room_spec [OF assms(1,2)]
  have "fresh_ids (sent_room e r)" using spec(3) assms(3,5) by (simp add: ids_follow_def)
  then have "shows_room (fold apply_announcement (delta_announcements (e_ord e) (sent_room e r)) p) (sent_room e r)"
    by (rule delta_sync [OF assms(4) spec(1,2) _ assms(2)])
  then show ?thesis
    using tick_running_sent(1) [OF assms(1,2), of routes i]
    by (elim insertE emptyE) (simp_all add: shows_room_admin)
qed

end
