(* ===== verification/ServerTheorems.thy ===== *)
theory ServerTheorems
  imports WireExample ClientReplica
begin

text \<open>
  The properties of the game server around the rooms: who is in which room, where rooms live and how
  messages find them, the effect of requests and their errors, and the tick.
\<close>

subsection \<open>A concrete server\<close>

text \<open>Two logic shards and one network shard with two links; a gateway has connected and player 7 has
  asked for a room.\<close>

definition example_message :: "u64 \<Rightarrow> MsgId \<Rightarrow> byte list \<Rightarrow> byte list" where
  "example_message uid msgid body = enc_envelope (gate_envelope uid 0 msgid body)"

definition example_server0 :: GameServer where
  "example_server0 = (case GameServer_new 2 1 2 of Inr s \<Rightarrow> s)"

definition example_server1 :: GameServer where
  "example_server1 =
     (let s = GameServer_Start example_server0
      in s\<lparr>gs_network_shards := (gs_network_shards s)[0 := on_accept 0 1 Accepted (gs_network_shards s ! 0)]\<rparr>)"

definition example_server2 :: GameServer where
  "example_server2 = run_packet example_env 0 0 GateToGameEnvelope (example_message 7 CreateRoomReq (enc64 2)) 0 example_server1"

definition example_server :: GameServer where
  "example_server = run_logic_task example_env 0 example_server2"

lemma example_server_reachable: "server_reachable example_env example_server"
proof -
  have "GameServer_new 2 1 2 = Inr example_server0"
    by (simp add: example_server0_def GameServer_new_def)
  then have 0: "server_reachable example_env example_server0"
    by (rule server_init) simp_all
  have 1: "server_reachable example_env example_server1"
    unfolding example_server1_def Let_def
    by (rule server_next [OF server_next [OF 0 server_start] server_net [OF _ net_accept]]; code_simp)
  have 2: "server_reachable example_env example_server2"
    unfolding example_server2_def by (rule server_next [OF 1 server_packet]) code_simp
  have "let s = example_server2; l = gs_logic_shards s ! 0
    in length (gs_logic_shards s) = 2 \<and> ls_shard_id l = 0 \<and> ls_shard_count l = 2 \<and> ls_next_room_id l = 1"
    by code_simp
  then have "length (gs_logic_shards example_server2) = 2" "id_space_left (gs_logic_shards example_server2 ! 0)"
    by (simp_all add: Let_def id_space_left_def)
  then show ?thesis
    unfolding example_server_def by (intro server_next [OF 2 server_task]) simp_all
qed

lemma example_server_room:
  "um_keys (ls_rooms (gs_logic_shards example_server ! 0)) = [2]"
  "um_find (ls_uid_to_room (gs_logic_shards example_server ! 0)) 7 = Some 2"
  "length (gs_logic_shards example_server) = 2" "length (gs_network_shards example_server) = 1"
  "\<not> ns_stopping (gs_network_shards example_server ! 0)" "\<not> gs_stopping example_server"
proof -
  have "let s = example_server; l = gs_logic_shards s ! 0
    in um_keys (ls_rooms l) = [2] \<and> um_find (ls_uid_to_room l) 7 = Some 2 \<and> length (gs_logic_shards s) = 2 \<and>
      length (gs_network_shards s) = 1 \<and> \<not> ns_stopping (gs_network_shards s ! 0) \<and> \<not> gs_stopping s"
    by code_simp
  then show "um_keys (ls_rooms (gs_logic_shards example_server ! 0)) = [2]"
    "um_find (ls_uid_to_room (gs_logic_shards example_server ! 0)) 7 = Some 2"
    "length (gs_logic_shards example_server) = 2" "length (gs_network_shards example_server) = 1"
    "\<not> ns_stopping (gs_network_shards example_server ! 0)" "\<not> gs_stopping example_server"
    by (simp_all add: Let_def)
qed

subsection \<open>Membership\<close>

text \<open>C8: in every state the game server can get into, on every logic shard the table from players to rooms
  and the rooms agree: a player is listed with a room exactly when the room exists and holds the
  player, so each player is in at most one room of the shard. Every room has at least one player and
  at most its maximum, is stored under its own number, and keeps a ledger for exactly its players.\<close>

theorem membership:
  assumes "server_reachable e s" and "iter_ok (e_ord e)" and "i < length (gs_logic_shards s)"
    and l: "l = gs_logic_shards s ! i"
  shows "(um_find (ls_uid_to_room l) uid = Some room_id \<longleftrightarrow>
      (\<exists>room. um_find (ls_rooms l) room_id = Some room \<and> HasPlayer uid room)) \<and>
    (um_find (ls_rooms l) room_id = Some room \<longrightarrow>
      dr_room_id room = room_id \<and> um_keys (dr_players room) \<noteq> [] \<and>
      length (um_keys (dr_players room)) \<le> unat (dr_max_players room) \<and>
      set (um_keys (dr_player_res room)) = set (um_keys (dr_players room)))"
proof -
  have "shard_ok l" using server_reachable_ok [OF assms(1,2)] assms(3) by (simp add: l server_ok_def)
  then show ?thesis by (auto simp: shard_ok_def room_ok_def)
qed

theorem membership_witness:
  "\<exists>room. um_find (ls_rooms (gs_logic_shards example_server ! 0)) 2 = Some room \<and> HasPlayer 7 room"
  using membership [OF example_server_reachable example_env_ok _ refl, of 0 7 2] example_server_room by simp

text \<open>C17: rooms have one home: in every state the game server can get into, a room number exists on one logic
  shard at most, and that is the shard the number names modulo the number of shards, which is where
  the network shards send what names the room.\<close>

theorem one_home:
  assumes "server_reachable e s" and "iter_ok (e_ord e)"
    and "i < length (gs_logic_shards s)" and "room_id \<in> set (um_keys (ls_rooms (gs_logic_shards s ! i)))"
    and "room_id \<noteq> 0" and "msg_id \<noteq> CreateRoomReq" and "ge_room_id envelope = room_id"
  shows "i = unat room_id mod length (gs_logic_shards s) \<and>
    unat (fst (ResolveLogicShard c (LogicShardCount s) msg_id envelope n)) = i"
proof -
  have ok: "server_ok s" using server_reachable_ok [OF assms(1,2)] .
  let ?l = "gs_logic_shards s ! i"
  have l: "room_ids_ok ?l" "unat (ls_shard_id ?l) = i" "unat (ls_shard_count ?l) = length (gs_logic_shards s)"
    using ok assms(3) by (auto simp: server_ok_def)
  have "LogicShardCount s = ls_shard_count ?l" by (simp add: LogicShardCount_def l(3) [symmetric])
  then show ?thesis
    using room_home [OF ok assms(3,4)] ResolveLogicShard_home [OF l(1) assms(4-7)] l(2) by simp
qed

theorem one_home_witness:
  "unat (fst (ResolveLogicShard example_codec (LogicShardCount example_server) JoinRoomReq
     ((gate_envelope 9 0 JoinRoomReq [])\<lparr>ge_room_id := 2\<rparr>) (gs_network_shards example_server ! 0))) = 0"
  using one_home [OF example_server_reachable example_env_ok, of 0 2 JoinRoomReq
      "(gate_envelope 9 0 JoinRoomReq [])\<lparr>ge_room_id := 2\<rparr>" example_codec "gs_network_shards example_server ! 0"]
    example_server_room by simp

subsection \<open>Requests\<close>

lemma leave_other_rooms:
  "um_find (ls_rooms (snd (leave_other e uid room_id s))) room_id = um_find (ls_rooms s) room_id"
  by (auto simp: leave_other_def LeaveRoomInternal_def after_leave_def set_room_def Let_def split: option.split)

text \<open>C28: a request to join a room ends in one of two ways, on every shard the server can get into. If the room
  exists and has a place for the player, or holds the player already, the player is in it afterwards.
  Otherwise the player is in no room of this shard at all: also a player who sat in another room has
  left it, before the request is found to be impossible. In no case the player is in two rooms.\<close>

theorem join_outcome:
  assumes "shard_reachable e s" and "iter_ok (e_ord e)"
    and req: "parse_request e (cd_join_room (e_codec e)) task = Some (envelope, room_id)"
    and t: "t = snd (HandleJoinRoom e task s)"
  shows "um_find (ls_uid_to_room t) (lt_uid task) =
      (case um_find (ls_rooms s) room_id of
         None \<Rightarrow> None
       | Some room \<Rightarrow> if HasPlayer (lt_uid task) room \<or> \<not> IsFull room then Some room_id else None) \<and>
    (um_find (ls_rooms t) other = Some room' \<and> HasPlayer (lt_uid task) room' \<longrightarrow> other = room_id)"
proof -
  let ?uid = "lt_uid task" and ?s = "snd (leave_other e (lt_uid task) room_id s)"
  have ok: "shard_ok s" using shard_reachable_inv [OF assms(1,2)] by blast
  have at: "um_find (ls_uid_to_room ?s) ?uid \<in> {None, Some room_id}" and ok': "shard_ok ?s"
    using leave_other_spec [OF ok] by auto
  have rooms: "um_find (ls_rooms ?s) room_id = um_find (ls_rooms s) room_id" by (rule leave_other_rooms)
  have out: "um_find (ls_uid_to_room ?s) ?uid = None"
    if "\<And>room. um_find (ls_rooms s) room_id = Some room \<Longrightarrow> \<not> HasPlayer ?uid room"
    using that at shard_okD(5) [OF ok', of ?uid room_id] rooms by auto
  have seat: "um_find (ls_uid_to_room t) ?uid = (case um_find (ls_rooms s) room_id of None \<Rightarrow> None
      | Some room \<Rightarrow> if HasPlayer ?uid room \<or> \<not> IsFull room then Some room_id else None)"
    using req out rooms unfolding t
    by (auto simp: HandleJoinRoom_def AddPlayer_def HasPlayer_def Let_def split_beta split: option.splits)
  have "shard_ok t" unfolding t using HandleJoinRoom_shard_ok [OF ok] .
  then have "um_find (ls_rooms t) other = Some room' \<Longrightarrow> HasPlayer ?uid room' \<Longrightarrow> um_find (ls_uid_to_room t) ?uid = Some other"
    by (rule shard_okD(4))
  then show ?thesis using seat by (auto split: option.splits if_splits)
qed

definition example_create :: LogicTask where
  "example_create = \<lparr>lt_msg_id = CreateRoomReq, lt_uid = 7, lt_seq = 0,
     lt_origin = \<lparr>gr_net_shard = 0, gr_link_id = 0, gr_generation = 1\<rparr>, lt_body = example_message 7 CreateRoomReq (enc64 2)\<rparr>"

definition example_join :: "u64 \<Rightarrow> LogicTask" where
  "example_join uid = \<lparr>lt_msg_id = JoinRoomReq, lt_uid = uid, lt_seq = 0,
     lt_origin = \<lparr>gr_net_shard = 0, gr_link_id = 0, gr_generation = 1\<rparr>, lt_body = example_message uid JoinRoomReq (enc64 2)\<rparr>"

definition example_logic :: LogicShard where
  "example_logic = snd (handleTask example_env example_create (LogicShard_new 0 2))"

lemma example_logic_reachable: "shard_reachable example_env example_logic"
  unfolding example_logic_def
  by (rule shard_task [OF shard_init]) (simp_all add: id_space_left_def LogicShard_new_def)

lemma parse_example:
  assumes "length body \<le> 1000" and "lt_body task = example_message uid msgid body"
  shows "parse_request example_env parse task = map_option (Pair (gate_envelope uid 0 msgid body)) (parse body)"
proof -
  have "length (lt_body task) \<le> 1048" using assms by (simp add: example_message_def enc_envelope_def gate_envelope_def)
  moreover have "dec_envelope (lt_body task) = Some (gate_envelope uid 0 msgid body)"
    using assms(2) by (simp add: example_message_def dec_enc_envelope)
  ultimately show ?thesis
    using assms(1)
    by (simp add: parse_request_def example_env_def example_codec_def ParseProtoFromBytes_def)
       (simp add: gate_envelope_def)
qed

lemma number_enc64 [simp]: "number (enc64 w) = Some w"
  using dec64_enc64 [of w "[]"] by (simp add: number_def)

theorem join_outcome_witness:
  "um_find (ls_uid_to_room (snd (HandleJoinRoom example_env (example_join 9) example_logic))) 9 = Some 2"
proof -
  have req: "parse_request example_env (cd_join_room (e_codec example_env)) (example_join 9) =
      Some (gate_envelope 9 0 JoinRoomReq (enc64 2), 2)"
    using parse_example [of "enc64 2" "example_join 9" 9 JoinRoomReq number]
    by (simp add: example_join_def example_env_def example_codec_def)
  have "case um_find (ls_rooms example_logic) 2 of None \<Rightarrow> False | Some room \<Rightarrow> \<not> IsFull room" by code_simp
  then show ?thesis
    using join_outcome [OF example_logic_reachable example_env_ok req refl, THEN conjunct1]
    by (auto simp: example_join_def split: option.splits)
qed

text \<open>C22: a player's command is the player's own: handling a command message leaves the shard as it is, or
  appends one command to the queue of a room that holds the sender, and that command carries the
  sender's id, whatever the message says.\<close>

theorem command_is_own:
  "snd (HandlePlayerCommand e task s) = s \<or>
   (\<exists>room_id room cmd. um_find (ls_rooms s) room_id = Some room \<and> HasPlayer (lt_uid task) room \<and>
      pc_owner_uid cmd = lt_uid task \<and>
      HandlePlayerCommand e task s = ([], set_room room_id (EnqueueCommand cmd room) s))"
proof -
  have own: "parse_command c msg_id uid envelope = Some (Some cmd, reason) \<Longrightarrow> pc_owner_uid cmd = uid"
    for c msg_id uid envelope cmd reason
    by (auto simp: parse_command_def Let_def base_command_def move_command_def attack_command_def
        target_command_def build_command_def train_command_def PendingCommand_default_def split: if_splits)
  show ?thesis
    unfolding HandlePlayerCommand_def Let_def by (auto split: option.split prod.split dest: own)
qed

lemma dr_started_spawn:
  "dr_started (snd (SpawnUnit uid team ty pos hp speed yaw r)) = dr_started r"
  "dr_started (snd (SpawnBuilding uid team ty pos yaw con r)) = dr_started r"
  "dr_started (snd (SpawnResourceField raw pos n r)) = dr_started r"
  by (simp_all add: SpawnUnit_def SpawnBuilding_def SpawnResourceField_def Let_def)

lemma dr_started_SpawnInitialUnits: "dr_started (SpawnInitialUnits ord m r) = dr_started r"
proof -
  have "dr_started (spawn_resource layout spec r) = dr_started r" for layout spec r
    by (simp add: spawn_resource_def Let_def dr_started_spawn split: prod.split)
  then have "dr_started (spawn_player m p r) = dr_started r" for p r
    by (simp add: spawn_player_def Let_def fold_constant dr_started_spawn)
  then show ?thesis by (simp add: SpawnInitialUnits_def fold_constant)
qed

lemma start_game_started: "dr_started (snd (start_game e routes r))"
  by (simp add: start_game_def Let_def ClearFrameChanges_def BeginBattle_def dr_started_SpawnInitialUnits SetStarted_def)

text \<open>C29: a game starts exactly when it may: after a ready message of one of its players a room is running
  if it was before, or if it is full and, with this message, all its players are ready; the message of
  a stranger changes nothing.\<close>

theorem start_condition:
  assumes "parse_request e (cd_player_ready (e_codec e)) task = Some (envelope, req)"
    and "requested_room (pr_room_id req) envelope task s = room_id"
    and "um_find (ls_rooms s) room_id = Some room"
    and r: "r = snd (SetReady (lt_uid task) (pr_ready req) room)"
  shows "if HasPlayer (lt_uid task) room
    then \<exists>room'. um_find (ls_rooms (snd (HandlePlayerReady e task s))) room_id = Some room' \<and>
      (dr_started room' \<longleftrightarrow> dr_started room \<or> IsFull room \<and> AllReady r) \<and>
      um_keys (dr_players room') = um_keys (dr_players room)
    else HandlePlayerReady e task s = ([], s)"
proof (cases "HasPlayer (lt_uid task) room")
  case True
  define start where "start \<longleftrightarrow> IsFull r \<and> AllReady r \<and> \<not> dr_started r"
  define room' where "room' = (if start then snd (start_game e (ls_uid_route s) r) else r)"
  have ready: "SetReady (lt_uid task) (pr_ready req) room = (True, r)"
    using True by (auto simp: r SetReady_def HasPlayer_def split: option.split)
  have same: "same_members room r" unfolding r by (rule same_members_simple)
  have "IsFull r = IsFull room" using same by (simp add: IsFull_def same_members_def)
  moreover have "dr_started r = dr_started room" unfolding r by (auto simp: SetReady_def split: option.split)
  ultimately have "dr_started room' \<longleftrightarrow> dr_started room \<or> IsFull room \<and> AllReady r"
    by (auto simp: room'_def start_def start_game_started)
  moreover have "um_keys (dr_players room') = um_keys (dr_players room)"
    using same same_members_start_game [of r e "ls_uid_route s"] by (simp add: room'_def same_members_def)
  moreover have "um_find (ls_rooms (snd (HandlePlayerReady e task s))) room_id = Some room'"
    using assms(1-3) ready
    by (simp add: HandlePlayerReady_def Let_def split_beta set_room_def room'_def start_def)
  ultimately show ?thesis using True by simp
next
  case False
  then have "SetReady (lt_uid task) (pr_ready req) room = (False, room)" by (simp add: SetReady_def HasPlayer_def)
  then show ?thesis using assms(1-3) False by (simp add: HandlePlayerReady_def Let_def)
qed

theorem start_condition_witness:
  "\<exists>room'. um_find (ls_rooms (snd (HandlePlayerReady example_env
      (example_create\<lparr>lt_msg_id := PlayerReadyReq, lt_body := example_message 7 PlayerReadyReq (enc64 2)\<rparr>) example_logic))) 2 = Some room' \<and>
    \<not> dr_started room'"
proof -
  let ?task = "example_create\<lparr>lt_msg_id := PlayerReadyReq, lt_body := example_message 7 PlayerReadyReq (enc64 2)\<rparr>"
  have req: "parse_request example_env (cd_player_ready (e_codec example_env)) ?task =
      Some (gate_envelope 7 0 PlayerReadyReq (enc64 2), \<lparr>pr_room_id = 2, pr_ready = True\<rparr>)"
    using parse_example [of "enc64 2" ?task 7 PlayerReadyReq "cd_player_ready example_codec"]
    by (simp add: example_env_def example_codec_def)
  have "case um_find (ls_rooms example_logic) 2 of None \<Rightarrow> False
      | Some room \<Rightarrow> HasPlayer 7 room \<and> \<not> IsFull room \<and> \<not> dr_started room" by code_simp
  then obtain room where room: "um_find (ls_rooms example_logic) 2 = Some room"
      "HasPlayer 7 room" "\<not> IsFull room" "\<not> dr_started room" by (auto split: option.splits)
  have "lt_uid ?task = 7" by (simp add: example_create_def)
  then show ?thesis
    using start_condition [OF req _ room(1) refl] room(2-4) by (auto simp: requested_room_def)
qed

subsection \<open>Disconnects\<close>

text \<open>C26: a player who disconnects is forgotten: whatever logic shard the notice reaches, afterwards no room
  of it holds the player, the player is in no table and has no route, and every other player is in
  the room it was in.\<close>

theorem disconnect_removes:
  assumes "shard_reachable e s" and "iter_ok (e_ord e)"
    and "lt_msg_id task = ClientDisconnectedNtf" and "lt_uid task = 0"
    and "ParseProtoFromBytes (cd_disconnected (e_codec e)) (lt_body task) = Some uid" and "uid \<noteq> 0"
    and t: "t = snd (handleTask e task s)"
  shows "um_find (ls_uid_to_room t) uid = None \<and> um_find (ls_uid_route t) uid = None \<and>
    (um_find (ls_rooms t) room_id = Some room \<longrightarrow> \<not> HasPlayer uid room) \<and>
    (v \<noteq> uid \<longrightarrow> um_find (ls_uid_to_room t) v = um_find (ls_uid_to_room s) v)"
proof -
  let ?s = "s\<lparr>ls_uid_route := um_erase uid (ls_uid_route s)\<rparr>"
  have ok: "shard_ok ?s" using shard_reachable_inv [OF assms(1,2)] by (simp add: shard_ok_route)
  have t': "t = snd (LeaveRoomInternal e uid ?s)"
    using assms(3-6) by (simp add: t handleTask_def Dispatch_def HandleClientDisconnected_def Let_def split_beta)
  have "ls_uid_route (snd (LeaveRoomInternal e uid ?s)) = ls_uid_route ?s"
    by (auto simp: LeaveRoomInternal_def after_leave_def set_room_def Let_def split: option.split)
  moreover note spec = LeaveRoomInternal_spec(1,2) [OF ok, of e uid]
  ultimately show ?thesis
    using shard_okD(4) [OF spec(1), of room_id room uid] by (auto simp: t')
qed

theorem disconnect_removes_witness:
  "um_find (ls_uid_to_room example_logic) 7 = Some 2 \<and>
   um_find (ls_uid_to_room (snd (handleTask example_env
     \<lparr>lt_msg_id = ClientDisconnectedNtf, lt_uid = 0, lt_seq = 0,
      lt_origin = \<lparr>gr_net_shard = 0, gr_link_id = 0, gr_generation = 0\<rparr>, lt_body = enc64 7\<rparr> example_logic))) 7 = None"
proof -
  let ?task = "\<lparr>lt_msg_id = ClientDisconnectedNtf, lt_uid = 0, lt_seq = 0,
      lt_origin = \<lparr>gr_net_shard = 0, gr_link_id = 0, gr_generation = 0\<rparr>, lt_body = enc64 7\<rparr>"
  have "um_find (ls_uid_to_room example_logic) 7 = Some 2" by code_simp
  moreover have p: "ParseProtoFromBytes (cd_disconnected (e_codec example_env)) (lt_body ?task) = Some 7"
    by (simp add: example_env_def example_codec_def ParseProtoFromBytes_def)
  ultimately show ?thesis
    using disconnect_removes [OF example_logic_reachable example_env_ok _ _ p _ refl] by simp
qed

text \<open>C27: the notice reaches every logic shard, since the network shard does not know which one holds the
  player: the server's logic queues all grow by the same task, and nothing else is posted.\<close>

theorem disconnect_fans_out:
  assumes "server_reachable e s" and "iter_ok (e_ord e)" and "\<not> gs_stopping s"
    and "j < length (gs_network_shards s)" and "\<not> ns_stopping (gs_network_shards s ! j)"
    and "ParseProtoFromBytes (cd_disconnected (e_codec e)) body = Some uid" and "uid \<noteq> 0"
  shows "\<exists>task. lt_msg_id task = ClientDisconnectedNtf \<and> lt_uid task = 0 \<and> lt_body task = body \<and>
    gs_logic_queues (run_packet e now_unix_ms link_id ClientDisconnectedNtf body j s) =
      map (\<lambda>q. q @ [task]) (gs_logic_queues s)"
proof -
  define task where "task = \<lparr>lt_msg_id = ClientDisconnectedNtf, lt_uid = 0, lt_seq = 0,
    lt_origin = \<lparr>gr_net_shard = 0, gr_link_id = 0, gr_generation = 0\<rparr>, lt_body = body\<rparr>"
  define n where "n = length (gs_logic_shards s)"
  have ok: "server_ok s" using server_reachable_ok [OF assms(1,2)] .
  then have n: "length (gs_logic_queues s) = n" "n \<le> 2 ^ 32" by (auto simp: server_ok_def n_def)
  then have c: "unat (LogicShardCount s) = n" by (simp add: LogicShardCount_def unat_of_nat n_def)
  have post: "gs_logic_queues (fold apply_net_effect (map (\<lambda>i. PostToLogic (of_nat i) task) [0..<k]) s') =
      map (\<lambda>q. q @ [task]) (take k (gs_logic_queues s')) @ drop k (gs_logic_queues s')"
    if "k \<le> n" "length (gs_logic_queues s') = n" "length (gs_logic_shards s') = n" "\<not> gs_stopping s'" for k s'
    using that
  proof (induction k)
    case (Suc k)
    let ?t = "fold apply_net_effect (map (\<lambda>i. PostToLogic (of_nat i) task) [0..<k]) s'"
    have IH: "gs_logic_queues ?t = map (\<lambda>q. q @ [task]) (take k (gs_logic_queues s')) @ drop k (gs_logic_queues s')"
      using Suc by simp
    have "gs_stopping ?t = gs_stopping s' \<and> length (gs_logic_shards ?t) = length (gs_logic_shards s')"
      by (rule fold_invariant [where P = "\<lambda>x. gs_stopping x = gs_stopping s' \<and> length (gs_logic_shards x) = length (gs_logic_shards s')"])
         (auto simp: GameServer_PostToLogic_def split: if_splits)
    moreover have "unat (of_nat k :: u32) = k" using Suc.prems(1) n(2) by (simp add: unat_of_nat)
    moreover have "drop k (gs_logic_queues s') = gs_logic_queues s' ! k # drop (Suc k) (gs_logic_queues s')"
      using Suc.prems by (simp add: Cons_nth_drop_Suc)
    ultimately show ?case
      using Suc.prems IH
      by (simp add: GameServer_PostToLogic_def list_update_append nth_append take_Suc_conv_app_nth)
  qed simp
  have "gs_logic_queues (run_packet e now_unix_ms link_id ClientDisconnectedNtf body j s) = map (\<lambda>q. q @ [task]) (gs_logic_queues s)"
    using post [of n "count_drops (gs_network_shards s ! j) (gs_network_shards s ! j)
        (s\<lparr>gs_network_shards := (gs_network_shards s)[j := gs_network_shards s ! j]\<rparr>)"] assms(3-7) n c
    by (simp add: run_packet_def OnPacket_def NetHandleClientDisconnected_def task_def n_def [symmetric])
  then show ?thesis by (intro exI [of _ task]) (simp add: task_def)
qed

theorem disconnect_fans_out_witness:
  "\<exists>task. lt_body task = enc64 7 \<and>
     gs_logic_queues (run_packet example_env 0 0 ClientDisconnectedNtf (enc64 7) 0 example_server) =
       map (\<lambda>q. q @ [task]) (gs_logic_queues example_server)"
proof -
  have "ParseProtoFromBytes (cd_disconnected (e_codec example_env)) (enc64 7) = Some 7"
    by (simp add: example_env_def example_codec_def ParseProtoFromBytes_def)
  then show ?thesis
    using disconnect_fans_out [OF example_server_reachable example_env_ok, of 0 "enc64 7" 7 0 0] example_server_room
    by auto
qed

subsection \<open>The tick\<close>

text \<open>C19: rooms do not disturb each other: a tick of a shard brings every running room exactly to the state
  the room's own tick brings it to, leaves every other room as it is, and neither adds nor removes a
  room, in whatever order the shard visits them.\<close>

theorem tick_each_alone:
  assumes "shard_reachable e s" and "iter_ok (e_ord e)"
  shows "um_find (ls_rooms (snd (TickRooms e us s))) i =
    (case um_find (ls_rooms s) i of
       None \<Rightarrow> None
     | Some room \<Rightarrow>
         Some (if dr_started room \<and> \<not> dr_game_over room then snd (tick_running e (ls_uid_route s) i room) else room))"
proof -
  have "um_ok (ls_rooms s)" using shard_reachable_inv [OF assms] shard_okD(1) by blast
  then show ?thesis
    using TickRooms_find [OF _ assms(2)] by (simp add: tick_one_def running_def split: option.split)
qed

theorem tick_each_alone_witness:
  "um_find (ls_rooms (snd (TickRooms example_env 0 example_logic))) 2 = um_find (ls_rooms example_logic) 2"
proof -
  have "case um_find (ls_rooms example_logic) 2 of None \<Rightarrow> False | Some room \<Rightarrow> \<not> dr_started room" by code_simp
  then show ?thesis
    using tick_each_alone [OF example_logic_reachable example_env_ok, of 0 2] by (auto split: option.splits)
qed

text \<open>C6: clients stay in step. A client that shows a room as it is applies what a tick without full snapshot
  broadcasts, the spawns and despawns and the delta, in the order they are sent, and shows the room
  as it is after the tick: every unit and building with all its visible fields, every ledger, and
  which fields and drops there are.\<close>

theorem clients_in_step:
  assumes "keyed r" and "iter_ok (e_ord e)" and "fresh_ids r" and "shows_room p r"
    and "unat (dr_next_entity_id r) + (spawn_count (sent_room e r) - spawn_count r) < 2 ^ 64"
    and "(dr_server_tick r + 1) mod kFullSnapshotInterval \<noteq> 0"
  shows "\<exists>pre news post. fst (tick_running e routes i r) =
      pre @ CountDelta # concat (map (announce e routes (sent_room e r)) news) @ post \<and>
    shows_room (fold apply_announcement news p) (snd (tick_running e routes i r))"
proof -
  let ?news = "delta_announcements (e_ord e) (sent_room e r)"
  have "shows_room (fold apply_announcement ?news p) (snd (tick_running e routes i r))"
    using assms(1-5) by (rule tick_sync)
  moreover obtain pre post where "fst (tick_running e routes i r) = pre @ SendDelta e routes (sent_room e r) @ post"
    using tick_running_sent(2) [OF assms(1,2), of routes i] assms(6) by auto
  ultimately show ?thesis by (auto simp: SendDelta_announces)
qed

definition replica_of :: "DungeonRoom \<Rightarrow> replica" where
  "replica_of r =
     \<lparr>rp_units = map (\<lambda>(i, u). (i, FillUnitSnapshot u)) (dr_units r),
      rp_buildings = map (\<lambda>(i, b). (i, FillBuildingSnapshot b)) (dr_buildings r),
      rp_fields = map (\<lambda>(i, f). (i, FillFieldSnapshot f)) (dr_fields r),
      rp_drops = map (\<lambda>(i, d). (i, FillDropSnapshot d)) (dr_drops r),
      rp_resources = map (\<lambda>(i, l). (i, FillPlayerResources i l)) (dr_player_res r)\<rparr>"

lemma um_find_map: "um_find (map (\<lambda>(i, v). (i, f i v)) m) k = map_option (f k) (um_find m k)"
  by (induction m) (auto simp: um_find_def)

lemma shows_room_replica_of: "shows_room (replica_of r) r"
  using um_find_map [of "\<lambda>_ :: u64. FillUnitSnapshot"] um_find_map [of "\<lambda>_ :: u64. FillBuildingSnapshot"]
    um_find_map [of "\<lambda>_ :: u64. FillFieldSnapshot"] um_find_map [of "\<lambda>_ :: u64. FillDropSnapshot"] um_find_map [of FillPlayerResources]
  by (simp add: shows_room_def replica_of_def)

theorem clients_in_step_witness:
  "\<exists>news. shows_room (fold apply_announcement news (replica_of example_room)) (snd (tick_running example_env [] 1 example_room))"
proof -
  have "unat (dr_next_entity_id example_room) = 6" by code_simp
  moreover have "spawn_count (sent_room example_env example_room) = 0" by code_simp
  moreover have "(dr_server_tick example_room + 1) mod kFullSnapshotInterval \<noteq> 0" by code_simp
  ultimately show ?thesis
    using clients_in_step [OF example_ok(1) example_env_ok example_ok(3) shows_room_replica_of] by fastforce
qed

end
