(* ===== verification/VictoryTheorems.thy ===== *)
theory VictoryTheorems
  imports RoomVictory ServerTheorems
begin

text \<open>
  The end of a game, over whole runs of a room: commands and players leaving in any order between the
  ticks of the logic shard.
\<close>

inductive game_run :: "env \<Rightarrow> DungeonRoom \<Rightarrow> DungeonRoom \<Rightarrow> bool" for e :: env and r :: DungeonRoom where
  game_begins: "game_run e r r"
| game_command: "game_run e r s \<Longrightarrow> game_run e r (EnqueueCommand cmd s)"
| game_leave: "game_run e r s \<Longrightarrow> game_run e r (snd (RemovePlayer uid s))"
| game_tick: "game_run e r s \<Longrightarrow> game_run e r (snd (tick_running e routes room_id s))"

subsection \<open>What every event of a game keeps\<close>

definition same_rules :: "DungeonRoom \<Rightarrow> DungeonRoom \<Rightarrow> bool" where
  "same_rules r s \<longleftrightarrow> dr_battle_begun s = dr_battle_begun r \<and>
     dr_initial_crystal_team_count s = dr_initial_crystal_team_count r"

lemma tick_crystals:
  fixes routes :: "(u64, GatewayRoute) umap" and room_id :: u64
  assumes "keyed r" and "iter_ok (e_ord e)"
  defines "t \<equiv> snd (tick_running e routes room_id r)"
  shows "keyed t \<and> crystals_fall r t \<and> same_rules r t"
proof -
  let ?r = "snd (TakeRejected (ApplyPending (e_libm e) r))"
  let ?s = "Step (e_ord e) (e_libm e) kTickSeconds ?r"
  have b: "dr_buildings t = dr_buildings ?s" "same_rules ?s t" "keyed t = keyed ?s"
    by (auto simp: t_def tick_running_def NextServerTick_def ClearFrameChanges_def SetGameOver_def same_rules_def keyed_def Let_def
        split_beta split: option.split)
  have k: "keyed (ApplyPending (e_libm e) r)" "keyed ?r"
    using keyed_ApplyPending [OF assms(1)] by (simp_all add: TakeRejected_def keyed_def)
  have "crystals_fall r (ApplyPending (e_libm e) r)" by (rule crystals.commands [OF assms(1)])
  moreover have "crystals_fall (ApplyPending (e_libm e) r) ?r" by (rule crystals_fall_same) (simp add: TakeRejected_def)
  moreover have "crystals_fall ?r ?s" by (rule crystals.simulation [OF k(2) assms(2)])
  moreover have "crystals_fall ?s t" by (rule crystals_fall_same) (simp add: b)
  ultimately have fall: "crystals_fall r t" by (blast intro: crystals_fall_trans)
  have "same_lobby r (ApplyPending (e_libm e) r)" by (rule lobby.commands [OF assms(1)])
  moreover have "same_lobby ?r ?s" by (rule lobby.simulation [OF k(2) assms(2)])
  ultimately have "same_rules r ?s" by (simp add: same_rules_def same_lobby_def TakeRejected_def)
  then have "same_rules r t" using b(2) by (simp add: same_rules_def)
  with fall show ?thesis using b(3) keyed_Step [OF k(2) assms(2)] by simp
qed

lemma game_run_crystals:
  assumes "game_run e r s" and "keyed r" and "iter_ok (e_ord e)"
  shows "keyed s \<and> crystals_fall r s \<and> same_rules r s"
  using assms(1)
proof induction
  case game_begins
  then show ?case using assms(2) crystals.E_refl by (simp add: same_rules_def crystals_fall_same)
next
  case (game_command s cmd)
  have "crystals_fall s (EnqueueCommand cmd s)" by (rule crystals_fall_same) (simp add: EnqueueCommand_def)
  then have "crystals_fall r (EnqueueCommand cmd s)" using game_command.IH crystals_fall_trans by blast
  then show ?case using game_command.IH by (simp add: EnqueueCommand_def same_rules_def keyed_def)
next
  case (game_leave s uid)
  have "crystals_fall s (snd (RemovePlayer uid s))" by (rule crystals_fall_same) (simp add: RemovePlayer_def)
  then have "crystals_fall r (snd (RemovePlayer uid s))" using game_leave.IH crystals_fall_trans by blast
  then show ?case using game_leave.IH by (simp add: RemovePlayer_def same_rules_def keyed_def)
next
  case (game_tick s routes room_id)
  have tick: "keyed (snd (tick_running e routes room_id s))" "crystals_fall s (snd (tick_running e routes room_id s))"
    "same_rules s (snd (tick_running e routes room_id s))"
    using tick_crystals [OF _ assms(3), of s routes room_id] game_tick.IH by blast+
  then have "crystals_fall r (snd (tick_running e routes room_id s))" using game_tick.IH crystals_fall_trans by blast
  with tick show ?case using game_tick.IH by (simp add: same_rules_def)
qed

subsection \<open>The teams that are left\<close>

abbreviation teams_left :: "DungeonRoom \<Rightarrow> u32 list" where
  "teams_left r \<equiv> crystal_teams (\<lambda>b. 0 < b_hp b) r"

definition crystals_finished :: "DungeonRoom \<Rightarrow> bool" where
  "crystals_finished r \<longleftrightarrow> (\<forall>(i, b) \<in> set (dr_buildings r). is_crystal b \<longrightarrow> \<not> b_under_construction b)"

text \<open>A game that starts has only finished crystals: they are spawned finished.\<close>

lemma start_finished:
  assumes "crystals_finished r" and "keyed r"
  shows "crystals_finished (snd (start_game e routes r)) \<and> keyed (snd (start_game e routes r)) \<and>
    dr_battle_begun (snd (start_game e routes r))"
proof -
  have building: "crystals_finished (snd (SpawnBuilding uid team ty pos yaw False t))" if "crystals_finished t" for uid team ty pos yaw t
    using that by (auto simp: crystals_finished_def SpawnBuilding_def um_emplace_def Let_def split: option.splits)
  have unit: "crystals_finished (snd (SpawnUnit uid team ty pos hp speed yaw t)) = crystals_finished t" for uid team ty pos hp speed yaw t
    by (simp add: crystals_finished_def SpawnUnit_def Let_def)
  have field: "crystals_finished (spawn_resource layout spec t) = crystals_finished t" for layout spec t
    by (simp add: crystals_finished_def spawn_resource_def SpawnResourceField_def Let_def split: prod.split)
  have player: "crystals_finished (spawn_player m p t)" if "crystals_finished t" for m p t
    using building [OF that] by (simp add: spawn_player_def Let_def fold_constant unit field)
  have "crystals_finished (fold (spawn_player m) ps t)" if "crystals_finished t" for m ps t
    using that by (induction ps arbitrary: t) (simp_all add: player)
  moreover have "crystals_finished (SetStarted True r)" using assms(1) by (simp add: crystals_finished_def SetStarted_def)
  ultimately have "crystals_finished (SpawnInitialUnits (e_ord e) (e_libm e) (SetStarted True r))"
    by (simp add: SpawnInitialUnits_def)
  then have "crystals_finished (snd (start_game e routes r))"
    by (simp add: start_game_def Let_def crystals_finished_def BeginBattle_def ClearFrameChanges_def)
  moreover have "keyed (snd (start_game e routes r))"
    using same_members_start_game [of r e routes] assms(2) by (simp add: same_members_def)
  ultimately show ?thesis by (simp add: start_game_def Let_def BeginBattle_def ClearFrameChanges_def)
qed

lemma um_find_mem: "um_ok m \<Longrightarrow> (i, v) \<in> set m \<longleftrightarrow> um_find m i = Some v"
  by (auto simp: um_ok_def um_keys_def um_find_def)

lemma teams_left_fall:
  assumes "crystals_fall r s" and "keyed r" and "keyed s" and "crystals_finished r"
  shows "set (teams_left s) \<subseteq> set (teams_left r)"
proof
  fix team assume "team \<in> set (teams_left s)"
  then obtain i c where c: "(i, c) \<in> set (dr_buildings s)" "is_crystal c" "0 < b_hp c" "team = b_team c"
    by (auto simp: crystal_teams_def is_crystal_def)
  have ok: "um_ok (dr_buildings r)" "um_ok (dr_buildings s)" using assms(2,3) by (simp_all add: keyed_def keyed_by_def)
  obtain b where b: "um_find (dr_buildings r) i = Some b" "crystal_kept b c"
    using assms(1) c(2) iffD1 [OF um_find_mem [OF ok(2)] c(1)] unfolding crystals_fall_def by blast
  then have mem: "(i, b) \<in> set (dr_buildings r)" using um_find_mem [OF ok(1)] by simp
  moreover have crystal: "is_crystal b" by (rule crystal_kept_type [OF b(2) c(2)])
  ultimately have "\<not> b_under_construction b" using assms(4) by (auto simp: crystals_finished_def)
  then have "0 < b_hp b" using b(2) c(3) after_hits_positive by (auto simp: crystal_kept_def)
  moreover have "b_team b = team" using b(2) c(4) by (simp add: crystal_kept_def same_building_def)
  ultimately show "team \<in> set (teams_left r)"
    using mem crystal by (force simp: crystal_teams_def is_crystal_def)
qed

lemma winner_stays:
  assumes "set xs \<subseteq> set ys" and "distinct xs" and "length ys \<le> 1"
  shows "length xs \<le> 1 \<and> winner_of xs \<in> {winner_of ys, 0xFFFFFFFF}"
proof -
  have "length xs \<le> length ys"
    using card_mono [OF _ assms(1)] distinct_card [OF assms(2)] card_length [of ys] by simp
  then show ?thesis
    using assms by (cases xs; cases ys) (auto simp: winner_of_def)
qed

lemma CheckGameOver_crystals:
  assumes "dr_battle_begun r" and "2 \<le> dr_initial_crystal_team_count r"
  shows "CheckGameOver r = (if length (teams_left r) \<le> 1 then Some (winner_of (teams_left r)) else None)"
  using assms by (simp add: CheckGameOver_def Let_def)

text \<open>A tick raises the flag exactly when the room it leaves is decided.\<close>

lemma tick_decides:
  assumes "keyed r" and "iter_ok (e_ord e)"
  shows "dr_game_over (snd (tick_running e routes room_id r)) \<longleftrightarrow>
    dr_game_over r \<or> CheckGameOver (snd (tick_running e routes room_id r)) \<noteq> None"
proof -
  let ?r = "snd (TakeRejected (ApplyPending (e_libm e) r))"
  let ?s = "ClearFrameChanges (snd (NextServerTick (Step (e_ord e) (e_libm e) kTickSeconds ?r)))"
  have "keyed ?r" using keyed_ApplyPending [OF assms(1)] by (simp add: TakeRejected_def keyed_def)
  then have "same_lobby ?r (Step (e_ord e) (e_libm e) kTickSeconds ?r)" by (rule lobby.simulation [OF _ assms(2)])
  moreover have "same_lobby r (ApplyPending (e_libm e) r)" by (rule lobby.commands [OF assms(1)])
  ultimately have flag: "dr_game_over ?s = dr_game_over r"
    by (simp add: same_lobby_def TakeRejected_def NextServerTick_def ClearFrameChanges_def)
  have same: "CheckGameOver (SetGameOver b s) = CheckGameOver s" for b s
    by (simp add: CheckGameOver_def SetGameOver_def crystal_teams_def unit_teams_def)
  have "snd (tick_running e routes room_id r) = (case CheckGameOver ?s of None \<Rightarrow> ?s | Some w \<Rightarrow> SetGameOver True ?s)"
    by (simp add: tick_running_def Let_def split_beta split: option.split)
  then show ?thesis using flag same by (auto simp: SetGameOver_def split: option.split)
qed

subsection \<open>The property\<close>



end
