(* ===== verification/UnitTests.thy ===== *)
theory UnitTests
  imports RoomTheorems
begin

text \<open>
  Unit tests of the room (\<^verbatim>\<open>src/tests/DungeonRoomTest.cc\<close>), run on the model. Each definition is a test case:
  its steps in their order and the conjunction of its \<^verbatim>\<open>REQUIRE\<close>s; the lemma after it evaluates it. Where a
  test compares a float with \<^verbatim>\<open>Approx\<close>, the model compares for equality, which is stronger. Fourteen of the
  twenty-three cases are here: the kernel evaluates every float operation, so the cases that take twenty and
  more simulation steps, and the one that takes fifteen square roots, are left out.
\<close>

subsection \<open>Helpers of the tests\<close>

definition point :: "int \<Rightarrow> int \<Rightarrow> Vec3f" where
  "point x z = \<lparr>vx = lit x 1, vy = 0, vz = lit z 1\<rparr>"

definition MakeMove :: "u64 \<Rightarrow> u64 list \<Rightarrow> f32 \<Rightarrow> f32 \<Rightarrow> PendingCommand" where
  "MakeMove owner ids x z = PendingCommand_default\<lparr>pc_type := CmdMove, pc_owner_uid := owner, pc_unit_ids := ids,
     pc_target := Vec3f_default\<lparr>vx := x, vz := z\<rparr>\<rparr>"

definition MakeAttack :: "u64 \<Rightarrow> u64 list \<Rightarrow> u64 \<Rightarrow> PendingCommand" where
  "MakeAttack owner ids target_entity = PendingCommand_default\<lparr>pc_type := CmdAttack, pc_owner_uid := owner, pc_unit_ids := ids,
     pc_target_entity := target_entity\<rparr>"

definition MakeTrain :: "u64 \<Rightarrow> u64 \<Rightarrow> u32 \<Rightarrow> PendingCommand" where
  "MakeTrain owner building_id unit_type = PendingCommand_default\<lparr>pc_type := CmdTrain, pc_owner_uid := owner,
     pc_target_entity := building_id, pc_aux_type := unit_type\<rparr>"

definition DespawnedContains :: "DungeonRoom \<Rightarrow> u64 \<Rightarrow> bool" where
  "DespawnedContains room i = (i \<in> set (dr_despawned room))"

definition test_room :: DungeonRoom where
  "test_room = DungeonRoom_new 1 ''r'' 2"

definition test_unit :: "u64 \<Rightarrow> u32 \<Rightarrow> Vec3f \<Rightarrow> DungeonRoom \<Rightarrow> u64 \<times> DungeonRoom" where
  "test_unit uid team pos = SpawnUnit uid team 0 pos (lit 100 1) (lit 10 1) 0"

definition test_step :: "f32 \<Rightarrow> DungeonRoom \<Rightarrow> DungeonRoom" where
  "test_step = Step (\<lambda>_ xs. xs) example_libm"

definition test_apply :: "PendingCommand \<Rightarrow> DungeonRoom \<Rightarrow> DungeonRoom" where
  "test_apply cmd room = ApplyPending example_libm (EnqueueCommand cmd room)"

subsection \<open>Lobby\<close>

definition test_AddPlayer :: bool where
  "test_AddPlayer =
     (let (team, room) = AddPlayer 100 test_room;
          (team', room) = AddPlayer 200 room;
          (full, room) = AddPlayer 300 room;
          (again, room) = AddPlayer 100 room
      in team = Some 0 \<and> team' = Some 1 \<and> full = None \<and> again = Some 0 \<and> HasPlayer 100 room \<and> \<not> HasPlayer 300 room)"

lemma test_AddPlayer_passes: "test_AddPlayer"
  by code_simp

definition test_AllReady :: bool where
  "test_AllReady =
     (let room = snd (AddPlayer 200 (snd (AddPlayer 100 test_room)));
          (ok, room1) = SetReady 100 True room;
          (ok', room2) = SetReady 200 True room1
      in \<not> AllReady room \<and> ok \<and> \<not> AllReady room1 \<and> ok' \<and> AllReady room2)"

lemma test_AllReady_passes: "test_AllReady"
  by code_simp

definition test_SpawnUnit :: bool where
  "test_SpawnUnit =
     (let (a, room) = SpawnUnit 100 0 0 (point 1 2) (lit 100 1) (lit 5 1) 0 test_room;
          (b, room) = SpawnUnit 100 0 0 (point 3 4) (lit 100 1) (lit 5 1) 0 room
      in a \<noteq> b \<and> length (dr_units room) = 2 \<and> length (dr_spawned room) = 2 \<and>
         (case FindUnit room a of
            None \<Rightarrow> False
          | Some u \<Rightarrow> u_owner_uid u = 100 \<and> u_pos u = point 1 2 \<and> \<not> u_has_target u))"

lemma test_SpawnUnit_passes: "test_SpawnUnit"
  by code_simp

subsection \<open>Commands\<close>

definition test_Move_owner :: bool where
  "test_Move_owner =
     (let (mine, room) = SpawnUnit 100 0 0 Vec3f_default (lit 100 1) (lit 5 1) 0 test_room;
          (other, room) = SpawnUnit 200 1 0 Vec3f_default (lit 100 1) (lit 5 1) 0 room;
          room = test_apply (MakeMove 100 [mine, other] (lit 10 1) 0) (ClearFrameChanges room)
      in map_option u_has_target (FindUnit room mine) = Some True \<and>
         map_option u_has_target (FindUnit room other) = Some False \<and>
         mine \<in> set (dr_dirty room) \<and> other \<notin> set (dr_dirty room))"

lemma test_Move_owner_passes: "test_Move_owner"
  by code_simp

definition test_Stop :: bool where
  "test_Stop =
     (let (i, room) = test_unit 100 0 Vec3f_default test_room;
          room = test_apply (MakeMove 100 [i] (lit 9 1) 0) room;
          room' = test_apply (PendingCommand_default\<lparr>pc_type := CmdStop, pc_owner_uid := 100, pc_unit_ids := [i]\<rparr>) room
      in map_option u_has_target (FindUnit room i) = Some True \<and>
         map_option u_has_target (FindUnit room' i) = Some False \<and>
         map_option u_state (FindUnit room' i) = Some kStateIdle)"

lemma test_Stop_passes: "test_Stop"
  by code_simp

definition test_Rejected :: bool where
  "test_Rejected =
     (let room = snd (AddPlayer 100 test_room);
          (inn, room) = SpawnBuilding 100 0 kBuildingVillagerInn Vec3f_default 0 False room;
          room = BeginBattle room;
          train = MakeTrain 100 inn kUnitVillager;
          room = ApplyPending example_libm ((EnqueueCommand train ^^ 4) room);
          (rejected, room1) = TakeRejected room;
          (rejected', room2) = TakeRejected (test_apply train room1)
      in map_option r_food (FindPlayerRes room 100) = Some 0 \<and> rejected = [] \<and>
         map rj_code rejected' = [kErrNotEnoughResources])"

lemma test_Rejected_passes: "test_Rejected"
  by code_simp

subsection \<open>Simulation\<close>

definition cleared :: "DungeonRoom \<Rightarrow> bool" where
  "cleared room \<longleftrightarrow> dr_spawned room = [] \<and> dr_dirty room = [] \<and> dr_despawned room = []"

definition idle_stays :: "u64 \<Rightarrow> DungeonRoom \<Rightarrow> bool" where
  "idle_stays i room \<longleftrightarrow>
     map_option (vx \<circ> u_pos) (FindUnit room i) = Some (lit 2 1) \<and> dr_dirty room = [] \<and>
     dr_spawned (snd (test_unit 100 0 Vec3f_default room)) \<noteq> [] \<and>
     cleared (ClearFrameChanges (snd (test_unit 100 0 Vec3f_default room)))"

definition test_Idle :: bool where
  "test_Idle =
     (let (i, room) = test_unit 100 0 (point 2 2) test_room
      in idle_stays i (test_step (lit 1 10) (ClearFrameChanges room)))"

lemma test_Idle_passes: "test_Idle"
  by code_simp

definition duel :: "int \<Rightarrow> DungeonRoom" where
  "duel x = test_apply (MakeAttack 100 [1] 2)
     (snd (test_unit 200 1 (point x 0) (snd (test_unit 100 0 (point 0 0) test_room))))"

definition wounded :: "DungeonRoom \<Rightarrow> bool" where
  "wounded room \<longleftrightarrow> map_option u_hp (FindUnit room 2) = Some (lit 100 1 - kAttackDamage)"

definition attacking :: "DungeonRoom \<Rightarrow> bool" where
  "attacking room \<longleftrightarrow> map_option u_state (FindUnit room 1) = Some kStateAttacking"

definition attack_lands :: "DungeonRoom \<Rightarrow> bool" where
  "attack_lands room \<longleftrightarrow> wounded room \<and> attacking room \<and> wounded (test_step (lit 1 10) room)"

definition test_Attack :: bool where
  "test_Attack = attack_lands (test_step (lit 1 10) (duel 1))"

lemma test_Attack_passes: "test_Attack"
  by code_simp

definition chases :: "DungeonRoom \<Rightarrow> bool" where
  "chases room \<longleftrightarrow> map_option (vx \<circ> u_pos) (FindUnit room 1) = Some (lit 1 1) \<and>
     map_option u_hp (FindUnit room 2) = Some (lit 100 1) \<and> attacking room"

definition test_Chase :: bool where
  "test_Chase = chases (test_step (lit 1 10) (duel 10))"

lemma test_Chase_passes: "test_Chase"
  by code_simp

definition second :: "DungeonRoom \<Rightarrow> DungeonRoom" where
  "second = test_step (lit 1 1)"

definition dead_and_gone :: "DungeonRoom \<Rightarrow> bool" where
  "dead_and_gone room \<longleftrightarrow> FindUnit room 2 = None \<and> DespawnedContains room 2 \<and> length (dr_units room) = 1"

definition test_Death :: bool where
  "test_Death = dead_and_gone (second (second (second (second (second (duel 1))))))"

lemma test_Death_passes: "test_Death"
  by code_simp

definition battle :: DungeonRoom where
  "battle = BeginBattle (snd (test_unit 200 1 (point 1 0) (snd (test_unit 100 0 (point 0 0) test_room))))"

definition test_GameOver :: bool where
  "test_GameOver \<longleftrightarrow> CheckGameOver battle = None \<and>
     CheckGameOver (second (second (second (second (second (test_apply (MakeAttack 100 [1] 2) battle)))))) = Some 0"

lemma test_GameOver_passes: "test_GameOver"
  by code_simp

definition test_SingleTeam :: bool where
  "test_SingleTeam \<longleftrightarrow>
     CheckGameOver (BeginBattle (snd (test_unit 100 0 Vec3f_default (snd (test_unit 100 0 Vec3f_default test_room))))) = None"

lemma test_SingleTeam_passes: "test_SingleTeam"
  by code_simp

definition run_steps :: "nat \<Rightarrow> DungeonRoom \<Rightarrow> DungeonRoom" where
  "run_steps n room = fold (\<lambda>_. test_step (lit 1 10)) [0..<n] room"

definition moves :: "DungeonRoom \<Rightarrow> bool" where
  "moves room \<longleftrightarrow> 1 \<in> set (dr_dirty room) \<and>
     (case FindUnit room 1 of
        None \<Rightarrow> False
      | Some u \<Rightarrow> vx (u_pos u) = lit 1 1 \<and> u_has_target u \<and> u_state u = kStateMoving)"

definition arrived :: "DungeonRoom \<Rightarrow> bool" where
  "arrived room \<longleftrightarrow>
     (case FindUnit room 1 of
        None \<Rightarrow> False
      | Some u \<Rightarrow> vx (u_pos u) = lit 5 1 \<and> \<not> u_has_target u \<and> u_state u = kStateIdle)"

definition moves_and_arrives :: "DungeonRoom \<Rightarrow> bool" where
  "moves_and_arrives room \<longleftrightarrow> moves room \<and> arrived (run_steps 10 room)"

definition test_Step :: bool where
  "test_Step = moves_and_arrives (test_step (lit 1 10) (ClearFrameChanges
     (test_apply (MakeMove 100 [1] (lit 5 1) 0) (snd (test_unit 100 0 (point 0 0) test_room)))))"

lemma test_Step_passes: "test_Step"
  by code_simp

definition ignores :: "DungeonRoom \<Rightarrow> bool" where
  "ignores room \<longleftrightarrow>
     (case FindUnit room 1 of None \<Rightarrow> False | Some u \<Rightarrow> u_attack_target u = 0 \<and> vx (u_pos u) = lit 0 1)"

definition test_FarEnemy :: bool where
  "test_FarEnemy = ignores (run_steps 10
     (BeginBattle (snd (test_unit 200 1 (point 50 0) (snd (test_unit 100 0 (point 0 0) test_room))))))"

lemma test_FarEnemy_passes: "test_FarEnemy"
  by code_simp

end
