(* ===== verification/ShardLifecycle.thy ===== *)
theory ShardLifecycle
  imports LogicHandlers
begin

text \<open>
  The thread of a logic shard (\<^verbatim>\<open>LogicShard.cc\<close>: \<^verbatim>\<open>start\<close>, \<^verbatim>\<open>stop\<close>, \<^verbatim>\<open>postTask\<close>, \<^verbatim>\<open>TickLoop\<close>). \<open>start\<close> spawns a tick loop and a
  thread; \<open>stop\<close>, on another thread, sets the flag, cancels the timer, and waits for the thread, which ends
  the handler it is in. Loops that were cancelled or never ran stay in the queue of the io context and go on
  after the next \<open>start\<close>, so several may exist. A loop is in one of five places: spawned but not yet run;
  before the test of the flag; past the test, before it waits; waiting for the timer; with a cancelled
  wait. All loops share one timer and one deadline. Time is in milliseconds; \<open>sh_ticks\<close> records the
  deadline and the time of every tick.
\<close>

definition kTickInterval :: int where "kTickInterval = 50"

datatype tick_loop = LoopSpawned | LoopTesting | LoopArming | LoopWaiting | LoopCancelled

record ShardThread =
  sh_b_stop :: bool
  sh_thread :: bool
  sh_deadline :: int
  sh_loops :: "tick_loop list"
  sh_queue :: "LogicTask list"
  sh_ticks :: "(int \<times> int) list"

definition ShardThread_new :: ShardThread where
  "ShardThread_new = \<lparr>sh_b_stop = False, sh_thread = False, sh_deadline = 0, sh_loops = [], sh_queue = [], sh_ticks = []\<rparr>"

definition LogicShard_start :: "ShardThread \<Rightarrow> ShardThread" where
  "LogicShard_start s =
     (if sh_thread s then s else s\<lparr>sh_b_stop := False, sh_loops := sh_loops s @ [LoopSpawned], sh_thread := True\<rparr>)"

text \<open>\<^verbatim>\<open>stop\<close> in two parts: the thread may go on between them. The second one waits for the end of a handler.\<close>

definition cancel_wait :: "tick_loop \<Rightarrow> tick_loop" where
  "cancel_wait l = (if l = LoopWaiting then LoopCancelled else l)"

definition LogicShard_cancel :: "ShardThread \<Rightarrow> ShardThread" where
  "LogicShard_cancel s = s\<lparr>sh_b_stop := True, sh_loops := map cancel_wait (sh_loops s)\<rparr>"

definition LogicShard_join :: "ShardThread \<Rightarrow> ShardThread" where
  "LogicShard_join s = s\<lparr>sh_thread := False\<rparr>"

definition LogicShard_postTask :: "LogicTask \<Rightarrow> ShardThread \<Rightarrow> ShardThread" where
  "LogicShard_postTask task s = (if sh_b_stop s then s else s\<lparr>sh_queue := sh_queue s @ [task]\<rparr>)"

text \<open>\<^verbatim>\<open>TickLoop\<close>: its beginning, the test of the flag, the wait, the end of the wait.\<close>

definition set_loop :: "nat \<Rightarrow> tick_loop \<Rightarrow> ShardThread \<Rightarrow> ShardThread" where
  "set_loop k l s = s\<lparr>sh_loops := (sh_loops s)[k := l]\<rparr>"

definition end_loop :: "nat \<Rightarrow> ShardThread \<Rightarrow> ShardThread" where
  "end_loop k s = s\<lparr>sh_loops := take k (sh_loops s) @ drop (Suc k) (sh_loops s)\<rparr>"

definition loop_begin :: "int \<Rightarrow> nat \<Rightarrow> ShardThread \<Rightarrow> ShardThread" where
  "loop_begin now k s = set_loop k LoopTesting (s\<lparr>sh_deadline := now + kTickInterval\<rparr>)"

definition loop_test :: "nat \<Rightarrow> ShardThread \<Rightarrow> ShardThread" where
  "loop_test k s = (if sh_b_stop s then end_loop k s else set_loop k LoopArming s)"

text \<open>\<^verbatim>\<open>expires_at\<close> cancels the waits of other loops on the timer.\<close>

definition loop_arm :: "nat \<Rightarrow> ShardThread \<Rightarrow> ShardThread" where
  "loop_arm k s = set_loop k LoopWaiting (s\<lparr>sh_loops := map cancel_wait (sh_loops s)\<rparr>)"

definition loop_tick :: "int \<Rightarrow> int \<Rightarrow> nat \<Rightarrow> ShardThread \<Rightarrow> ShardThread" where
  "loop_tick now after k s =
     set_loop k LoopTesting
       (s\<lparr>sh_ticks := sh_ticks s @ [(sh_deadline s, now)], sh_deadline := next_deadline kTickInterval (sh_deadline s) after\<rparr>)"

subsection \<open>Runs\<close>

definition in_handler :: "tick_loop \<Rightarrow> bool" where
  "in_handler l \<longleftrightarrow> l = LoopTesting \<or> l = LoopArming"

definition shard_idle :: "ShardThread \<Rightarrow> bool" where
  "shard_idle s \<longleftrightarrow> (\<forall>l \<in> set (sh_loops s). \<not> in_handler l)"

inductive thread_step :: "ShardThread \<Rightarrow> ShardThread \<Rightarrow> bool" where
  thread_start: "thread_step s (LogicShard_start s)"
| thread_cancel: "thread_step s (LogicShard_cancel s)"
| thread_join: "sh_b_stop s \<Longrightarrow> shard_idle s \<Longrightarrow> thread_step s (LogicShard_join s)"
| thread_post: "thread_step s (LogicShard_postTask task s)"
| thread_task: "sh_thread s \<Longrightarrow> shard_idle s \<Longrightarrow> sh_queue s = task # rest \<Longrightarrow> thread_step s (s\<lparr>sh_queue := rest\<rparr>)"
| thread_begin: "sh_thread s \<Longrightarrow> shard_idle s \<Longrightarrow> k < length (sh_loops s) \<Longrightarrow> sh_loops s ! k = LoopSpawned \<Longrightarrow>
    thread_step s (loop_begin now k s)"
| thread_test: "k < length (sh_loops s) \<Longrightarrow> sh_loops s ! k = LoopTesting \<Longrightarrow> thread_step s (loop_test k s)"
| thread_arm: "k < length (sh_loops s) \<Longrightarrow> sh_loops s ! k = LoopArming \<Longrightarrow> thread_step s (loop_arm k s)"
| thread_tick: "sh_thread s \<Longrightarrow> shard_idle s \<Longrightarrow> k < length (sh_loops s) \<Longrightarrow> sh_loops s ! k = LoopWaiting \<Longrightarrow>
    sh_deadline s \<le> now \<Longrightarrow> now \<le> after \<Longrightarrow> thread_step s (loop_tick now after k s)"
| thread_abort: "sh_thread s \<Longrightarrow> shard_idle s \<Longrightarrow> k < length (sh_loops s) \<Longrightarrow> sh_loops s ! k = LoopCancelled \<Longrightarrow>
    thread_step s (end_loop k s)"

subsection \<open>One loop at a time\<close>

text \<open>However often a shard is started and stopped, at most one loop waits for the timer, at most one is in a
  handler, and only while the thread runs; and a thread that is not being stopped has a loop that goes on.\<close>

definition loops_in :: "(tick_loop \<Rightarrow> bool) \<Rightarrow> ShardThread \<Rightarrow> nat" where
  "loops_in P s = length (filter P (sh_loops s))"

definition alive :: "tick_loop \<Rightarrow> bool" where
  "alive l \<longleftrightarrow> l \<noteq> LoopCancelled"

definition thread_ok :: "ShardThread \<Rightarrow> bool" where
  "thread_ok s \<longleftrightarrow> loops_in (\<lambda>l. l = LoopWaiting) s \<le> 1 \<and> loops_in in_handler s \<le> 1 \<and> (\<not> sh_thread s \<longrightarrow> shard_idle s) \<and>
     (sh_thread s \<and> \<not> sh_b_stop s \<longrightarrow> 0 < loops_in alive s)"

lemma loops_idle: "shard_idle s \<longleftrightarrow> loops_in in_handler s = 0"
  by (simp add: shard_idle_def loops_in_def filter_empty_conv)

lemma loops_set_loop:
  "k < length (sh_loops s) \<Longrightarrow> loops_in P (set_loop k l s) + of_bool (P (sh_loops s ! k)) = loops_in P s + of_bool (P l)"
  by (simp add: loops_in_def set_loop_def filter_list_update)

lemma loops_end_loop:
  assumes "k < length (sh_loops s)"
  shows "loops_in P (end_loop k s) + of_bool (P (sh_loops s ! k)) = loops_in P s"
  by (subst (2) loops_in_def, subst id_take_nth_drop [OF assms]) (simp add: loops_in_def end_loop_def)

lemma loops_cancel:
  "loops_in in_handler (s\<lparr>sh_loops := map cancel_wait (sh_loops s)\<rparr>) = loops_in in_handler s"
  "loops_in (\<lambda>l. l = LoopWaiting) (s\<lparr>sh_loops := map cancel_wait (sh_loops s)\<rparr>) = 0"
proof -
  have "in_handler \<circ> cancel_wait = in_handler" by (auto simp: fun_eq_iff in_handler_def cancel_wait_def)
  then show "loops_in in_handler (s\<lparr>sh_loops := map cancel_wait (sh_loops s)\<rparr>) = loops_in in_handler s"
    by (simp add: loops_in_def filter_map)
  show "loops_in (\<lambda>l. l = LoopWaiting) (s\<lparr>sh_loops := map cancel_wait (sh_loops s)\<rparr>) = 0"
    by (auto simp: loops_in_def filter_empty_conv cancel_wait_def)
qed

lemma loops_fields [simp]:
  "loops_in P (s\<lparr>sh_deadline := d\<rparr>) = loops_in P s" "loops_in P (s\<lparr>sh_ticks := t\<rparr>) = loops_in P s"
  "loops_in P (s\<lparr>sh_b_stop := b\<rparr>) = loops_in P s" "loops_in P (s\<lparr>sh_thread := b\<rparr>) = loops_in P s"
  "loops_in P (s\<lparr>sh_queue := q\<rparr>) = loops_in P s"
  by (simp_all add: loops_in_def)

lemma sh_flags_loops [simp]:
  "sh_thread (set_loop k l s) = sh_thread s" "sh_thread (end_loop k s) = sh_thread s"
  "sh_b_stop (set_loop k l s) = sh_b_stop s" "sh_b_stop (end_loop k s) = sh_b_stop s"
  by (simp_all add: set_loop_def end_loop_def)

lemma handler_thread:
  assumes "thread_ok s" and "k < length (sh_loops s)" and "in_handler (sh_loops s ! k)"
  shows "sh_thread s"
  using assms nth_mem [OF assms(2)] by (auto simp: thread_ok_def shard_idle_def)

lemma alive_pos: "k < length (sh_loops s) \<Longrightarrow> alive (sh_loops s ! k) \<Longrightarrow> 0 < loops_in alive s"
  using nth_mem [of k "sh_loops s"] by (fastforce simp: loops_in_def filter_empty_conv)

lemma thread_ok_set:
  assumes "thread_ok s" and "k < length (sh_loops s)" and "l = LoopTesting \<or> l = LoopArming"
    and "in_handler (sh_loops s ! k) \<or> shard_idle s" and "sh_thread s"
  shows "thread_ok (set_loop k l s)"
proof -
  have "alive l" using assms(3) by (auto simp: alive_def)
  then have "0 < loops_in alive (set_loop k l s)" using alive_pos [of k "set_loop k l s"] assms(2) by (simp add: set_loop_def)
  then show ?thesis
    using assms loops_set_loop [OF assms(2), of in_handler l] loops_set_loop [OF assms(2), of "\<lambda>l. l = LoopWaiting" l]
    by (auto simp: thread_ok_def loops_idle in_handler_def)
qed

lemma thread_ok_end:
  assumes "thread_ok s" and "k < length (sh_loops s)" and "sh_b_stop s \<or> sh_loops s ! k = LoopCancelled" and "sh_thread s"
  shows "thread_ok (end_loop k s)"
  using assms loops_end_loop [OF assms(2), of in_handler] loops_end_loop [OF assms(2), of "\<lambda>l. l = LoopWaiting"]
    loops_end_loop [OF assms(2), of alive]
  by (auto simp: thread_ok_def alive_def)

lemma thread_ok_arm:
  assumes "thread_ok s" and k: "k < length (sh_loops s)" "sh_loops s ! k = LoopArming" and "sh_thread s"
  shows "thread_ok (loop_arm k s)"
proof -
  let ?s = "s\<lparr>sh_loops := map cancel_wait (sh_loops s)\<rparr>"
  have k': "k < length (sh_loops ?s)" "sh_loops ?s ! k = LoopArming" using k by (simp_all add: cancel_wait_def)
  have "0 < loops_in alive (loop_arm k s)"
    using alive_pos [of k "loop_arm k s"] k(1) by (simp add: loop_arm_def set_loop_def alive_def)
  then show ?thesis
    using assms k' loops_set_loop [OF k'(1), of in_handler LoopWaiting] loops_set_loop [OF k'(1), of "\<lambda>l. l = LoopWaiting" LoopWaiting]
      loops_cancel [of s]
    by (simp add: loop_arm_def thread_ok_def in_handler_def)
qed

lemma thread_ok_fields [simp]:
  "thread_ok (s\<lparr>sh_deadline := d\<rparr>) = thread_ok s" "thread_ok (s\<lparr>sh_ticks := t\<rparr>) = thread_ok s"
  "thread_ok (s\<lparr>sh_queue := q\<rparr>) = thread_ok s"
  by (simp_all add: thread_ok_def loops_idle)

lemma thread_ok_step:
  assumes "thread_step s t" and "thread_ok s"
  shows "thread_ok t"
  using assms(1)
proof cases
  case thread_start
  then show ?thesis
    using assms(2) by (auto simp: LogicShard_start_def thread_ok_def loops_in_def loops_idle in_handler_def alive_def)
next
  case thread_cancel
  then show ?thesis
    using assms(2) loops_cancel [of "s\<lparr>sh_b_stop := True\<rparr>"]
    by (simp add: LogicShard_cancel_def thread_ok_def loops_idle)
next
  case (thread_begin k now)
  then show ?thesis
    using thread_ok_set [of "s\<lparr>sh_deadline := now + kTickInterval\<rparr>" k LoopTesting] assms(2)
    by (simp add: loop_begin_def shard_idle_def)
next
  case (thread_test k)
  then have "in_handler (sh_loops s ! k)" by (simp add: in_handler_def)
  then show ?thesis
    using thread_ok_set [OF assms(2) thread_test(2), of LoopArming] thread_ok_end [OF assms(2) thread_test(2)]
      handler_thread [OF assms(2) thread_test(2)] thread_test(1) by (simp add: loop_test_def)
next
  case (thread_arm k)
  then have "in_handler (sh_loops s ! k)" by (simp add: in_handler_def)
  then show ?thesis
    using thread_ok_arm [OF assms(2) thread_arm(2,3)] handler_thread [OF assms(2) thread_arm(2)] thread_arm(1) by simp
next
  case (thread_tick k now after)
  then show ?thesis
    using thread_ok_set [of "s\<lparr>sh_ticks := sh_ticks s @ [(sh_deadline s, now)],
        sh_deadline := next_deadline kTickInterval (sh_deadline s) after\<rparr>" k LoopTesting] assms(2)
    by (simp add: loop_tick_def shard_idle_def)
next
  case (thread_abort k)
  then show ?thesis using thread_ok_end [OF assms(2)] by simp
qed (use assms(2) in \<open>auto simp: thread_ok_def LogicShard_join_def LogicShard_postTask_def loops_idle\<close>)

lemma thread_ok_run:
  assumes "thread_step\<^sup>*\<^sup>* ShardThread_new s"
  shows "thread_ok s"
  using assms
proof (induction rule: rtranclp_induct)
  case base
  then show ?case by (simp add: thread_ok_def ShardThread_new_def loops_in_def shard_idle_def)
next
  case (step s t)
  then show ?case using thread_ok_step by blast
qed

text \<open>No tick comes before its deadline, and the next deadline is neither in the past nor more than an
  interval away: a shard that has fallen behind skips the ticks it missed.\<close>

lemma ticks_due:
  assumes "thread_step\<^sup>*\<^sup>* ShardThread_new s"
  shows "list_all (\<lambda>(deadline, now). deadline \<le> now) (sh_ticks s)"
  using assms
proof (induction rule: rtranclp_induct)
  case base
  then show ?case by (simp add: ShardThread_new_def)
next
  case (step s t)
  from step(2) step(3) show ?case
    by cases (auto simp: LogicShard_start_def LogicShard_cancel_def LogicShard_join_def LogicShard_postTask_def loop_begin_def
        loop_test_def loop_arm_def loop_tick_def set_loop_def end_loop_def)
qed

lemma next_deadline_bounds:
  assumes "deadline \<le> now"
  shows "now \<le> next_deadline kTickInterval deadline now \<and> next_deadline kTickInterval deadline now \<le> now + kTickInterval"
  using assms by (simp add: next_deadline_def kTickInterval_def Let_def)

subsection \<open>The property\<close>



end
