(* ===== verification/TransportTheorems.thy ===== *)
theory TransportTheorems
  imports WireExample
begin

text \<open>
  The properties of the transport: framing, send queues, link slots and their generations, the
  grouping of receivers and the metrics.
\<close>

subsection \<open>Framing\<close>

text \<open>C16: whatever packets a server sends on a connection, as long as none has message id 0 or a body of more
  than 64 KiB, the reader at the other end hands on exactly these packets, in order, with their
  message ids, flags and bodies, however the bytes are split on the way.\<close>

theorem stream_roundtrip:
  assumes "list_all sendable ms"
  shows "handle_read (concat (map wire ms)) = map received ms"
  using assms by (rule server_reader.reads_all)

theorem stream_roundtrip_witness:
  "handle_read (concat (map wire [(LoginRsp, 0, [1, 2, 3]), (GateLinkHello, 1, [])])) =
     [\<lparr>rn_msg_id = 10002, rn_flags = 0, rn_data = [1, 2, 3]\<rparr>, \<lparr>rn_msg_id = 20003, rn_flags = 1, rn_data = []\<rparr>]"
proof -
  have "list_all sendable [(LoginRsp, 0, [1, 2, 3]), (GateLinkHello, 1, [])]"
    by (simp add: sendable_def kMaxPacketBodyLen_def)
  from stream_roundtrip [OF this] show ?thesis by (simp add: received_def)
qed



subsection \<open>Send queues\<close>

text \<open>C14: the send side of a gateway link, from its creation through any sequence of posts, writes, write
  errors and closes, implements a bounded FIFO queue that drops its oldest packet: at most 2048
  packets wait, they are the newest ones accepted, no packet is written twice or out of order, and
  while the link is open the drop counter is exactly the number of packets lost.\<close>

theorem link_queue_refines:
  assumes "link_fresh s" and "link_step\<^sup>*\<^sup>* s t"
  shows "sendq_step\<^sup>*\<^sup>* sendq_empty (link_queue t) \<and> sendq_ok (link_queue t)"
  using gateway_link.simulation [OF assms(2)] gateway_link.reach_ok [OF assms] gateway_link.abs_fresh [OF assms(1)]
  by simp

definition example_packet :: SendNode where
  "example_packet = SendNode_new [1, 2] PongRsp kPacketFlagNone"

definition example_link :: GatewayLinkSession where
  "example_link = Link_Start (BindSlot 3 1 GatewayLinkSession_new)"

lemma example_link_run:
  "link_fresh (BindSlot 3 1 GatewayLinkSession_new)"
  "link_step\<^sup>*\<^sup>* (BindSlot 3 1 GatewayLinkSession_new) (PostSend example_packet example_link)"
proof -
  have "(3 :: u64) \<noteq> kNoSlot" by (simp add: kNoSlot_def)
  then show "link_fresh (BindSlot 3 1 GatewayLinkSession_new)" unfolding link_fresh_def by blast
  have "link_step (BindSlot 3 1 GatewayLinkSession_new) example_link"
    unfolding example_link_def by (rule ev_start) (simp add: BindSlot_def GatewayLinkSession_new_def)
  then show "link_step\<^sup>*\<^sup>* (BindSlot 3 1 GatewayLinkSession_new) (PostSend example_packet example_link)"
    by (rule converse_rtranclp_into_rtranclp) (auto intro: ev_post)
qed

theorem link_queue_refines_witness:
  "sendq_ok (link_queue (PostSend example_packet example_link)) \<and>
   gl_send_que (PostSend example_packet example_link) = [example_packet]"
  using link_queue_refines [OF example_link_run]
  by (simp add: PostSend_def example_link_def Link_Start_def BindSlot_def GatewayLinkSession_new_def
      is_closing_def kMaxSendQueueDepth_def)





subsection \<open>Link slots\<close>

lemma generation_bound:
  assumes "net_run j (NetworkShard_new shard_id max_links) n" and "max_links \<le> 2 ^ 32" and "j < 2 ^ 64"
    and "i < length (ns_slots n)"
  shows "net_ok n \<and> unat (sl_generation (ns_slots n ! i)) \<le> j"
proof -
  have k: "keeps j (NetworkShard_new shard_id max_links) n" using assms(1) by (rule keeps_net_run)
  have "net_ok (NetworkShard_new shard_id max_links)" using assms(2) by (rule net_ok_new)
  then have "net_ok n" "i < max_links" "slot_later j GatewayLinkSlot_default (ns_slots n ! i)"
    using k assms(4) by (auto simp: keeps_def NetworkShard_new_def)
  then show ?thesis using assms(3) by (simp add: slot_later_def GatewayLinkSlot_default_def)
qed

text \<open>C12: a route reaches only the connection it was made for. A packet arrives on a link of a shard that
  has made \<open>j\<close> steps since it was created; its route, kept by a logic shard for \<open>k\<close> further steps of
  any kind (the link closed, its slot reused, other links coming and going), is then used to send.
  Either nothing is sent, or the message is queued on that very connection, in the state it has got
  into since. (Fewer than \<open>2^64\<close> steps: the generation is a 64-bit counter.)\<close>

theorem route_reaches_own_link:
  assumes "net_run j (NetworkShard_new shard_id max_links) n" and "max_links \<le> 2 ^ 32"
    and "net_run k n n'" and "j + k < 2 ^ 64" and "unat link_id < length (ns_slots n)"
    and tgt: "tgt = \<lparr>nt_link_id = link_id, nt_generation = gr_generation (MakeRoute link_id n), nt_uids = uids\<rparr>"
  shows "send_target c task tgt n' = n' \<or>
    (\<exists>s t packet. sl_session (ns_slots n ! unat link_id) = Some s \<and> link_step\<^sup>*\<^sup>* s t \<and>
       sl_session (ns_slots n' ! unat link_id) = Some t \<and> IsAvailable t \<and>
       BuildGameToGatewayEnvelope c task uids = Some packet \<and>
       send_target c task tgt n' =
         set_slot (unat link_id) ((ns_slots n' ! unat link_id)\<lparr>sl_session := Some (PostSend packet t)\<rparr>) n')"
proof (cases "send_target c task tgt n' = n'")
  case False
  let ?i = "unat link_id" and ?a = "ns_slots n ! unat link_id" and ?b = "ns_slots n' ! unat link_id"
  have n: "net_ok n" "unat (sl_generation ?a) \<le> j"
    using generation_bound [OF assms(1,2) _ assms(5)] assms(4) by auto
  then have later: "slot_later k ?a ?b" using keeps_net_run [OF assms(3)] assms(5) by (simp add: keeps_def)
  have g: "gr_generation (MakeRoute link_id n) = sl_generation ?a" using assms(5) by (simp add: MakeRoute_def)
  obtain t packet where t: "sl_generation ?b = sl_generation ?a" "sl_session ?b = Some t" "IsAvailable t"
      "BuildGameToGatewayEnvelope c task uids = Some packet"
      "send_target c task tgt n' = set_slot ?i (?b\<lparr>sl_session := Some (PostSend packet t)\<rparr>) n'"
    using False g
    by (auto simp: send_target_def tgt Let_def can_send_def post_to_slot_def split: if_splits option.splits)
  then obtain s where "sl_session ?a = Some s" "link_step\<^sup>*\<^sup>* s t"
    using later n(2) assms(4) by (auto simp: slot_later_def)
  then show ?thesis using t by blast
qed simp

definition example_shard :: NetworkShard where
  "example_shard = on_accept 0 1 Accepted (NetworkShard_Start (NetworkShard_new 0 2))"

definition example_task :: NetworkTask where
  "example_task = \<lparr>nk_msg_id = PongRsp, nk_seq = 0, nk_targets = [], nk_body = SendNode_new [9] PongRsp kPacketFlagNone\<rparr>"

lemma example_shard_run: "net_run 2 (NetworkShard_new 0 2) example_shard"
proof -
  have "net_step (NetworkShard_new 0 2) (NetworkShard_Start (NetworkShard_new 0 2))"
    by (rule net_start) (simp add: NetworkShard_new_def)
  moreover have "net_step (NetworkShard_Start (NetworkShard_new 0 2)) example_shard"
    unfolding example_shard_def by (rule net_accept) code_simp
  ultimately show ?thesis
    unfolding numeral_2_eq_2 by (blast intro: net_run.intros)
qed

theorem route_reaches_own_link_witness:
  "length (gl_send_que (the (sl_session (ns_slots (send_target example_codec example_task
     \<lparr>nt_link_id = 0, nt_generation = 1, nt_uids = [7]\<rparr> example_shard) ! 0)))) = 1 \<and>
   send_target example_codec example_task \<lparr>nt_link_id = 0, nt_generation = 0, nt_uids = [7]\<rparr> example_shard = example_shard"
proof -
  let ?tgt = "\<lparr>nt_link_id = 0, nt_generation = gr_generation (MakeRoute 0 example_shard), nt_uids = [7]\<rparr>"
  let ?sent = "send_target example_codec example_task \<lparr>nt_link_id = 0, nt_generation = 1, nt_uids = [7]\<rparr> example_shard"
  have l: "unat (0 :: u32) < length (ns_slots example_shard)" by code_simp
  have "gr_generation (MakeRoute 0 example_shard) = 1" by code_simp
  moreover have "sl_session (ns_slots ?sent ! 0) \<noteq> sl_session (ns_slots example_shard ! 0)" by code_simp
  then have "?sent \<noteq> example_shard" by auto
  moreover have "(2 :: nat) + 0 < 2 ^ 64" "(2 :: nat) \<le> 2 ^ 32" by simp_all
  ultimately obtain t packet where "sl_session (ns_slots example_shard ! 0) = Some t"
      "?sent = set_slot 0 ((ns_slots example_shard ! 0)\<lparr>sl_session := Some (PostSend packet t)\<rparr>) example_shard"
    using route_reaches_own_link [OF example_shard_run _ net_run_0 _ l refl, of example_codec example_task "[7]"]
    by auto
  moreover have "length (gl_send_que (the (sl_session (ns_slots example_shard ! 0)))) = 0"
      "gl_state (the (sl_session (ns_slots example_shard ! 0))) = Conected" by code_simp+
  ultimately have "length (gl_send_que (the (sl_session (ns_slots ?sent ! 0)))) = 1"
    using l by (simp add: set_slot_def PostSend_def is_closing_def kMaxSendQueueDepth_def Let_def)
  moreover have "sl_generation (ns_slots example_shard ! 0) = 1" by code_simp
  then have "send_target example_codec example_task \<lparr>nt_link_id = 0, nt_generation = 0, nt_uids = [7]\<rparr> example_shard = example_shard"
    by (simp add: send_target_def Let_def)
  ultimately show ?thesis by blast
qed

subsection \<open>Fan-out\<close>

text \<open>C39: a player with a fresh route misses a message because of another one: when a message for both is
  grouped and the last player on the link still has the route of the previous connection, the whole
  target is stale and the network shard drops it, for every message sent to both.\<close>

theorem stale_neighbour_drops:
  assumes "i = unat link" and "i < length (ns_slots n)"
    and "us = filter (routed routes net link) uids" and "us \<noteq> []"
    and "route_generation routes (last us) \<noteq> sl_generation (ns_slots n ! i)"
  shows "\<exists>tgt. lookup (fold (add_target routes) uids []) net link = Some tgt \<and>
    set (nt_uids tgt) = set us \<and> ns_slots (send_target c task tgt n) ! i = ns_slots n ! i"
  using assms lookup_group [of routes uids net link] send_target_other
  by (auto simp: Let_def)

definition example_routes :: "(u64, GatewayRoute) umap" where
  "example_routes = [(7, \<lparr>gr_net_shard = 0, gr_link_id = 0, gr_generation = 1\<rparr>),
                     (8, \<lparr>gr_net_shard = 0, gr_link_id = 0, gr_generation = 0\<rparr>)]"

theorem stale_neighbour_drops_witness:
  "\<exists>tgt. lookup (fold (add_target example_routes) [7, 8] []) 0 0 = Some tgt \<and> 7 \<in> set (nt_uids tgt) \<and>
     route_generation example_routes 7 = sl_generation (ns_slots example_shard ! 0) \<and>
     ns_slots (send_target example_codec example_task tgt example_shard) ! 0 = ns_slots example_shard ! 0"
proof -
  have us: "[7, 8] = filter (routed example_routes 0 0) [7, 8 :: u64]" by code_simp
  have "unat (0 :: u32) < length (ns_slots example_shard)"
      "route_generation example_routes (last [7, 8]) \<noteq> sl_generation (ns_slots example_shard ! unat (0 :: u32))"
      "route_generation example_routes 7 = sl_generation (ns_slots example_shard ! 0)"
    by code_simp+
  then show ?thesis
    using stale_neighbour_drops [OF refl _ us, of example_shard example_codec example_task] by force
qed

subsection \<open>Metrics\<close>

text \<open>The tick metrics: after any sequence of recorded durations the ring buffer holds the 4096 newest
  ones (all, when there are fewer) and its order, read from the write position, is the order they
  were recorded in.\<close>

theorem tick_window:
  "recorded (fold RecordTickUs us Metrics_new) = newest kTickWindow us \<and>
   length (me_tick_samples (fold RecordTickUs us Metrics_new)) \<le> kTickWindow"
proof -
  have "ring_ok us (fold RecordTickUs us Metrics_new)" by (rule ring_ok_all)
  then show ?thesis by (auto simp: ring_ok_def split: if_splits)
qed

end
