(* ===== verification/GateTheorems.thy ===== *)
theory GateTheorems
  imports WireExample
begin

text \<open>
  The properties of the gate server: who gets what is addressed to a player, logging in and out, the
  connection pool towards the game server, and the way of a message through the gate.
\<close>

subsection \<open>A concrete gate\<close>

text \<open>One client, connected and logged in.\<close>

definition example_accepted :: Gate where
  "example_accepted = on_client_accept Accepted ''a'' ''b'' (Cserver_start 0 ''a'' Gate_new)"

definition example_gate :: Gate where
  "example_gate = HandleLoginReq example_gate_env ''a'' [120] example_accepted"

lemma fresh_start: "gt_objs g = [] \<Longrightarrow> gt_registry g = [] \<Longrightarrow>
    \<forall>w \<in> set (gt_shards g). ws_user_id_mgr w = [] \<Longrightarrow> length (gt_shards g) = WORK_SHARD_NUMBER \<Longrightarrow> fresh_uuid u g"
  by (simp add: fresh_uuid_def unreferenced_def)

lemma example_accepted_steps:
  "gate_step e Gate_new (Cserver_start 0 ''a'' Gate_new)"
  "gate_step e (Cserver_start 0 ''a'' Gate_new) example_accepted"
proof -
  show "gate_step e Gate_new (Cserver_start 0 ''a'' Gate_new)"
    by (rule gate_start, rule fresh_start)
       (auto simp: Gate_new_def WorkShard_new_def WORK_SHARD_NUMBER_def)
  let ?g = "Cserver_start 0 ''a'' Gate_new"
  have g: "um_find (gt_objs ?g) ''a'' = Some (Csession_new ''a'' 0)" "um_find (gt_objs ?g) ''b'' = None"
    "gt_registry ?g = []"
    by code_simp+
  have "ws_user_id_mgr (gt_shards ?g ! k) = []" if "k < WORK_SHARD_NUMBER" for k
    using that
    by (simp add: Cserver_start_def StartAccept_def get_shard_def Gate_new_def WorkShard_start_def
        WorkShard_new_def nth_map)
  then have "fresh_uuid ''b'' ?g" using g by (simp add: fresh_uuid_def unreferenced_def)
  then show "gate_step e ?g example_accepted"
    unfolding example_accepted_def using g(1) by (intro gate_accept) (auto simp: Csession_new_def)
qed

lemma example_gate_step: "gate_step example_gate_env example_accepted example_gate"
  using gate_packet [of example_gate_env example_accepted 0 LoginReq "''a''" "[120]"]
  by (simp add: example_gate_def ClientIngress_HandleMsg_def)

lemma unique_uids_one:
  assumes "length (filter (\<lambda>p. cs_uid (snd p) \<noteq> 0) (gt_objs g)) \<le> 1"
  shows "unique_uids g"
proof -
  define xs where "xs = filter (\<lambda>p. cs_uid (snd p) \<noteq> 0) (gt_objs g)"
  have one: "p = q" if "p \<in> set xs" "q \<in> set xs" for p q
    using assms that unfolding xs_def [symmetric] by (cases xs) (auto simp: Suc_le_eq)
  have "u = v" if w: "who g u = Some (uid, j)" "who g v = Some (uid, k)" "uid \<noteq> 0" for u v uid j k
  proof -
    obtain s t where "(u, s) \<in> set xs" "(v, t) \<in> set xs"
      using w unfolding who_def xs_def by (force dest!: um_find_in_set)
    then show ?thesis using one by blast
  qed
  then show ?thesis by (auto simp: unique_uids_def)
qed

lemma example_gate_run: "gate_run example_gate_env example_accepted" "gate_run example_gate_env example_gate"
proof -
  have "unique_uids (Cserver_start 0 ''a'' Gate_new)" "unique_uids example_accepted" "unique_uids example_gate"
    by (rule unique_uids_one, code_simp)+
  then show "gate_run example_gate_env example_accepted" "gate_run example_gate_env example_gate"
    using example_accepted_steps example_gate_step by (blast intro: gate_run.intros)+
qed

subsection \<open>What is addressed to a player\<close>

lemma gate_steps_ok: "(gate_step e)\<^sup>*\<^sup>* Gate_new g \<Longrightarrow> gate_ok (gv_hash e) g"
  by (induction rule: rtranclp_induct) (auto intro: gate_ok_new gate_ok_step)

text \<open>C11: in every state the gate can get into, a message of the game server addressed to some players is
  queued on a session only if the session is logged in as one of them, once for each time its player
  is addressed at most; every other session keeps its queue. This holds whatever logins, closes,
  deliveries across threads and objects not yet released went before.\<close>

theorem gate_no_misdelivery:
  assumes "(gate_step e)\<^sup>*\<^sup>* Gate_new g" and "k < WORK_SHARD_NUMBER"
    and "ParseProtoFromBytes (gc_game_to_gate (gv_codec e)) body = Some envelope"
    and "BuildPacket (ucast (gg_inner_msg_id envelope)) (gg_payload envelope) = Some packet"
    and "gg_target_uids envelope \<noteq> []"
    and "ForwardGameToClients e k body g = (ok, effects, g')"
    and "um_find (gt_objs g) v = Some s"
  shows "\<exists>n \<le> count_list (gg_target_uids envelope) (cs_uid s).
    um_find (gt_objs (fold run_effect effects g')) v = Some ((Csession_SendData packet ^^ n) s)"
proof -
  let ?n = "length (filter (\<lambda>uid. recipient k g uid = Some v) (gg_target_uids envelope))"
  have own: "recipient k g uid = Some v \<Longrightarrow> uid = cs_uid s" for uid
    using recipient_who [OF gate_steps_ok [OF assms(1)] assms(2), of uid v] assms(7) by (auto simp: who_def)
  have "length (filter (\<lambda>uid. recipient k g uid = Some v) xs) \<le> count_list xs (cs_uid s)" for xs
  proof (induction xs)
    case (Cons uid xs)
    then show ?case by (cases "recipient k g uid = Some v") (auto dest: own)
  qed simp
  then show ?thesis
    unfolding ForwardGameToClients_delivers(1) [OF assms(3-6), of v] assms(7) option.map by blast
qed

definition example_reply :: "byte list" where
  "example_reply = enc64 1 @ enc64 (ucast PongRsp) @ enc64 (MakeLoginUid example_hash ''a'' ''x'' []) @ [5]"

theorem gate_no_misdelivery_witness:
  "\<exists>ok effects g' s n. ForwardGameToClients example_gate_env 0 example_reply example_gate = (ok, effects, g') \<and>
     um_find (gt_objs example_gate) ''a'' = Some s \<and> n \<le> 1 \<and>
     um_find (gt_objs (fold run_effect effects g')) ''a'' =
       Some ((Csession_SendData (SendNode_new [5] PongRsp kPacketFlagNone) ^^ n) s)"
proof -
  have r: "(gate_step example_gate_env)\<^sup>*\<^sup>* Gate_new example_gate"
    using example_accepted_steps example_gate_step by (meson converse_rtranclp_into_rtranclp rtranclp.rtrancl_refl)
  define env where "env = \<lparr>gg_target_uids = [MakeLoginUid example_hash ''a'' ''x'' []],
    gg_inner_msg_id = ucast PongRsp, gg_payload = [5]\<rparr>"
  have p: "ParseProtoFromBytes (gc_game_to_gate (gv_codec example_gate_env)) example_reply = Some env"
    unfolding env_def by code_simp
  have b: "BuildPacket (ucast (gg_inner_msg_id env)) (gg_payload env) = Some (SendNode_new [5] PongRsp kPacketFlagNone)"
    "gg_target_uids env \<noteq> []" "length (gg_target_uids env) = 1"
    by (simp_all add: env_def BuildPacket_def)
  have "um_find (gt_objs example_gate) ''a'' \<noteq> None" by code_simp
  then obtain s where s: "um_find (gt_objs example_gate) ''a'' = Some s" by blast
  have k: "0 < WORK_SHARD_NUMBER" by (simp add: WORK_SHARD_NUMBER_def)
  obtain ok effects g' where f: "ForwardGameToClients example_gate_env 0 example_reply example_gate = (ok, effects, g')"
    by (rule prod_cases3)
  have "count_list (gg_target_uids env) (cs_uid s) \<le> 1"
    using count_le_length [of "gg_target_uids env" "cs_uid s"] b(3) by simp
  then show ?thesis
    using gate_no_misdelivery [OF r k p b(1,2) f s] f s by (blast intro: le_trans)
qed

lemma client_open_uid: "client_open (s\<lparr>cs_uid := uid\<rparr>) = client_open s"
  by (simp add: client_open_def)





subsection \<open>Before and between logins\<close>

definition pools :: "Gate \<Rightarrow> GameServerConnPool option list" where
  "pools g = map ws_ConnPool (gt_shards g)"

lemma pools_simps [simp]:
  "pools (on_session u f g) = pools g" "pools (g\<lparr>gt_registry := r\<rparr>) = pools g"
  by (simp_all add: pools_def)

lemma pools_on_shard: "(\<And>w. ws_ConnPool (f w) = ws_ConnPool w) \<Longrightarrow> pools (on_shard k f g) = pools g"
  by (cases "k < length (gt_shards g)")
     (auto simp: pools_def on_shard_def list_update_beyond nth_list_update intro!: nth_equalityI)

lemma pools_send [simp]: "pools (send_data u p g) = pools g" "pools (SendToClient u q g) = pools g"
  by (simp_all add: SendToClient_def send_data_def split: option.split)

text \<open>C33: before a login nothing of a client reaches the game server: no message but a login changes any
  connection towards it, and for every message that would be forwarded the client is told that it is
  not logged in.\<close>

theorem not_logged_in_refused:
  assumes "um_find (gt_objs g) u = Some s" and "cs_uid s = 0" and "msgid \<noteq> LoginReq"
    and "g' = ClientIngress_HandleMsg e now_unix_ms msgid u body g"
  shows "pools g' = pools g \<and>
    (msgid \<in> set client_forwards \<longrightarrow>
       (case BuildCommandRejected (gv_codec e) 0 0 ERROR_NOT_LOGGED_IN ''client is not logged in'' of
          None \<Rightarrow> g' = g
        | Some packet \<Rightarrow> g' = send_data u packet g))"
proof -
  have "PingReq \<notin> set client_forwards" by (simp add: client_forwards_def)
  then show ?thesis
    using assms
    by (auto simp: ClientIngress_HandleMsg_def HandlePingReq_def reply_def ForwardClientMsgToGame_def
        SendToClient_def send_data_def Let_def split: option.split)
qed

theorem not_logged_in_refused_witness:
  "pools (ClientIngress_HandleMsg example_gate_env 0 CreateRoomReq ''a'' [] example_accepted) = pools example_accepted \<and>
   cs_send_que (the (um_find (gt_objs (ClientIngress_HandleMsg example_gate_env 0 CreateRoomReq ''a'' [] example_accepted)) ''a'')) =
     [SendNode_new [0] CommandRejectedNtf kPacketFlagNone]"
proof -
  let ?g = "ClientIngress_HandleMsg example_gate_env 0 CreateRoomReq ''a'' [] example_accepted"
  have s: "um_find (gt_objs example_accepted) ''a'' = Some (Csession_start (Csession_new ''a'' 0))" by code_simp
  have z: "cs_uid (Csession_start (Csession_new ''a'' 0)) = 0" by (simp add: Csession_start_def Csession_new_def)
  have "BuildCommandRejected (gv_codec example_gate_env) 0 0 ERROR_NOT_LOGGED_IN ''client is not logged in'' =
      Some (SendNode_new [0] CommandRejectedNtf kPacketFlagNone)" by code_simp
  moreover have "CreateRoomReq \<in> set client_forwards" "CreateRoomReq \<noteq> LoginReq" by (simp_all add: client_forwards_def)
  ultimately have "pools ?g = pools example_accepted \<and> ?g = send_data ''a'' (SendNode_new [0] CommandRejectedNtf kPacketFlagNone) example_accepted"
    using not_logged_in_refused [OF s z _ refl, of CreateRoomReq example_gate_env 0 "[]"] by simp
  then show ?thesis
    using s by (simp add: send_data_def Csession_SendData_def Csession_start_def Csession_new_def kMaxSendQueueDepth_def)
qed

text \<open>A session that logs in a second time, as somebody else, leaves its first player behind: the gate
  forgets the old id, no connection towards the game server is told about it, and closing the
  session reports only the new id. The game server keeps the old player and its room until the
  server ends.\<close>

lemma relogin_leaves_ghost:
  assumes "(gate_step e)\<^sup>*\<^sup>* Gate_new g" and "um_find (gt_objs g) u = Some s"
    and "cs_uid s \<noteq> 0" and "uid \<noteq> 0" and "uid \<noteq> cs_uid s" and "k < WORK_SHARD_NUMBER"
    and g': "g' = BindUid e u uid g"
  shows "pools g' = pools g \<and> recipient k g' (cs_uid s) \<noteq> Some u \<and>
    map_option cs_uid (um_find (gt_objs g') u) = Some uid"
proof -
  have p: "pools g' = pools g"
    using assms(2,4) by (auto simp: g' BindUid_def Let_def pools_on_shard add_uid_def delete_uid_def)
  have w: "who g' u = Some (uid, cs_shard s)" using assms(2,4) by (simp add: g' BindUid_def Let_def who_def)
  have "gate_ok (gv_hash e) g'" using gate_ok_BindUid [OF gate_steps_ok [OF assms(1)]] by (simp add: g')
  then have "recipient k g' (cs_uid s) \<noteq> Some u"
    using recipient_who [OF _ assms(6), of "gv_hash e" g' "cs_uid s" u] w assms(5) by auto
  then show ?thesis using p w by (auto simp: who_def)
qed

lemma relogin_leaves_ghost_witness:
  "pools (BindUid example_gate_env ''a'' 42 example_gate) = pools example_gate \<and>
   recipient 0 (BindUid example_gate_env ''a'' 42 example_gate) (MakeLoginUid example_hash ''a'' ''x'' []) \<noteq> Some ''a''"
proof -
  have r: "(gate_step example_gate_env)\<^sup>*\<^sup>* Gate_new example_gate"
    using example_accepted_steps example_gate_step by (meson converse_rtranclp_into_rtranclp rtranclp.rtrancl_refl)
  have u: "um_find (gt_objs example_gate) ''a'' \<noteq> None"
      "cs_uid (the (um_find (gt_objs example_gate) ''a'')) = MakeLoginUid example_hash ''a'' ''x'' []"
      "MakeLoginUid example_hash ''a'' ''x'' [] \<noteq> 42"
    by code_simp+
  then obtain s where s: "um_find (gt_objs example_gate) ''a'' = Some s" "cs_uid s = MakeLoginUid example_hash ''a'' ''x'' []"
    by auto
  have "0 < WORK_SHARD_NUMBER" by (simp add: WORK_SHARD_NUMBER_def)
  then show ?thesis
    using relogin_leaves_ghost [OF r s(1) _ _ _ _ refl, of 42 0] s(2) u(3) MakeLoginUid_nonzero by auto
qed

subsection \<open>The connections towards the game server\<close>

text \<open>A message is posted to the first available connection in round-robin order from the pool's index,
  and only to that one; the index moves past it. Only when none of the eight connections is available
  the message is refused, and then no connection has changed.\<close>

theorem pool_posts_once:
  assumes "pool_ok p"
  shows "if \<forall>i < GAMESERVER_CONN_CNT. \<not> IsConnAvailable (cp_sessions p ! i)
    then \<not> fst (Pool_PostMessage node p) \<and> cp_sessions (snd (Pool_PostMessage node p)) = cp_sessions p
    else \<exists>k < GAMESERVER_CONN_CNT.
      (\<forall>j < k. \<not> IsConnAvailable (cp_sessions p ! probe (cp_rr_idx p) j)) \<and>
      IsConnAvailable (cp_sessions p ! probe (cp_rr_idx p) k) \<and>
      Pool_PostMessage node p = (True, p\<lparr>cp_rr_idx := cp_rr_idx p + of_nat (Suc k),
        cp_sessions := (cp_sessions p)[probe (cp_rr_idx p) k :=
          map_option (ClientSession_SendData node) (cp_sessions p ! probe (cp_rr_idx p) k)]\<rparr>)"
  using assms by (rule Pool_PostMessage_spec)

definition example_pool :: GameServerConnPool where
  "example_pool =
     (let p = Pool_Init 0 GameServerConnPool_new
      in p\<lparr>cp_sessions := (cp_sessions p)[3 := map_option (on_connect example_gate_codec False 5 5) (cp_sessions p ! 3)]\<rparr>)"

lemma example_pool_ok: "pool_ok example_pool"
  using pool_ok_ops(1) [of 0] by (simp add: pool_ok_def example_pool_def Let_def)

theorem pool_posts_once_witness:
  "fst (Pool_PostMessage (SendNode_new [5] PongRsp kPacketFlagNone) example_pool) \<and> IsConnAvailable (cp_sessions example_pool ! 3)"
proof -
  have 3: "IsConnAvailable (cp_sessions example_pool ! 3)" by code_simp
  moreover have "3 < GAMESERVER_CONN_CNT" by (simp add: GAMESERVER_CONN_CNT_def)
  ultimately have "\<not> (\<forall>i < GAMESERVER_CONN_CNT. \<not> IsConnAvailable (cp_sessions example_pool ! i))" by blast
  from pool_posts_once [OF example_pool_ok, of "SendNode_new [5] PongRsp kPacketFlagNone", unfolded if_not_P [OF this]] 3
  show ?thesis by auto
qed





end
