(* ===== verification/Config.thy ===== *)
theory Config
  imports Prelude
begin

text \<open>
  The configuration (\<^verbatim>\<open>IniConfig.h\<close>, the same file in both servers, and the \<^verbatim>\<open>LoadConfig\<close> of both entry
  points). Boost's property tree and its ini parser are not part of the sources: their operations are
  the fields of \<open>ptree_ops\<close>, an argument of every definition that uses them, over an unknown type of
  trees and an unknown type of file systems. What the code relies on is \<open>ptree_ok\<close>, in the words of
  Boost's documentation: \<^verbatim>\<open>put\<close> sets the value at a path of keys separated by dots and leaves the other
  values alone, but may give the nodes on the way an empty value; \<^verbatim>\<open>erase\<close> deletes direct children only.
\<close>

subsection \<open>Property trees\<close>

record ('t, 'f) ptree_ops =
  pt_get_string :: "string \<Rightarrow> 't \<Rightarrow> string option"
  pt_get_int :: "string \<Rightarrow> 't \<Rightarrow> int option"
  pt_get_size :: "string \<Rightarrow> 't \<Rightarrow> u64 option"
  pt_put_string :: "string \<Rightarrow> string \<Rightarrow> 't \<Rightarrow> 't"
  pt_put_int :: "string \<Rightarrow> int \<Rightarrow> 't \<Rightarrow> 't"
  pt_put_size :: "string \<Rightarrow> u64 \<Rightarrow> 't \<Rightarrow> 't"
  pt_erase :: "string \<Rightarrow> 't \<Rightarrow> 't"
  pt_read_ini :: "'f \<Rightarrow> string \<Rightarrow> string + 't"
  pt_write_ini :: "string \<Rightarrow> 't \<Rightarrow> 'f \<Rightarrow> string + 'f"
  fs_create_directories :: "string \<Rightarrow> 'f \<Rightarrow> string + 'f"

text \<open>The range of a C++ \<^verbatim>\<open>int\<close>.\<close>

definition is_int :: "int \<Rightarrow> bool" where
  "is_int v \<longleftrightarrow> - (2 ^ 31) \<le> v \<and> v < 2 ^ 31"

text \<open>The value at \<open>k'\<close> is not touched when \<open>k\<close> is set: another path, and no node on the way to \<open>k\<close>.\<close>

definition apart :: "string \<Rightarrow> string \<Rightarrow> bool" where
  "apart k k' \<longleftrightarrow> k \<noteq> k' \<and> take (length k' + 1) k \<noteq> k' @ ''.''"

definition first_key :: "string \<Rightarrow> string" where
  "first_key k = takeWhile (\<lambda>c. c \<noteq> CHR ''.'') k"

definition same_values :: "('t, 'f) ptree_ops \<Rightarrow> string \<Rightarrow> 't \<Rightarrow> 't \<Rightarrow> bool" where
  "same_values p k t t' \<longleftrightarrow>
     pt_get_string p k t = pt_get_string p k t' \<and> pt_get_int p k t = pt_get_int p k t' \<and>
     pt_get_size p k t = pt_get_size p k t'"

definition ptree_ok :: "('t, 'f) ptree_ops \<Rightarrow> bool" where
  "ptree_ok p \<longleftrightarrow>
     (\<forall>k v t. pt_get_string p k (pt_put_string p k v t) = Some v) \<and>
     (\<forall>k v t. is_int v \<longrightarrow> pt_get_int p k (pt_put_int p k v t) = Some v) \<and>
     (\<forall>k v t. pt_get_size p k (pt_put_size p k v t) = Some v) \<and>
     (\<forall>k k' t. apart k k' \<longrightarrow>
        (\<forall>v. same_values p k' (pt_put_string p k v t) t) \<and>
        (\<forall>v. same_values p k' (pt_put_int p k v t) t) \<and>
        (\<forall>v. same_values p k' (pt_put_size p k v t) t)) \<and>
     (\<forall>k k' t. first_key k' \<noteq> k \<longrightarrow> same_values p k' (pt_erase p k t) t) \<and>
     (\<forall>k t v. pt_get_int p k t = Some v \<longrightarrow> is_int v)"

subsection \<open>IniConfig\<close>

record 't IniConfig =
  ic_tree :: 't
  ic_file_path :: string

text \<open>\<^verbatim>\<open>Load\<close>: the new configuration, or the message of the exception; then the old one is kept, as
  \<^verbatim>\<open>read_ini\<close> has the strong exception guarantee.\<close>

definition Load :: "('t, 'f) ptree_ops \<Rightarrow> 'f \<Rightarrow> string \<Rightarrow> 't IniConfig \<Rightarrow> string + 't IniConfig" where
  "Load p fs file_path ini =
     (case pt_read_ini p fs file_path of
        Inl err \<Rightarrow> Inl err
      | Inr t \<Rightarrow> Inr (ini\<lparr>ic_tree := t, ic_file_path := file_path\<rparr>))"

text \<open>\<^verbatim>\<open>std::filesystem::path::parent_path\<close> for POSIX paths: without the last name and the separators
  before it, unless nothing but separators is left.\<close>

definition parent_path :: "string \<Rightarrow> string" where
  "parent_path path =
     (let dir = rev (dropWhile (\<lambda>c. c \<noteq> CHR ''/'') (rev path));
          stripped = rev (dropWhile (\<lambda>c. c = CHR ''/'') (rev dir))
      in if stripped = [] then dir else stripped)"

definition Save :: "('t, 'f) ptree_ops \<Rightarrow> string \<Rightarrow> 't IniConfig \<Rightarrow> 'f \<Rightarrow> string + 'f" where
  "Save p file_path ini fs =
     (let tgt = (if file_path = [] then ic_file_path ini else file_path)
      in if tgt = [] then Inl ''save path is empty''
         else
           case (if parent_path tgt \<noteq> [] then fs_create_directories p (parent_path tgt) fs else Inr fs) of
             Inl err \<Rightarrow> Inl err
           | Inr fs \<Rightarrow> pt_write_ini p tgt (ic_tree ini) fs)"

definition Has :: "('t, 'f) ptree_ops \<Rightarrow> string \<Rightarrow> 't IniConfig \<Rightarrow> bool" where
  "Has p key ini \<longleftrightarrow> pt_get_string p key (ic_tree ini) \<noteq> None"

text \<open>The templates \<^verbatim>\<open>Get\<close>, \<^verbatim>\<open>Require\<close> and \<^verbatim>\<open>Set\<close>, with the property tree's access at their type as an argument.\<close>

definition Get :: "(string \<Rightarrow> 't \<Rightarrow> 'a option) \<Rightarrow> string \<Rightarrow> 'a \<Rightarrow> 't IniConfig \<Rightarrow> 'a" where
  "Get get key default_value ini = (case get key (ic_tree ini) of None \<Rightarrow> default_value | Some v \<Rightarrow> v)"

definition Require :: "(string \<Rightarrow> 't \<Rightarrow> 'a option) \<Rightarrow> string \<Rightarrow> 't IniConfig \<Rightarrow> string + 'a" where
  "Require get key ini =
     (case get key (ic_tree ini) of None \<Rightarrow> Inl (''missing config key: '' @ key) | Some v \<Rightarrow> Inr v)"

definition Set :: "(string \<Rightarrow> 'a \<Rightarrow> 't \<Rightarrow> 't) \<Rightarrow> string \<Rightarrow> 'a \<Rightarrow> 't IniConfig \<Rightarrow> 't IniConfig" where
  "Set put key v ini = ini\<lparr>ic_tree := put key v (ic_tree ini)\<rparr>"

definition Remove :: "('t, 'f) ptree_ops \<Rightarrow> string \<Rightarrow> 't IniConfig \<Rightarrow> 't IniConfig" where
  "Remove p key ini = ini\<lparr>ic_tree := pt_erase p key (ic_tree ini)\<rparr>"

subsection \<open>GatewayConfig\<close>

record GatewayConfig =
  gw_ip :: string
  gw_port :: u16
  gw_io_threads :: u64
  gw_max_conn :: u64

definition GatewayConfig_default :: GatewayConfig where
  "GatewayConfig_default = \<lparr>gw_ip = ''127.0.0.1'', gw_port = 7000, gw_io_threads = 4, gw_max_conn = 1024\<rparr>"

definition FromIni :: "('t, 'f) ptree_ops \<Rightarrow> 't IniConfig \<Rightarrow> GatewayConfig" where
  "FromIni p ini =
     (let cfg = GatewayConfig_default
      in \<lparr>gw_ip = Get (pt_get_string p) ''gateway.ip'' (gw_ip cfg) ini,
          gw_port = word_of_int (Get (pt_get_int p) ''gateway.port'' (uint (gw_port cfg)) ini),
          gw_io_threads = Get (pt_get_size p) ''gateway.io_threads'' (gw_io_threads cfg) ini,
          gw_max_conn = Get (pt_get_size p) ''gateway.max_conn'' (gw_max_conn cfg) ini\<rparr>)"

definition ToIni :: "('t, 'f) ptree_ops \<Rightarrow> GatewayConfig \<Rightarrow> 't IniConfig \<Rightarrow> 't IniConfig" where
  "ToIni p cfg ini =
     (let ini = Set (pt_put_string p) ''gateway.ip'' (gw_ip cfg) ini;
          ini = Set (pt_put_int p) ''gateway.port'' (uint (gw_port cfg)) ini;
          ini = Set (pt_put_size p) ''gateway.io_threads'' (gw_io_threads cfg) ini
      in Set (pt_put_size p) ''gateway.max_conn'' (gw_max_conn cfg) ini)"

subsection \<open>LoadConfig\<close>

definition config_paths :: "string list" where
  "config_paths = [''config/config.ini'', ''../config/config.ini'', ''./config.ini'']"

fun load_first :: "('t, 'f) ptree_ops \<Rightarrow> 'f \<Rightarrow> string list \<Rightarrow> 't IniConfig \<Rightarrow> bool \<times> 't IniConfig" where
  "load_first p fs [] ini = (False, ini)"
| "load_first p fs (path # paths) ini =
     (case Load p fs path ini of
        Inr ini \<Rightarrow> (True, ini)
      | Inl err \<Rightarrow> load_first p fs paths ini)"

definition LoadConfig :: "('t, 'f) ptree_ops \<Rightarrow> 'f \<Rightarrow> 't IniConfig \<Rightarrow> bool \<times> 't IniConfig" where
  "LoadConfig p fs ini = load_first p fs config_paths ini"

subsection \<open>Reading back what was set\<close>

lemma uint_is_int [simp]: "is_int (uint (w :: u16))"
proof -
  have "- 2147483648 \<le> uint w" using uint_nonnegative [of w] by linarith
  then show ?thesis using uint_bounded [of w] by (simp add: is_int_def)
qed

lemma ptree_okD:
  assumes "ptree_ok p"
  shows "pt_get_string p k (pt_put_string p k v t) = Some v"
    and "is_int i \<Longrightarrow> pt_get_int p k (pt_put_int p k i t) = Some i"
    and "pt_get_size p k (pt_put_size p k n t) = Some n"
    and "apart k k' \<Longrightarrow> same_values p k' (pt_put_string p k v t) t"
    and "apart k k' \<Longrightarrow> same_values p k' (pt_put_int p k i t) t"
    and "apart k k' \<Longrightarrow> same_values p k' (pt_put_size p k n t) t"
    and "first_key k' \<noteq> k \<Longrightarrow> same_values p k' (pt_erase p k t) t"
    and "pt_get_int p k t = Some i \<Longrightarrow> is_int i"
  using assms unfolding ptree_ok_def by simp_all

lemma gateway_keys_apart:
  "apart ''gateway.port'' ''gateway.ip''" "apart ''gateway.io_threads'' ''gateway.ip''"
  "apart ''gateway.max_conn'' ''gateway.ip''" "apart ''gateway.io_threads'' ''gateway.port''"
  "apart ''gateway.max_conn'' ''gateway.port''" "apart ''gateway.max_conn'' ''gateway.io_threads''"
  by (simp_all add: apart_def)

lemma FromIni_ToIni:
  assumes "ptree_ok p"
  shows "FromIni p (ToIni p cfg ini) = cfg"
proof -
  note put = ptree_okD(1-3) [OF assms] and
    other = ptree_okD(4-6) [OF assms, unfolded same_values_def, OF gateway_keys_apart(1)]
      ptree_okD(4-6) [OF assms, unfolded same_values_def, OF gateway_keys_apart(2)]
      ptree_okD(4-6) [OF assms, unfolded same_values_def, OF gateway_keys_apart(3)]
      ptree_okD(4-6) [OF assms, unfolded same_values_def, OF gateway_keys_apart(4)]
      ptree_okD(4-6) [OF assms, unfolded same_values_def, OF gateway_keys_apart(5)]
      ptree_okD(4-6) [OF assms, unfolded same_values_def, OF gateway_keys_apart(6)]
  show ?thesis
    by (simp add: FromIni_def ToIni_def Set_def Get_def Let_def put other)
qed

text \<open>\<^verbatim>\<open>Remove\<close> takes its argument for the name of a section, not for a path as the other members do.\<close>

lemma first_key_dotted: "first_key k \<noteq> k" if "CHR ''.'' \<in> set k"
proof
  assume "first_key k = k"
  then have "\<forall>c \<in> set k. c \<noteq> CHR ''.''" by (simp add: first_key_def takeWhile_eq_all_conv)
  then show False using that by blast
qed

lemma Remove_dotted:
  assumes "ptree_ok p" and "CHR ''.'' \<in> set k"
  shows "same_values p k (ic_tree (Remove p k ini)) (ic_tree ini)"
  using ptree_okD(7) [OF assms(1) first_key_dotted [OF assms(2)]] by (simp add: Remove_def)

lemma load_first_spec:
  "load_first p fs paths ini =
     (case List.map_filter (\<lambda>path. case pt_read_ini p fs path of Inl _ \<Rightarrow> None | Inr t \<Rightarrow> Some (path, t)) paths of
        [] \<Rightarrow> (False, ini)
      | (path, t) # _ \<Rightarrow> (True, ini\<lparr>ic_tree := t, ic_file_path := path\<rparr>))"
  by (induction paths) (auto simp: Load_def List.map_filter_simps split: sum.splits)

end
