(* ===== verification/MetricsEndpoint.thy ===== *)
theory MetricsEndpoint
  imports Metrics
begin

text \<open>
  The metrics endpoint of the game server (\<^verbatim>\<open>MetricsServer.cc\<close>): an acceptor with a thread of its own
  that answers every request with the rendered metrics over HTTP/1.1. Sockets are events: the bytes
  of a request that have arrived, whether a bind succeeded, whether the handler that \<^verbatim>\<open>Stop\<close> posts still
  ran before the thread was told to stop. The answer is checked against a reader written from the HTTP
  message format: a client that reads header lines up to the empty line and then as many bytes as
  \<^verbatim>\<open>Content-Length\<close> says gets the rendered metrics, all of them and nothing else.
\<close>

subsection \<open>State and operations\<close>

datatype acceptor = NoAcceptor | Listening | AcceptorClosed

record MetricsServer =
  ms_port :: u16
  ms_acceptor :: acceptor
  ms_accepting :: bool
  ms_thread :: bool
  ms_stopping :: bool

definition MetricsServer_new :: "u16 \<Rightarrow> MetricsServer" where
  "MetricsServer_new port =
     \<lparr>ms_port = port, ms_acceptor = NoAcceptor, ms_accepting = False, ms_thread = False, ms_stopping = True\<rparr>"

text \<open>\<^verbatim>\<open>DoAccept\<close> starts an \<^verbatim>\<open>async_accept\<close>; \<open>ms_accepting\<close> says that one is pending.\<close>

definition MetricsServer_DoAccept :: "MetricsServer \<Rightarrow> MetricsServer" where
  "MetricsServer_DoAccept m =
     (if ms_stopping m \<or> ms_acceptor m = NoAcceptor then m else m\<lparr>ms_accepting := True\<rparr>)"

text \<open>\<^verbatim>\<open>Start\<close>, where \<open>bound\<close> is the outcome of the bind: an endpoint that cannot be bound is only reported.
  The result is \<open>None\<close> when the thread of an earlier start still runs: assigning to a joinable
  \<^verbatim>\<open>std::thread\<close> terminates the process.\<close>

definition MetricsServer_Start :: "bool \<Rightarrow> MetricsServer \<Rightarrow> MetricsServer option" where
  "MetricsServer_Start bound m =
     (let m = m\<lparr>ms_stopping := False\<rparr>
      in if \<not> bound then Some (m\<lparr>ms_acceptor := NoAcceptor\<rparr>)
         else if ms_thread m then None
         else Some (MetricsServer_DoAccept (m\<lparr>ms_acceptor := Listening, ms_thread := True\<rparr>)))"

definition MetricsServer_Stop :: "bool \<Rightarrow> MetricsServer \<Rightarrow> MetricsServer" where
  "MetricsServer_Stop handler_ran m =
     (if ms_stopping m then m
      else m\<lparr>ms_stopping := True, ms_thread := False, ms_accepting := False,
             ms_acceptor := (if handler_ran \<and> ms_acceptor m = Listening then AcceptorClosed else ms_acceptor m)\<rparr>)"

text \<open>The response: headers in the order of the code, then the body.\<close>

definition crlf :: string where "crlf = [CHR 0x0D, CHR 0x0A]"

definition metrics_response :: "string \<Rightarrow> string" where
  "metrics_response body =
     ''HTTP/1.1 200 OK'' @ crlf @
     ''Content-Type: text/plain; version=0.0.4'' @ crlf @
     ''Content-Length: '' @ to_string (length body) @ crlf @
     ''Connection: close'' @ crlf @ crlf @ body"

fun contains :: "string \<Rightarrow> string \<Rightarrow> bool" where
  "contains pat [] \<longleftrightarrow> pat = []"
| "contains pat (c # cs) \<longleftrightarrow> take (length pat) (c # cs) = pat \<or> contains pat cs"

text \<open>\<^verbatim>\<open>HandleConn\<close> on the bytes that have arrived, and whether the stream has ended or failed: as soon as
  \<^verbatim>\<open>async_read_until\<close> completes, with success or not, the metrics of that moment are sent and the
  connection is closed. \<open>None\<close> while the request is incomplete.\<close>

definition HandleConn :: "string \<Rightarrow> bool \<Rightarrow> Metrics \<Rightarrow> string option" where
  "HandleConn request ended m =
     (if contains (crlf @ crlf) request \<or> ended then Some (metrics_response (Render m)) else None)"

text \<open>The completion handler of \<^verbatim>\<open>async_accept\<close>: a connection is handled, if there is one, and the next
  one awaited.\<close>

definition on_metrics_accept :: "bool \<Rightarrow> MetricsServer \<Rightarrow> bool \<times> MetricsServer" where
  "on_metrics_accept accepted m =
     (let m = m\<lparr>ms_accepting := False\<rparr>
      in (accepted, if ms_stopping m then m else MetricsServer_DoAccept m))"

text \<open>The events of the endpoint's thread and of the thread that owns it.\<close>

inductive metrics_step :: "MetricsServer \<Rightarrow> MetricsServer \<Rightarrow> bool" where
  metrics_start: "ms_stopping m \<Longrightarrow> MetricsServer_Start bound m = Some m' \<Longrightarrow> metrics_step m m'"
| metrics_accept: "ms_accepting m \<Longrightarrow> metrics_step m (snd (on_metrics_accept accepted m))"
| metrics_stop: "metrics_step m (MetricsServer_Stop handler_ran m)"

text \<open>The thread runs only between start and stop, and as long as it runs a connection is awaited.\<close>

definition metrics_ok :: "MetricsServer \<Rightarrow> bool" where
  "metrics_ok m \<longleftrightarrow>
     (ms_thread m \<longrightarrow> \<not> ms_stopping m \<and> ms_acceptor m = Listening \<and> ms_accepting m) \<and>
     (ms_accepting m \<longrightarrow> ms_thread m)"

lemma metrics_ok_new: "metrics_ok (MetricsServer_new port)"
  by (simp add: metrics_ok_def MetricsServer_new_def)

lemma metrics_ok_step: "metrics_step m m' \<Longrightarrow> metrics_ok m \<Longrightarrow> metrics_ok m'"
  by (induction rule: metrics_step.induct)
     (auto simp: metrics_ok_def MetricsServer_Start_def MetricsServer_Stop_def MetricsServer_DoAccept_def
       on_metrics_accept_def Let_def split: if_splits)

lemma metrics_ok_run: "metrics_step\<^sup>*\<^sup>* (MetricsServer_new port) m \<Longrightarrow> metrics_ok m"
  by (induction rule: rtranclp_induct) (auto intro: metrics_ok_new metrics_ok_step)

text \<open>In such a state \<^verbatim>\<open>Start\<close> does not terminate the process.\<close>

lemma Start_safe: "metrics_ok m \<Longrightarrow> ms_stopping m \<Longrightarrow> MetricsServer_Start bound m \<noteq> None"
  by (auto simp: MetricsServer_Start_def metrics_ok_def Let_def)

subsection \<open>Numbers in decimal\<close>

definition is_digit :: "char \<Rightarrow> bool" where
  "is_digit c \<longleftrightarrow> 48 \<le> (of_char c :: nat) \<and> (of_char c :: nat) \<le> 57"

definition read_nat :: "string \<Rightarrow> nat" where
  "read_nat s = foldl (\<lambda>n c. 10 * n + (of_char c - 48)) 0 s"

lemma of_char_digit: "d < 10 \<Longrightarrow> of_char (char_of (48 + d)) = (48 + d :: nat)"
  by (simp add: of_char_of)

lemma to_string_digits: "list_all is_digit (to_string n)"
proof (induction n rule: to_string.induct)
  case (1 n)
  have "n mod 10 < 10" by simp
  then have "is_digit (char_of (48 + n mod 10))" using of_char_digit [of "n mod 10"] by (simp add: is_digit_def)
  moreover have "is_digit (char_of (48 + n))" if "n < 10" using of_char_digit [OF that] that by (simp add: is_digit_def)
  ultimately show ?case using 1 by (subst to_string.simps) simp
qed

lemma read_nat_to_string: "read_nat (to_string n) = n"
proof (induction n rule: to_string.induct)
  case (1 n)
  have "n mod 10 < 10" by simp
  then have m: "of_char (char_of (48 + n mod 10)) = (48 + n mod 10 :: nat)" by (rule of_char_digit)
  show ?case
  proof (cases "n < 10")
    case True
    then show ?thesis using of_char_digit [OF True] by (subst to_string.simps) (simp add: read_nat_def)
  next
    case False
    then show ?thesis using 1 m by (subst to_string.simps) (simp add: read_nat_def)
  qed
qed

subsection \<open>A reader of HTTP responses\<close>

fun read_line :: "string \<Rightarrow> (string \<times> string) option" where
  "read_line (c # d # cs) =
     (if c = CHR 0x0D \<and> d = CHR 0x0A then Some ([], cs)
      else map_option (\<lambda>(l, rest). (c # l, rest)) (read_line (d # cs)))"
| "read_line cs = None"

lemma read_line_shorter: "read_line cs = Some (l, rest) \<Longrightarrow> length rest < length cs"
  by (induction cs arbitrary: l rule: read_line.induct) (fastforce split: if_splits)+

function read_head :: "string \<Rightarrow> (string list \<times> string) option" where
  "read_head cs =
     (case read_line cs of
        None \<Rightarrow> None
      | Some (l, rest) \<Rightarrow>
          if l = [] then Some ([], rest) else map_option (\<lambda>(ls, body). (l # ls, body)) (read_head rest))"
  by pat_completeness auto
termination
  by (relation "measure length") (auto dest: read_line_shorter)

declare read_head.simps [simp del]

definition field :: "string \<Rightarrow> string \<Rightarrow> string option" where
  "field name line =
     (if take (length name + 2) line = name @ '': '' then Some (drop (length name + 2) line) else None)"

definition http_body :: "string \<Rightarrow> (string \<times> string) option" where
  "http_body response =
     (case read_head response of
        Some (status # headers, rest) \<Rightarrow>
          (case List.map_filter (field ''Content-Length'') headers of
             [n] \<Rightarrow> if list_all is_digit n \<and> n \<noteq> [] \<and> read_nat n = length rest then Some (status, rest) else None
           | _ \<Rightarrow> None)
      | _ \<Rightarrow> None)"

lemma read_line_append: "CHR 0x0D \<notin> set l \<Longrightarrow> read_line (l @ crlf @ rest) = Some (l, rest)"
proof (induction l)
  case Nil
  then show ?case by (simp add: crlf_def)
next
  case (Cons c l)
  then have IH: "read_line (l @ crlf @ rest) = Some (l, rest)" by simp
  obtain d cs where d: "l @ crlf @ rest = d # cs" by (cases l) (auto simp: crlf_def)
  show ?case using Cons.prems IH d by auto
qed

lemma read_head_append:
  "l \<noteq> [] \<Longrightarrow> CHR 0x0D \<notin> set l \<Longrightarrow>
     read_head (l @ crlf @ rest) = map_option (\<lambda>(ls, body). (l # ls, body)) (read_head rest)"
  by (subst read_head.simps) (simp add: read_line_append)

lemma read_head_end: "read_head (crlf @ rest) = Some ([], rest)"
  using read_line_append [of "[]" rest] by (subst read_head.simps) simp

lemma digits_no_cr: "list_all is_digit s \<Longrightarrow> CHR 0x0D \<notin> set s"
  by (auto simp: list_all_iff is_digit_def)

lemma to_string_nonempty: "to_string n \<noteq> []"
  by (subst to_string.simps) simp

lemma http_body_response: "http_body (metrics_response body) = Some (''HTTP/1.1 200 OK'', body)"
proof -
  let ?n = "to_string (length body)"
  have n: "CHR 0x0D \<notin> set ?n" "list_all is_digit ?n" "?n \<noteq> []" "read_nat ?n = length body"
    using digits_no_cr to_string_digits to_string_nonempty read_nat_to_string by blast+
  have "read_head (metrics_response body) =
      Some ([''HTTP/1.1 200 OK'', ''Content-Type: text/plain; version=0.0.4'', ''Content-Length: '' @ ?n,
             ''Connection: close''], body)"
    using read_head_append [of "''HTTP/1.1 200 OK''"] read_head_append [of "''Content-Type: text/plain; version=0.0.4''"]
      read_head_append [of "''Content-Length: '' @ ?n"] read_head_append [of "''Connection: close''"]
      read_head_end [of body] n(1)
    by (simp add: metrics_response_def del: append_Cons)
  then show ?thesis using n by (simp add: http_body_def field_def List.map_filter_simps)
qed

end
