(* ===== verification/EntryPoints.thy ===== *)
theory EntryPoints
  imports Config MetricsEndpoint GameServer Gate
begin

text \<open>
  The entry points of the two servers (\<^verbatim>\<open>GameServerMain.cc\<close>, \<^verbatim>\<open>GateServerMain.cc\<close>), the singleton that holds
  the logic router (\<^verbatim>\<open>Singleton.h\<close>) and the network router (\<^verbatim>\<open>NetworkRouter.cc\<close>). A \<^verbatim>\<open>main\<close> blocks between
  start-up and signal, so it is two functions: start-up, which ends in an exit code or in running
  servers, and the shutdown after the signal. The operating system's answers, whether an address can
  be listened on, are arguments.
\<close>

datatype 'a outcome = Exits int | Terminates | Runs 'a

definition IniConfig_new :: "'t \<Rightarrow> 't IniConfig" where
  "IniConfig_new tree0 = \<lparr>ic_tree = tree0, ic_file_path = []\<rparr>"

subsection \<open>The game server\<close>

definition GameServer_main_start ::
  "('t, 'f) ptree_ops \<Rightarrow> 'f \<Rightarrow> 't \<Rightarrow> (string \<Rightarrow> u16 \<Rightarrow> bool) \<Rightarrow> (u16 \<Rightarrow> bool) \<Rightarrow>
   (u16 \<times> GameServer \<times> MetricsServer) outcome" where
  "GameServer_main_start p fs tree0 can_listen can_bind =
     (let ini = snd (LoadConfig p fs (IniConfig_new tree0));
          port_value = Get (pt_get_int p) ''GameServer.port'' 50051 ini
      in if port_value \<le> 0 \<or> 65535 < port_value then Exits 1
         else
           let listen_ip = Get (pt_get_string p) ''GameServer.listen_ip'' ''0.0.0.0'' ini;
               logic_shards = Get (pt_get_size p) ''GameServer.logic_shards'' (of_nat WORK_SHARD_NUMBER) ini;
               network_shards = Get (pt_get_size p) ''GameServer.network_shards'' 1 ini;
               default_gateway_links = of_nat (WORK_SHARD_NUMBER * GAMESERVER_CONN_CNT);
               gateway_links = Get (pt_get_size p) ''GameServer.gateway_link_count'' default_gateway_links ini;
               port = word_of_int port_value
           in case GameServer_new logic_shards (unat network_shards) (unat gateway_links) of
                Inl _ \<Rightarrow> Exits 1
              | Inr server \<Rightarrow>
                  if \<not> can_listen listen_ip port then Exits 1
                  else
                    let metrics_port = word_of_int (Get (pt_get_int p) ''GameServer.metrics_port'' 9100 ini)
                    in case MetricsServer_Start (can_bind metrics_port) (MetricsServer_new metrics_port) of
                         None \<Rightarrow> Terminates
                       | Some metrics \<Rightarrow> Runs (port, GameServer_Start server, metrics))"

text \<open>After the signal handler ran (or was called with an error) both are stopped once more.\<close>

definition GameServer_main_stop ::
  "bool \<Rightarrow> bool \<Rightarrow> GameServer \<times> MetricsServer \<Rightarrow> int \<times> GameServer \<times> MetricsServer" where
  "GameServer_main_stop signalled handler_ran both =
     (let (server, metrics) = both;
          (server, metrics) =
            (if signalled then (GameServer_Stop server, MetricsServer_Stop handler_ran metrics) else (server, metrics))
      in (0, GameServer_Stop server, MetricsServer_Stop handler_ran metrics))"

subsection \<open>The gate server\<close>

text \<open>The \<^verbatim>\<open>Cserver\<close> constructor binds the port and throws when it cannot.\<close>

definition GateServer_main_start ::
  "('t, 'f) ptree_ops \<Rightarrow> 'f \<Rightarrow> 't \<Rightarrow> (u16 \<Rightarrow> bool) \<Rightarrow> int \<Rightarrow> string \<Rightarrow> (u16 \<times> Gate) outcome" where
  "GateServer_main_start p fs tree0 can_bind now uuid =
     (let ini = snd (LoadConfig p fs (IniConfig_new tree0));
          port_value = Get (pt_get_int p) ''GateServer.port'' 8888 ini
      in if port_value \<le> 0 \<or> 65535 < port_value then Exits 1
         else
           let port = word_of_int port_value
           in if \<not> can_bind port then Exits 1 else Runs (port, Cserver_start now uuid Gate_new))"

definition GateServer_main_stop :: "bool \<Rightarrow> Gate \<Rightarrow> int \<times> Gate" where
  "GateServer_main_stop signalled server = (0, Cserver_stop (if signalled then Cserver_stop server else server))"

subsection \<open>The singleton and the network router\<close>

record 'a Singleton =
  sg_flag :: bool
  sg_instance :: "'a option"

definition Singleton_init :: "'a Singleton" where
  "Singleton_init = \<lparr>sg_flag = False, sg_instance = None\<rparr>"

definition Getinstance :: "'a \<Rightarrow> 'a Singleton \<Rightarrow> 'a option \<times> 'a Singleton" where
  "Getinstance fresh s =
     (let s = (if sg_flag s then s else s\<lparr>sg_flag := True, sg_instance := Some fresh\<rparr>)
      in (sg_instance s, s))"

definition GetAddress :: "'a Singleton \<Rightarrow> 'a option" where
  "GetAddress s = sg_instance s"

lemma Getinstance_same:
  "fst (Getinstance y (snd (Getinstance x s))) = fst (Getinstance x s)"
  "snd (Getinstance y (snd (Getinstance x s))) = snd (Getinstance x s)"
  "GetAddress (snd (Getinstance x s)) = fst (Getinstance x s)"
  by (simp_all add: Getinstance_def GetAddress_def Let_def)

type_synonym network_handlers = "(MsgId, NetworkTask \<Rightarrow> NetworkShard \<Rightarrow> NetworkShard) umap"

definition NetworkRouter_Init :: "network_handlers \<Rightarrow> network_handlers" where
  "NetworkRouter_Init handlers = handlers"

definition NetworkRouter_Register ::
  "MsgId \<Rightarrow> (NetworkTask \<Rightarrow> NetworkShard \<Rightarrow> NetworkShard) \<Rightarrow> network_handlers \<Rightarrow> network_handlers" where
  "NetworkRouter_Register msg_id handler handlers = um_assign msg_id handler handlers"

definition NetworkRouter_HandleTask :: "network_handlers \<Rightarrow> NetworkTask \<Rightarrow> NetworkShard \<Rightarrow> NetworkShard" where
  "NetworkRouter_HandleTask handlers task shard =
     (case um_find handlers (nk_msg_id task) of None \<Rightarrow> shard | Some handler \<Rightarrow> handler task shard)"

lemma NetworkRouter_registered:
  "NetworkRouter_HandleTask (NetworkRouter_Register i h hs) task shard =
     (if nk_msg_id task = i then h task shard else NetworkRouter_HandleTask hs task shard)"
  by (simp add: NetworkRouter_HandleTask_def NetworkRouter_Register_def)

lemma NetworkRouter_empty: "NetworkRouter_HandleTask (NetworkRouter_Init []) task shard = shard"
  by (simp add: NetworkRouter_HandleTask_def NetworkRouter_Init_def)

subsection \<open>Start-up and shutdown\<close>

lemma port_cast:
  assumes "0 < v" and "v \<le> 65535"
  shows "uint (word_of_int v :: u16) = v"
  using assms by (simp add: uint_word_of_int)

lemma MetricsServer_Start_new:
  "\<exists>m. MetricsServer_Start bound (MetricsServer_new port) = Some m \<and> ms_port m = port \<and> metrics_ok m \<and>
     \<not> ms_stopping m \<and> (ms_thread m \<longleftrightarrow> bound)"
  by (auto simp: MetricsServer_Start_def MetricsServer_new_def MetricsServer_DoAccept_def metrics_ok_def Let_def)

lemma GameServer_new_Inr:
  "GameServer_new l n g = Inr s \<Longrightarrow>
     l \<noteq> 0 \<and> n \<noteq> 0 \<and> g \<noteq> 0 \<and> length (gs_logic_shards s) = unat l \<and> length (gs_network_shards s) = n \<and>
     (\<forall>shard \<in> set (gs_network_shards s). length (ns_slots shard) = g)"
  by (auto simp: GameServer_new_def NetworkShard_new_def split: if_splits)

lemma GameServer_new_zero: "(\<exists>err. GameServer_new l n g = Inl err) \<longleftrightarrow> l = 0 \<or> n = 0 \<or> g = 0"
  by (simp add: GameServer_new_def)

lemma slots_Start [simp]: "length (ns_slots (NetworkShard_Start n)) = length (ns_slots n)"
  by (simp add: NetworkShard_Start_def DoAccept_def set_slot_def Let_def split: option.split)

lemma stop_all:
  "GameServer_main_stop signalled handler_ran (s, m) = (0, GameServer_Stop s, MetricsServer_Stop handler_ran m)"
  by (auto simp: GameServer_main_stop_def GameServer_Stop_def MetricsServer_Stop_def)

lemma stop_gate: "GateServer_main_stop signalled g = (0, Cserver_stop g)"
  by (simp add: GateServer_main_stop_def Cserver_stop_def)

end
