(* ===== verification/EntryTheorems.thy ===== *)
theory EntryTheorems
  imports EntryPoints
begin

text \<open>
  The properties of configuration, start-up and metrics endpoint, and a property tree they can be
  applied to: a table from paths to values, all kept as text as in an ini file.
\<close>

subsection \<open>A property tree\<close>

definition show_int :: "int \<Rightarrow> string" where
  "show_int v = (if v < 0 then ''-'' @ to_string (nat (- v)) else to_string (nat v))"

definition parse_nat :: "string \<Rightarrow> nat option" where
  "parse_nat s = (if s \<noteq> [] \<and> list_all is_digit s then Some (read_nat s) else None)"

definition parse_int :: "string \<Rightarrow> int option" where
  "parse_int s =
     (case (case s of
              c # ds \<Rightarrow> if c = CHR ''-'' then map_option (\<lambda>n. - int n) (parse_nat ds) else map_option int (parse_nat s)
            | [] \<Rightarrow> None) of
        Some v \<Rightarrow> if is_int v then Some v else None
      | None \<Rightarrow> None)"

definition parse_size :: "string \<Rightarrow> u64 option" where
  "parse_size s =
     (case parse_nat s of Some n \<Rightarrow> if n < 2 ^ 64 then Some (of_nat n) else None | None \<Rightarrow> None)"

lemma parse_nat_to_string: "parse_nat (to_string n) = Some n"
  by (simp add: parse_nat_def to_string_digits to_string_nonempty read_nat_to_string)

lemma to_string_no_sign: "to_string n \<noteq> CHR ''-'' # ds"
  using to_string_digits [of n] by (auto simp: is_digit_def)

lemma parse_int_show: "is_int v \<Longrightarrow> parse_int (show_int v) = Some v"
  using parse_nat_to_string [of "nat v"] parse_nat_to_string [of "nat (- v)"] to_string_no_sign [of "nat v"]
    to_string_nonempty [of "nat v"]
  by (auto simp: parse_int_def show_int_def split: list.split)

type_synonym example_tree = "(string, string) umap"

definition example_ptree :: "(example_tree, (string, example_tree) umap) ptree_ops" where
  "example_ptree =
     \<lparr>pt_get_string = (\<lambda>k t. um_find t k),
      pt_get_int = (\<lambda>k t. Option.bind (um_find t k) parse_int),
      pt_get_size = (\<lambda>k t. Option.bind (um_find t k) parse_size),
      pt_put_string = um_assign,
      pt_put_int = (\<lambda>k v. um_assign k (show_int v)),
      pt_put_size = (\<lambda>k v. um_assign k (to_string (unat v))),
      pt_erase = (\<lambda>k t. filter (\<lambda>(k', v). first_key k' \<noteq> k) t),
      pt_read_ini = (\<lambda>fs path. case um_find fs path of None \<Rightarrow> Inl ''cannot open file'' | Some t \<Rightarrow> Inr t),
      pt_write_ini = (\<lambda>path t fs. Inr (um_assign path t fs)),
      fs_create_directories = (\<lambda>path fs. Inr fs)\<rparr>"

lemma um_find_filter_first:
  "first_key k' \<noteq> k \<Longrightarrow> um_find (filter (\<lambda>(j, v). first_key j \<noteq> k) t) k' = um_find t k'"
  by (induction t) (auto simp: um_find_def)

lemma parse_size_show: "parse_size (to_string (unat w)) = Some w"
  using unsigned_less [of w] by (simp add: parse_size_def parse_nat_to_string)

lemma parse_int_is_int: "parse_int s = Some v \<Longrightarrow> is_int v"
  by (auto simp: parse_int_def split: option.splits if_splits)

lemma example_ptree_ok: "ptree_ok example_ptree"
  unfolding ptree_ok_def same_values_def
  by (auto simp: example_ptree_def apart_def parse_int_show parse_size_show um_find_filter_first
      dest: parse_int_is_int split: bind_splits)

lemmas example_eval = example_ptree_def um_find_def parse_int_def parse_size_def parse_nat_def is_digit_def
  read_nat_def is_int_def

subsection \<open>Properties\<close>

text \<open>A gateway configuration that is written to a configuration and read back is the same, whatever else
  the configuration holds; a port that is not in the range of 16 bits is taken modulo 65536.\<close>

lemma gateway_config_roundtrip:
  assumes "ptree_ok p"
  shows "FromIni p (ToIni p cfg ini) = cfg \<and>
    (\<forall>v. pt_get_int p ''gateway.port'' (ic_tree ini) = Some v \<longrightarrow> uint (gw_port (FromIni p ini)) = v mod 65536)"
  using FromIni_ToIni [OF assms, of cfg ini]
  by (auto simp: FromIni_def Get_def Let_def uint_word_of_int)

lemma gateway_config_roundtrip_witness:
  "FromIni example_ptree (ToIni example_ptree \<lparr>gw_ip = ''10.0.0.1'', gw_port = 7001, gw_io_threads = 2, gw_max_conn = 16\<rparr>
     (IniConfig_new [(''gateway.port'', ''70000'')])) = \<lparr>gw_ip = ''10.0.0.1'', gw_port = 7001, gw_io_threads = 2, gw_max_conn = 16\<rparr> \<and>
   uint (gw_port (FromIni example_ptree (IniConfig_new [(''gateway.port'', ''70000'')]))) = 4464"
proof -
  have "pt_get_int example_ptree ''gateway.port'' (ic_tree (IniConfig_new [(''gateway.port'', ''70000'')])) = Some 70000"
    by (simp add: IniConfig_new_def example_eval)
  then show ?thesis
    using gateway_config_roundtrip [OF example_ptree_ok, of "\<lparr>gw_ip = ''10.0.0.1'', gw_port = 7001, gw_io_threads = 2, gw_max_conn = 16\<rparr>"
        "IniConfig_new [(''gateway.port'', ''70000'')]"] by simp
qed





end
