(* ===== verification/LoadTest.thy ===== *)
theory LoadTest
  imports GateProtocol
begin

unbundle bit_operations_syntax

text \<open>
  The load generator for the game server (\<^verbatim>\<open>tools/loadtest.cc\<close>). It takes the place of a gate: every
  connection drives many virtual players, each alone in a room. The code each tool needs of the
  generated messages is a \<open>tool_codec\<close>, an argument of the definitions: what \<^verbatim>\<open>SerializeToString\<close> yields for
  the requests and what the parsers yield for the answers, as far as the tools read them. The reader
  thread and the driver thread of a connection meet under \<^verbatim>\<open>state_mtx\<close> only, so a run is an interleaving of
  packets handled and driver iterations (\<open>load_step\<close>). The clock is in nanoseconds. The averages that are
  printed at the end are not modelled: they are sums of doubles; which rooms they count is.
\<close>

subsection \<open>Messages\<close>

record SnapshotView =
  sv_server_tick :: u64
  sv_units :: "u64 list"
  sv_buildings :: "(u64 \<times> u32) list"
  sv_fields :: "u64 list"

record tool_codec =
  tc_hello :: "u32 \<Rightarrow> byte list"
  tc_ping :: "u64 \<Rightarrow> byte list"
  tc_login :: "string \<Rightarrow> string \<Rightarrow> byte list"
  tc_create_room :: "u32 \<Rightarrow> byte list"
  tc_player_ready :: "u64 \<Rightarrow> bool \<Rightarrow> byte list"
  tc_move :: "u64 \<Rightarrow> u64 list \<Rightarrow> Vec3f \<Rightarrow> byte list"
  tc_harvest :: "u64 \<Rightarrow> u64 \<Rightarrow> u64 list \<Rightarrow> byte list"
  tc_train :: "u64 \<Rightarrow> u64 \<Rightarrow> u32 \<Rightarrow> byte list"
  tc_envelope :: "Envelope \<Rightarrow> byte list"
  tc_pong :: "byte list \<Rightarrow> u64 option"
  tc_game_to_gate :: "byte list \<Rightarrow> GameToGate option"
  tc_create_rsp :: "byte list \<Rightarrow> u64 option"
  tc_snapshot :: "byte list \<Rightarrow> SnapshotView option"
  tc_delta :: "byte list \<Rightarrow> u64 option"

subsection \<open>Framing\<close>

definition PutBE16 :: "byte list \<Rightarrow> u16 \<Rightarrow> byte list" where
  "PutBE16 b v = b @ [ucast (drop_bit 8 v AND 0xFF)] @ [ucast (v AND 0xFF)]"

definition PutBE32 :: "byte list \<Rightarrow> u32 \<Rightarrow> byte list" where
  "PutBE32 b v =
     b @ [ucast (drop_bit 24 v AND 0xFF)] @ [ucast (drop_bit 16 v AND 0xFF)] @
     [ucast (drop_bit 8 v AND 0xFF)] @ [ucast (v AND 0xFF)]"

definition Frame :: "u16 \<Rightarrow> byte list \<Rightarrow> byte list" where
  "Frame msg_id body =
     (let out = PutBE16 [] kPacketMagic;
          out = PutBE16 out msg_id;
          out = PutBE16 out 0;
          out = PutBE32 out (of_nat (length body))
      in out @ body)"

definition tool_envelope :: "u64 \<Rightarrow> u64 \<Rightarrow> u16 \<Rightarrow> byte list \<Rightarrow> Envelope" where
  "tool_envelope uid room_id inner_msg_id inner =
     \<lparr>ge_uid = uid, ge_session_id = 0, ge_room_id = room_id, ge_inner_msg_id = ucast inner_msg_id,
      ge_client_seq = 0, ge_client_tick = 0, ge_payload = inner\<rparr>"

definition Enveloped :: "tool_codec \<Rightarrow> u64 \<Rightarrow> u64 \<Rightarrow> u16 \<Rightarrow> byte list \<Rightarrow> byte list" where
  "Enveloped tc uid room_id inner_msg_id inner =
     Frame GateToGameEnvelope (tc_envelope tc (tool_envelope uid room_id inner_msg_id inner))"

subsection \<open>State\<close>

record RoomState =
  rm_room_id :: u64
  rm_phase :: int
  rm_units :: "u64 list"
  rm_first_tick :: u64
  rm_last_tick :: u64
  rm_first_t :: u64
  rm_last_t :: u64
  rm_field_id :: u64
  rm_crystal_id :: u64
  rm_economy_started :: bool

definition RoomState_default :: RoomState where
  "RoomState_default =
     \<lparr>rm_room_id = 0, rm_phase = 0, rm_units = [], rm_first_tick = 0, rm_last_tick = 0, rm_first_t = 0,
      rm_last_t = 0, rm_field_id = 0, rm_crystal_id = 0, rm_economy_started = False\<rparr>"

text \<open>A connection; \<open>cn_socket_ok\<close> says whether writing to the socket succeeds, \<open>cn_reading\<close> whether its reader has
  passed the check of the flag and waits for a packet, \<open>cn_out\<close> are the packets written. The counters and
  the flag of the process are shared by all connections.\<close>

record Conn =
  cn_socket_ok :: bool
  cn_reading :: bool
  cn_out :: "byte list list"
  cn_rooms :: "(u64, RoomState) umap"
  cn_uids :: "u64 list"

record Totals =
  tt_sent :: u64
  tt_recv :: u64
  tt_recv_bytes :: u64
  tt_running :: bool
  tt_lat_ns :: "u64 list"

type_synonym load = "Conn \<times> Totals"

definition Conn_new :: Conn where
  "Conn_new = \<lparr>cn_socket_ok = True, cn_reading = False, cn_out = [], cn_rooms = [], cn_uids = []\<rparr>"

definition Totals_new :: Totals where
  "Totals_new = \<lparr>tt_sent = 0, tt_recv = 0, tt_recv_bytes = 0, tt_running = True, tt_lat_ns = []\<rparr>"

text \<open>The connections of the process, opened one after the other; the first that fails ends it.\<close>

fun open_conns :: "bool list \<Rightarrow> Conn list option" where
  "open_conns [] = Some []"
| "open_conns (ok # oks) = (if ok then map_option ((#) Conn_new) (open_conns oks) else None)"

definition SendRaw :: "byte list \<Rightarrow> load \<Rightarrow> load" where
  "SendRaw packet s =
     (let (c, g) = s
      in if cn_socket_ok c then (c\<lparr>cn_out := cn_out c @ [packet]\<rparr>, g\<lparr>tt_sent := tt_sent g + 1\<rparr>) else (c, g))"

text \<open>\<^verbatim>\<open>c.rooms[uid]\<close>, which inserts a default room when there is none.\<close>

definition room_at :: "u64 \<Rightarrow> Conn \<Rightarrow> RoomState" where
  "room_at uid c = (case um_find (cn_rooms c) uid of Some st \<Rightarrow> st | None \<Rightarrow> RoomState_default)"

definition on_room :: "u64 \<Rightarrow> (RoomState \<Rightarrow> RoomState) \<Rightarrow> Conn \<Rightarrow> Conn" where
  "on_room uid f c = c\<lparr>cn_rooms := um_assign uid (f (room_at uid c)) (cn_rooms c)\<rparr>"

subsection \<open>The reader\<close>

definition mark_tick :: "u64 \<Rightarrow> u64 \<Rightarrow> RoomState \<Rightarrow> RoomState" where
  "mark_tick now tick st =
     (let st = (if rm_first_tick st = 0 then st\<lparr>rm_first_tick := tick, rm_first_t := now\<rparr> else st)
      in st\<lparr>rm_last_tick := tick, rm_last_t := now\<rparr>)"

definition first_crystal :: "(u64 \<times> u32) list \<Rightarrow> u64 option" where
  "first_crystal buildings =
     (case filter (\<lambda>(i, t). t = kBuildingCrystal) buildings of [] \<Rightarrow> None | (i, t) # _ \<Rightarrow> Some i)"

definition on_snapshot :: "u64 \<Rightarrow> SnapshotView \<Rightarrow> RoomState \<Rightarrow> RoomState" where
  "on_snapshot now snap st =
     (let st = st\<lparr>rm_units := sv_units snap\<rparr>;
          st = (if rm_field_id st = 0 \<and> sv_fields snap \<noteq> [] then st\<lparr>rm_field_id := hd (sv_fields snap)\<rparr> else st);
          st = (if rm_crystal_id st = 0
                then case first_crystal (sv_buildings snap) of None \<Rightarrow> st | Some i \<Rightarrow> st\<lparr>rm_crystal_id := i\<rparr>
                else st);
          st = (if rm_units st \<noteq> [] then st\<lparr>rm_phase := 2\<rparr> else st)
      in mark_tick now (sv_server_tick snap) st)"

definition on_created :: "tool_codec \<Rightarrow> u64 \<Rightarrow> u64 \<Rightarrow> load \<Rightarrow> load" where
  "on_created tc uid room_id s =
     (let (c, g) = s;
          c = on_room uid (\<lambda>st. st) c
      in if rm_phase (room_at uid c) \<noteq> 0 \<or> room_id = 0 then (c, g)
         else
           SendRaw (Enveloped tc uid room_id PlayerReadyReq (tc_player_ready tc room_id True))
             (on_room uid (\<lambda>st. st\<lparr>rm_room_id := room_id, rm_phase := 1\<rparr>) c, g))"

definition on_pong :: "tool_codec \<Rightarrow> u64 \<Rightarrow> byte list \<Rightarrow> load \<Rightarrow> load" where
  "on_pong tc now body s =
     (let (c, g) = s
      in case tc_pong tc body of
           None \<Rightarrow> (c, g)
         | Some token \<Rightarrow> if token < now then (c, g\<lparr>tt_lat_ns := tt_lat_ns g @ [now - token]\<rparr>) else (c, g))"

definition on_envelope :: "tool_codec \<Rightarrow> u64 \<Rightarrow> byte list \<Rightarrow> load \<Rightarrow> load" where
  "on_envelope tc now body s =
     (case tc_game_to_gate tc body of
        None \<Rightarrow> s
      | Some env \<Rightarrow>
          (case gg_target_uids env of
             [] \<Rightarrow> s
           | uid # _ \<Rightarrow>
               let inner = ucast (gg_inner_msg_id env) :: MsgId;
                   (c, g) = s
               in if inner = CreateRoomRsp then
                    case tc_create_rsp tc (gg_payload env) of None \<Rightarrow> s | Some room_id \<Rightarrow> on_created tc uid room_id s
                  else if inner = SnapshotNtf then
                    case tc_snapshot tc (gg_payload env) of
                      None \<Rightarrow> s | Some snap \<Rightarrow> (on_room uid (on_snapshot now snap) c, g)
                  else if inner = WorldDeltaNtf then
                    case tc_delta tc (gg_payload env) of
                      None \<Rightarrow> s | Some tick \<Rightarrow> (on_room uid (mark_tick now tick) c, g)
                  else s))"

text \<open>A packet after it was read: the two counters, then the message.\<close>

definition Reader_packet :: "tool_codec \<Rightarrow> u64 \<Rightarrow> u16 \<times> byte list \<Rightarrow> load \<Rightarrow> load" where
  "Reader_packet tc now packet s =
     (let (msg_id, body) = packet;
          (c, g) = s;
          g = g\<lparr>tt_recv := tt_recv g + 1, tt_recv_bytes := tt_recv_bytes g + of_nat (kPacketHeaderLen + length body)\<rparr>
      in if msg_id = PongRsp then on_pong tc now body (c, g)
         else if msg_id \<noteq> GameToGateEnvelope then (c, g)
         else on_envelope tc now body (c, g))"

text \<open>The reads of \<^verbatim>\<open>Reader\<close> on the bytes that arrive: unlike the servers it accepts a body of any length.\<close>

function tool_read :: "byte list \<Rightarrow> (u16 \<times> byte list) list" where
  "tool_read bs =
     (if length bs < kPacketHeaderLen then []
      else
        let h = take kPacketHeaderLen bs;
            magic = get16 h 0;
            msg_id = get16 h 2;
            len = unat (get32 h 6);
            rest = drop kPacketHeaderLen bs
        in if magic \<noteq> kPacketMagic then []
           else if 0 < len \<and> length rest < len then []
           else (msg_id, take len rest) # tool_read (drop len rest))"
  by pat_completeness auto
termination
  by (relation "measure length") auto

declare tool_read.simps [simp del]

text \<open>The loop while \<^verbatim>\<open>g_running\<close> holds; \<open>clock k\<close> is the time at which packet \<open>k\<close> is handled.\<close>

definition Reader :: "tool_codec \<Rightarrow> (nat \<Rightarrow> u64) \<Rightarrow> byte list \<Rightarrow> load \<Rightarrow> load" where
  "Reader tc clock bs s = fold (\<lambda>(k, packet). Reader_packet tc (clock k) packet) (List.enumerate 0 (tool_read bs)) s"

subsection \<open>The driver\<close>

definition drive_create :: "tool_codec \<Rightarrow> u64 \<Rightarrow> load \<Rightarrow> load" where
  "drive_create tc uid s =
     (let (c, g) = s;
          c = c\<lparr>cn_uids := cn_uids c @ [uid]\<rparr>;
          c = c\<lparr>cn_rooms := um_assign uid RoomState_default (cn_rooms c)\<rparr>
      in SendRaw (Enveloped tc uid 0 CreateRoomReq (tc_create_room tc 1)) (c, g))"

definition DriveConn_start :: "tool_codec \<Rightarrow> u64 \<Rightarrow> nat \<Rightarrow> load \<Rightarrow> load" where
  "DriveConn_start tc base_uid rooms s =
     fold (\<lambda>i. drive_create tc (base_uid + of_nat i + 1)) [0..<rooms]
       (SendRaw (Frame GateLinkHello (tc_hello tc 1)) s)"

record Job =
  jb_uid :: u64
  jb_room_id :: u64
  jb_field_id :: u64
  jb_crystal_id :: u64
  jb_units :: "u64 list"
  jb_start_harvest :: bool

text \<open>The loop over \<^verbatim>\<open>c.rooms\<close>, a \<^verbatim>\<open>std::map\<close>: by ascending key.\<close>

definition collect_job :: "u64 \<Rightarrow> Job list \<times> Conn \<Rightarrow> Job list \<times> Conn" where
  "collect_job uid jc =
     (let (jobs, c) = jc;
          st = room_at uid c
      in if rm_phase st \<noteq> 2 \<or> rm_units st = [] then (jobs, c)
         else
           let start_harvest = (\<not> rm_economy_started st \<and> rm_field_id st \<noteq> 0);
               j = \<lparr>jb_uid = uid, jb_room_id = rm_room_id st, jb_field_id = rm_field_id st,
                    jb_crystal_id = rm_crystal_id st, jb_units = rm_units st, jb_start_harvest = start_harvest\<rparr>;
               c = (if start_harvest then on_room uid (\<lambda>st. st\<lparr>rm_economy_started := True\<rparr>) c else c)
           in (jobs @ [j], c))"

definition collect_jobs :: "Conn \<Rightarrow> Job list \<times> Conn" where
  "collect_jobs c = fold collect_job (sort (um_keys (cn_rooms c))) ([], c)"

definition harvest_packet :: "tool_codec \<Rightarrow> Job \<Rightarrow> byte list" where
  "harvest_packet tc j =
     Enveloped tc (jb_uid j) (jb_room_id j) HarvestCmd (tc_harvest tc (jb_room_id j) (jb_field_id j) (jb_units j))"

definition train_packet :: "tool_codec \<Rightarrow> Job \<Rightarrow> byte list" where
  "train_packet tc j =
     Enveloped tc (jb_uid j) (jb_room_id j) TrainUnitCmd (tc_train tc (jb_room_id j) (jb_crystal_id j) kUnitVillager)"

definition drive_job :: "tool_codec \<Rightarrow> bool \<Rightarrow> Job \<Rightarrow> load \<Rightarrow> load" where
  "drive_job tc do_train j s =
     (let s = (if jb_start_harvest j then SendRaw (harvest_packet tc j) s else s)
      in if do_train \<and> jb_crystal_id j \<noteq> 0 then SendRaw (train_packet tc j) s else s)"

text \<open>One turn of the driver's loop, with its number and the clock at the probe.\<close>

definition drive_iteration :: "tool_codec \<Rightarrow> nat \<Rightarrow> u64 \<Rightarrow> load \<Rightarrow> load" where
  "drive_iteration tc iter now s =
     (let (c, g) = s;
          do_train = (iter mod 10 = 0);
          (jobs, c) = collect_jobs c
      in SendRaw (Frame PingReq (tc_ping tc now)) (fold (drive_job tc do_train) jobs (c, g)))"

text \<open>The end of \<^verbatim>\<open>DriveConn\<close>: the flag is the process's, so the first driver to end stops every reader.\<close>

definition DriveConn_end :: "load \<Rightarrow> load" where
  "DriveConn_end s = (let (c, g) = s in (c\<lparr>cn_socket_ok := False\<rparr>, g\<lparr>tt_running := False\<rparr>))"

subsection \<open>The report\<close>

definition counted :: "RoomState \<Rightarrow> bool" where
  "counted st \<longleftrightarrow> rm_phase st = 2 \<and> rm_first_tick st < rm_last_tick st \<and> 500000000 < uint (rm_last_t st) - uint (rm_first_t st)"

text \<open>The number of rooms \<^verbatim>\<open>EffectiveTickHz\<close> reports as playing.\<close>

definition playing_rooms :: "Conn list \<Rightarrow> nat" where
  "playing_rooms conns = sum_list (map (\<lambda>c. length (filter (\<lambda>(uid, st). counted st) (cn_rooms c))) conns)"

text \<open>The players of connection \<open>i\<close> of the process.\<close>

definition conn_base_uid :: "nat \<Rightarrow> u64" where
  "conn_base_uid i = (of_nat i + 1) * 1000000"

definition conn_uids :: "nat \<Rightarrow> nat \<Rightarrow> u64 list" where
  "conn_uids i rooms = map (\<lambda>k. conn_base_uid i + of_nat k + 1) [0..<rooms]"

subsection \<open>Runs\<close>

text \<open>The condition of the reader's loop: only then it waits for the next packet, which it handles even if
  the flag is cleared meanwhile.\<close>

definition reader_check :: "load \<Rightarrow> load" where
  "reader_check s = (let (c, g) = s in (c\<lparr>cn_reading := tt_running g\<rparr>, g))"

definition reader_turn :: "tool_codec \<Rightarrow> u64 \<Rightarrow> u16 \<times> byte list \<Rightarrow> load \<Rightarrow> load" where
  "reader_turn tc now packet s = (let (c, g) = s in Reader_packet tc now packet (c\<lparr>cn_reading := False\<rparr>, g))"

inductive load_step :: "tool_codec \<Rightarrow> load \<Rightarrow> load \<Rightarrow> bool" for tc where
  load_check: "\<not> cn_reading (fst s) \<Longrightarrow> load_step tc s (reader_check s)"
| load_packet: "cn_reading (fst s) \<Longrightarrow> load_step tc s (reader_turn tc now packet s)"
| load_drive: "load_step tc s (drive_iteration tc iter now s)"
| load_end: "load_step tc s (DriveConn_end s)"

text \<open>The threads of all connections of the process.\<close>

inductive fleet_step :: "tool_codec \<Rightarrow> Conn list \<times> Totals \<Rightarrow> Conn list \<times> Totals \<Rightarrow> bool" for tc where
  fleet_conn: "i < length cs \<Longrightarrow> load_step tc (cs ! i, g) (c, g') \<Longrightarrow> fleet_step tc (cs, g) (cs[i := c], g')"

subsection \<open>The tool speaks the servers' format\<close>


lemma low_byte: "(ucast (w AND mask 8 :: 'a::len word) :: byte) = ucast w"
  by (rule bit_word_eqI) (auto simp: bit_simps dest: bit_imp_le_length)

lemma byte_masks: "(0xFF :: u16) = mask 8" "(0xFF :: u32) = mask 8"
  by (simp_all add: mask_eq_exp_minus_1)

lemma PutBE_put: "PutBE16 b v = b @ put16 v" "PutBE32 b w = b @ put32 w"
  unfolding PutBE16_def PutBE32_def put16_def put32_def byte_masks low_byte by simp_all

lemma Frame_wire:
  assumes "length body < 2 ^ 32"
  shows "Frame msg_id body = wire (msg_id, kPacketFlagNone, body)"
  using assms by (simp add: Frame_def wire_def SendNode_data PutBE_put)

text \<open>The tool reads back every packet the servers can frame.\<close>

lemma tool_read_wire:
  assumes "length p < 2 ^ 32"
  shows "tool_read (wire (msg_id, flags, p) @ rest) = (msg_id, p) # tool_read rest"
proof -
  let ?h = "put16 kPacketMagic @ put16 msg_id @ put16 flags @ put32 (of_nat (length p))"
  have "take kPacketHeaderLen (wire (msg_id, flags, p) @ rest) = ?h"
    using header_fields(5) assms by (simp add: wire_def SendNode_data)
  moreover have "kPacketHeaderLen \<le> length (wire (msg_id, flags, p) @ rest)"
    using assms by (simp add: wire_def SendNode_data)
  ultimately show ?thesis
    using header_fields(1-4) [of msg_id flags "of_nat (length p)"] drop_wire [OF assms, of msg_id flags rest] assms
    by (subst tool_read.simps) (simp add: Let_def unat_of_nat32 del: kPacketHeaderLen_def)
qed

lemma tool_read_Nil: "tool_read [] = []"
  by (subst tool_read.simps) simp

text \<open>A packet whose length fits the header.\<close>

definition framed :: "u16 \<times> u16 \<times> byte list \<Rightarrow> bool" where
  "framed m \<longleftrightarrow> length (snd (snd m)) < 2 ^ 32"

definition unflagged :: "u16 \<times> u16 \<times> byte list \<Rightarrow> u16 \<times> byte list" where
  "unflagged m = (case m of (msg_id, flags, p) \<Rightarrow> (msg_id, p))"

interpretation load_reader: packet_reader tool_read framed unflagged
  by unfold_locales (auto simp: tool_read_Nil tool_read_wire framed_def unflagged_def)

text \<open>A server reads the tool's packets if they respect the size limit.\<close>

lemma handle_read_Frame:
  assumes "msg_id \<noteq> 0" and "length body \<le> kMaxPacketBodyLen"
  shows "handle_read (Frame msg_id body @ rest) =
    \<lparr>rn_msg_id = msg_id, rn_flags = kPacketFlagNone, rn_data = body\<rparr> # handle_read rest"
  using assms handle_read_wire [of "(msg_id, kPacketFlagNone, body)" rest]
  by (simp add: Frame_wire sendable_def received_def kMaxPacketBodyLen_def)

subsection \<open>What the tool sends\<close>

text \<open>The header comment of the tool says that it streams move commands; it never sends one. Every packet is a
  hello, a ping or an envelope around one of four requests.\<close>

definition tool_requests :: "MsgId list" where
  "tool_requests = [CreateRoomReq, PlayerReadyReq, HarvestCmd, TrainUnitCmd]"

definition tool_packet :: "tool_codec \<Rightarrow> byte list \<Rightarrow> bool" where
  "tool_packet tc packet \<longleftrightarrow>
     (\<exists>body. packet = Frame GateLinkHello body) \<or> (\<exists>body. packet = Frame PingReq body) \<or>
     (\<exists>uid room_id inner body. inner \<in> set tool_requests \<and> packet = Enveloped tc uid room_id inner body)"

definition sent_ok :: "tool_codec \<Rightarrow> load \<Rightarrow> bool" where
  "sent_ok tc s \<longleftrightarrow> list_all (tool_packet tc) (cn_out (fst s))"

lemma sent_ok_SendRaw: "sent_ok tc s \<Longrightarrow> tool_packet tc packet \<Longrightarrow> sent_ok tc (SendRaw packet s)"
  by (auto simp: sent_ok_def SendRaw_def split: prod.split)

lemma sent_ok_same: "sent_ok tc s \<Longrightarrow> cn_out (fst t) = cn_out (fst s) \<Longrightarrow> sent_ok tc t"
  by (simp add: sent_ok_def)

lemma tool_packets:
  "tool_packet tc (Frame GateLinkHello body)" "tool_packet tc (Frame PingReq body)"
  "inner \<in> set tool_requests \<Longrightarrow> tool_packet tc (Enveloped tc uid room_id inner body)"
  unfolding tool_packet_def by blast+

lemma cn_out_on_room [simp]: "cn_out (on_room uid f c) = cn_out c"
  by (simp add: on_room_def)

lemma cn_out_collect_job: "cn_out (snd (collect_job uid jc)) = cn_out (snd jc)"
  by (simp add: collect_job_def Let_def split: prod.split)

lemma cn_out_collect_jobs: "cn_out (snd (collect_jobs c)) = cn_out c"
  using fold_constant [of _ "\<lambda>jc. cn_out (snd jc)" collect_job] cn_out_collect_job
  by (metis collect_jobs_def snd_conv)

lemma sent_ok_created: "sent_ok tc s \<Longrightarrow> sent_ok tc (on_created tc uid room_id s)"
  unfolding on_created_def Let_def
  by (auto split: prod.split intro!: sent_ok_SendRaw tool_packets(3) elim: sent_ok_same simp: tool_requests_def)

lemma sent_ok_packet: "sent_ok tc s \<Longrightarrow> sent_ok tc (Reader_packet tc now packet s)"
proof -
  assume s: "sent_ok tc s"
  have pong: "sent_ok tc (on_pong tc now body t)" if "sent_ok tc t" for body t
    using that by (auto simp: on_pong_def sent_ok_def split: prod.split option.split)
  have env: "sent_ok tc (on_envelope tc now body t)" if t: "sent_ok tc t" for body t
    using t sent_ok_created [OF t]
    by (auto simp: on_envelope_def Let_def sent_ok_def split: prod.split option.split list.split)
  show ?thesis
    unfolding Reader_packet_def Let_def using s
    by (auto split: prod.split intro!: pong env elim: sent_ok_same)
qed

lemma sent_ok_drive: "sent_ok tc s \<Longrightarrow> sent_ok tc (drive_iteration tc iter now s)"
proof -
  assume s: "sent_ok tc s"
  have job: "sent_ok tc (drive_job tc do_train j t)" if "sent_ok tc t" for do_train j t
    using that unfolding drive_job_def Let_def
    by (auto intro!: sent_ok_SendRaw tool_packets(3) simp: harvest_packet_def train_packet_def tool_requests_def)
  obtain jobs c where c: "collect_jobs (fst s) = (jobs, c)" by fastforce
  then have "sent_ok tc (c, snd s)" using cn_out_collect_jobs [of "fst s"] s by (auto elim!: sent_ok_same)
  then have "sent_ok tc (fold (drive_job tc (iter mod 10 = 0)) jobs (c, snd s))"
    using job by (intro fold_invariant [where P = "sent_ok tc"]) auto
  then show ?thesis using c sent_ok_SendRaw [OF _ tool_packets(2)] by (simp add: drive_iteration_def split_beta)
qed

lemma sent_ok_start:
  assumes "sent_ok tc s"
  shows "sent_ok tc (DriveConn_start tc base_uid rooms s)"
proof -
  have "sent_ok tc (drive_create tc uid t)" if "sent_ok tc t" for uid t
    using that by (auto simp: drive_create_def Let_def tool_requests_def split: prod.split
        intro!: sent_ok_SendRaw tool_packets(3) elim: sent_ok_same)
  then show ?thesis
    using assms unfolding DriveConn_start_def
    by (intro fold_invariant [where P = "sent_ok tc"] sent_ok_SendRaw tool_packets(1)) auto
qed

lemma sent_ok_reading: "sent_ok tc (c\<lparr>cn_reading := r\<rparr>, g) = sent_ok tc (c, g)"
  by (simp add: sent_ok_def)

lemma sent_ok_reader:
  assumes "sent_ok tc s"
  shows "sent_ok tc (reader_check s)" "sent_ok tc (reader_turn tc now packet s)"
  using assms by (cases s; simp add: reader_check_def reader_turn_def sent_ok_reading sent_ok_packet)+

lemma load_sends:
  assumes "(load_step tc)\<^sup>*\<^sup>* (DriveConn_start tc base_uid rooms (c, g)) s" and "cn_out c = []"
  shows "list_all (tool_packet tc) (cn_out (fst s))"
proof -
  have "sent_ok tc (DriveConn_end t)" if "sent_ok tc t" for t
    using that by (auto simp: DriveConn_end_def sent_ok_def split: prod.split)
  then have step: "load_step tc t u \<Longrightarrow> sent_ok tc t \<Longrightarrow> sent_ok tc u" for t u
    by (auto elim!: load_step.cases intro: sent_ok_reader sent_ok_drive)
  have "sent_ok tc (DriveConn_start tc base_uid rooms (c, g))"
    by (rule sent_ok_start) (simp add: sent_ok_def assms(2))
  with assms(1) have "sent_ok tc s" by (induction rule: rtranclp_induct) (auto intro: step)
  then show ?thesis by (simp add: sent_ok_def)
qed

subsection \<open>One harvest order per room\<close>

lemma um_find_on_room: "um_find (cn_rooms (on_room uid f c)) v = (if v = uid then Some (f (room_at uid c)) else um_find (cn_rooms c) v)"
  by (simp add: on_room_def)

lemma room_at_on_room [simp]: "room_at v (on_room uid f c) = (if v = uid then f (room_at uid c) else room_at v c)"
  by (simp add: room_at_def um_find_on_room)

definition economy :: "Conn \<Rightarrow> u64 \<Rightarrow> bool" where
  "economy c uid \<longleftrightarrow> rm_economy_started (room_at uid c)"

lemma economy_same: "rm_economy_started (f (room_at uid c)) = economy c uid \<Longrightarrow> economy (on_room uid f c) = economy c"
  by (auto simp: economy_def fun_eq_iff)

text \<open>A turn of the driver orders a harvest only in rooms where none was ordered before, and remembers it.\<close>

lemma collect_jobs_once:
  "(\<forall>j \<in> set (fst (collect_jobs c)). jb_start_harvest j \<longrightarrow>
      \<not> economy c (jb_uid j) \<and> economy (snd (collect_jobs c)) (jb_uid j)) \<and>
   (\<forall>v. economy c v \<longrightarrow> economy (snd (collect_jobs c)) v)"
proof -
  define P where "P jc \<longleftrightarrow>
    (\<forall>j \<in> set (fst jc). jb_start_harvest j \<longrightarrow> \<not> economy c (jb_uid j) \<and> economy (snd jc) (jb_uid j)) \<and>
    (\<forall>v. economy c v \<longrightarrow> economy (snd jc) v)" for jc :: "Job list \<times> Conn"
  have "P (collect_job uid jc)" if "P jc" for uid jc
    using that by (auto simp: P_def collect_job_def Let_def economy_def split: prod.splits)
  then have "P (collect_jobs c)"
    unfolding collect_jobs_def by (intro fold_invariant [where P = P]) (auto simp: P_def)
  then show ?thesis by (simp add: P_def)
qed

lemma fst_SendRaw [simp]: "cn_rooms (fst (SendRaw packet s)) = cn_rooms (fst s)"
  by (simp add: SendRaw_def split: prod.split)

lemma economy_rooms: "cn_rooms c = cn_rooms d \<Longrightarrow> economy c = economy d"
  by (simp add: economy_def room_at_def fun_eq_iff)

lemma economy_snapshot [simp]: "rm_economy_started (on_snapshot now snap st) = rm_economy_started st"
  "rm_economy_started (mark_tick now tick st) = rm_economy_started st"
  by (simp_all add: on_snapshot_def mark_tick_def Let_def split: option.split)

lemma economy_packet: "economy (fst (Reader_packet tc now packet s)) = economy (fst s)"
proof -
  have created: "economy (fst (on_created tc uid room_id t)) = economy (fst t)" for uid room_id t
    by (auto simp: on_created_def Let_def economy_def fun_eq_iff economy_rooms [OF fst_SendRaw, unfolded economy_def fun_eq_iff]
        split: prod.split)
  have "economy (fst (on_envelope tc now body t)) = economy (fst t)" for body t
    using created
    by (auto simp: on_envelope_def Let_def economy_def split: prod.split option.split list.split intro!: economy_same)
  then show ?thesis
    by (auto simp: Reader_packet_def on_pong_def Let_def split: prod.split option.split)
qed

lemma economy_reader:
  "economy (fst (reader_check s)) = economy (fst s)" "economy (fst (reader_turn tc now packet s)) = economy (fst s)"
proof -
  have "economy (c\<lparr>cn_reading := r\<rparr>) = economy c" for c r by (rule economy_rooms) simp
  then show "economy (fst (reader_check s)) = economy (fst s)" "economy (fst (reader_turn tc now packet s)) = economy (fst s)"
    by (simp_all add: reader_check_def reader_turn_def economy_packet split: prod.split)
qed

lemma economy_drive: "economy (fst s) v \<Longrightarrow> economy (fst (drive_iteration tc iter now s)) v"
proof -
  assume s: "economy (fst s) v"
  obtain jobs c where c: "collect_jobs (fst s) = (jobs, c)" by fastforce
  have "cn_rooms (fst (drive_job tc do_train j t)) = cn_rooms (fst t)" for do_train j t
    by (simp add: drive_job_def Let_def)
  then have "cn_rooms (fst (fold (drive_job tc (iter mod 10 = 0)) jobs (c, snd s))) = cn_rooms c"
    using fold_constant [of jobs "\<lambda>t. cn_rooms (fst t)" "drive_job tc (iter mod 10 = 0)" "(c, snd s)"] by simp
  then have "cn_rooms (fst (drive_iteration tc iter now s)) = cn_rooms c"
    using c by (simp add: drive_iteration_def split_beta)
  then show ?thesis using collect_jobs_once [of "fst s"] c s economy_rooms by (metis snd_conv)
qed

lemma economy_run: "(load_step tc)\<^sup>*\<^sup>* s t \<Longrightarrow> economy (fst s) v \<Longrightarrow> economy (fst t) v"
proof (induction rule: rtranclp_induct)
  case (step t u)
  have "economy (fst (DriveConn_end t)) = economy (fst t)"
    by (auto simp: DriveConn_end_def split: prod.split intro!: economy_rooms)
  then show ?case using step by (auto elim!: load_step.cases simp: economy_reader intro: economy_drive)
qed

subsection \<open>Every virtual player is another one\<close>

lemma unat_conn_uid:
  assumes "i < 1000000" and "k < 1000000"
  shows "unat (conn_base_uid i + of_nat k + 1) = (i + 1) * 1000000 + k + 1"
proof -
  have "conn_base_uid i + of_nat k + 1 = of_nat ((i + 1) * 1000000 + k + 1)" by (simp add: conn_base_uid_def)
  moreover have "(i + 1) * 1000000 + k + 1 < 2 ^ 64" using assms by simp
  ultimately show ?thesis by (simp add: unat_of_nat del: of_nat_add of_nat_Suc)
qed

text \<open>With at most a million rooms per connection no two virtual players share an id.\<close>

lemma conn_uids_distinct:
  assumes "n \<le> 1000000" and "rooms \<le> 1000000"
  shows "distinct (concat (map (\<lambda>i. conn_uids i rooms) [0..<n]))"
proof -
  have inj: "i = j \<and> k = l" if "i < 1000000" "j < 1000000" "k < 1000000" "l < 1000000"
      "conn_base_uid i + of_nat k + 1 = conn_base_uid j + of_nat l + 1" for i j k l
  proof -
    have "(i + 1) * 1000000 + k + 1 = (j + 1) * 1000000 + l + 1"
      using unat_conn_uid [OF that(1,3)] unat_conn_uid [OF that(2,4)] that(5) by metis
    then have eq: "i * 1000000 + k = j * 1000000 + l" by simp
    then have "i \<le> j" "j \<le> i" using that(3,4) by linarith+
    then show ?thesis using eq by simp
  qed
  have one: "distinct (conn_uids i rooms)" if "i < n" for i
    using that assms inj [of i i] by (auto simp: conn_uids_def distinct_map inj_on_def)
  have two: "x \<notin> set (conn_uids i rooms)" if "i < j" "j < n" "x \<in> set (conn_uids j rooms)" for i j x
    using that assms inj [of j i] by (auto simp: conn_uids_def) (meson assms(2) less_le_trans)
  have "m \<le> n \<Longrightarrow> distinct (concat (map (\<lambda>i. conn_uids i rooms) [0..<m]))" for m
    using one by (induction m) (auto simp: Suc_le_eq dest: two)
  then show ?thesis by simp
qed

subsection \<open>The first driver to end stops all readers\<close>

text \<open>\<^verbatim>\<open>g_running\<close> is one flag for the process: once it is cleared every reader handles at most the packet it
  is waiting for, whatever the other drivers still do.\<close>

definition waiting :: "Conn list \<times> Totals \<Rightarrow> nat" where
  "waiting f = length (filter cn_reading (fst f))"

lemma reading_SendRaw:
  "cn_reading (fst (SendRaw packet s)) = cn_reading (fst s)" "tt_recv (snd (SendRaw packet s)) = tt_recv (snd s)"
  "tt_running (snd (SendRaw packet s)) = tt_running (snd s)"
  by (simp_all add: SendRaw_def split: prod.split)

lemma reading_on_room [simp]: "cn_reading (on_room uid f c) = cn_reading c"
  by (simp add: on_room_def)

lemma reading_created:
  "cn_reading (fst (on_created tc uid room_id s)) = cn_reading (fst s)" "tt_recv (snd (on_created tc uid room_id s)) = tt_recv (snd s)"
  "tt_running (snd (on_created tc uid room_id s)) = tt_running (snd s)"
  by (simp_all add: on_created_def reading_SendRaw Let_def split: prod.split)

lemma reading_packet:
  "cn_reading (fst (Reader_packet tc now packet s)) = cn_reading (fst s)"
  "tt_recv (snd (Reader_packet tc now packet s)) = tt_recv (snd s) + 1"
  "tt_running (snd (Reader_packet tc now packet s)) = tt_running (snd s)"
  by (auto simp: Reader_packet_def on_pong_def on_envelope_def reading_created Let_def
      split: prod.split option.split list.split)

lemma reading_drive:
  "cn_reading (fst (drive_iteration tc iter now s)) = cn_reading (fst s)"
  "tt_recv (snd (drive_iteration tc iter now s)) = tt_recv (snd s)"
  "tt_running (snd (drive_iteration tc iter now s)) = tt_running (snd s)"
proof -
  define F where "F t = (cn_reading (fst t), tt_recv (snd t), tt_running (snd t))" for t :: load
  have job: "F (drive_job tc do_train j t) = F t" for do_train j t
    by (simp add: F_def drive_job_def reading_SendRaw Let_def)
  have c: "cn_reading (snd (collect_jobs c)) = cn_reading c" for c
    unfolding collect_jobs_def
    using fold_constant [where g = "\<lambda>jc. cn_reading (snd jc)" and f = collect_job]
    by (simp add: collect_job_def Let_def split: prod.split)
  have "F (fold (drive_job tc (iter mod 10 = 0)) jobs t) = F t" for jobs t
    by (rule fold_constant) (rule job)
  then have "F (drive_iteration tc iter now s) = F s"
    using c [of "fst s"] by (simp add: drive_iteration_def split_beta F_def reading_SendRaw)
  then show "cn_reading (fst (drive_iteration tc iter now s)) = cn_reading (fst s)"
    "tt_recv (snd (drive_iteration tc iter now s)) = tt_recv (snd s)"
    "tt_running (snd (drive_iteration tc iter now s)) = tt_running (snd s)"
    by (simp_all add: F_def)
qed

lemma stopped_step:
  assumes "load_step tc s t" and "\<not> tt_running (snd s)"
  shows "\<not> tt_running (snd t) \<and>
    (cn_reading (fst t) = cn_reading (fst s) \<and> tt_recv (snd t) = tt_recv (snd s) \<or>
     cn_reading (fst s) \<and> \<not> cn_reading (fst t) \<and> tt_recv (snd t) = tt_recv (snd s) + 1)"
  using assms
  by cases (auto simp: reader_check_def reader_turn_def DriveConn_end_def reading_packet reading_drive split: prod.splits)

lemma readers_stop:
  assumes "(fleet_step tc)\<^sup>*\<^sup>* f f'" and "\<not> tt_running (snd f)"
  shows "\<not> tt_running (snd f') \<and> (\<exists>k. tt_recv (snd f') = tt_recv (snd f) + of_nat k \<and> k + waiting f' = waiting f)"
  using assms
proof (induction rule: rtranclp_induct)
  case base
  then show ?case by (intro conjI exI [of _ 0]) simp_all
next
  case (step d d')
  then obtain k where d: "\<not> tt_running (snd d)" "tt_recv (snd d) = tt_recv (snd f) + of_nat k" "k + waiting d = waiting f" by auto
  from step(2) show ?case
  proof cases
    case (fleet_conn i cs g c g')
    have s: "\<not> tt_running g'" "cn_reading c = cn_reading (cs ! i) \<and> tt_recv g' = tt_recv g \<or>
        cn_reading (cs ! i) \<and> \<not> cn_reading c \<and> tt_recv g' = tt_recv g + 1"
      using stopped_step [OF fleet_conn(4)] d(1) fleet_conn(1) by simp_all
    have w: "waiting d' + of_bool (cn_reading (cs ! i)) = waiting d + of_bool (cn_reading c)"
      using filter_list_update [OF fleet_conn(3), of cn_reading c] fleet_conn(1,2) by (simp add: waiting_def)
    from s(2) show ?thesis
    proof (elim disjE)
      assume "cn_reading c = cn_reading (cs ! i) \<and> tt_recv g' = tt_recv g"
      then show ?thesis using s(1) w d fleet_conn(1,2) by (intro conjI exI [of _ k]) auto
    next
      assume "cn_reading (cs ! i) \<and> \<not> cn_reading c \<and> tt_recv g' = tt_recv g + 1"
      then show ?thesis using s(1) w d fleet_conn(1,2) by (intro conjI exI [of _ "Suc k"]) auto
    qed
  qed
qed

end
