(* ===== verification/E2ELoadTest.thy ===== *)
theory E2ELoadTest
  imports LoadTest LogicHandlers
begin

unbundle bit_operations_syntax

text \<open>
  The end-to-end load generator (\<^verbatim>\<open>tools/e2e_loadtest.cc\<close>): every client is one connection to the gate and
  goes from login to its own room to a stream of move commands. A client is the record \<open>Client\<close>; its
  operations are the members of the code, the completion handlers of writes, reads and the timer are
  operations of their own, and a run is a sequence of them (\<open>e2e_step\<close>). \<open>cl_written\<close> are the packets whose
  write was completed, \<open>cl_timers\<close> the waits that are pending on the timer, \<open>cl_logins\<close> the login times recorded.
\<close>

subsection \<open>State\<close>

definition e2e_Frame :: "u16 \<Rightarrow> byte list \<Rightarrow> byte list" where
  "e2e_Frame msg_id body =
     [ucast (drop_bit 8 kPacketMagic AND 0xFF), ucast (kPacketMagic AND 0xFF),
      ucast (drop_bit 8 msg_id AND 0xFF), ucast (msg_id AND 0xFF), 0, 0] @
     (let n = of_nat (length body) :: u32
      in [ucast (drop_bit 24 n AND 0xFF), ucast (drop_bit 16 n AND 0xFF), ucast (drop_bit 8 n AND 0xFF), ucast (n AND 0xFF)]) @
     body"

record Client =
  cl_index :: u64
  cl_room_id :: u64
  cl_units :: "u64 list"
  cl_phase :: int
  cl_login_send_ns :: u64
  cl_first_tick :: u64
  cl_last_tick :: u64
  cl_first_t :: u64
  cl_last_t :: u64
  cl_outq :: "byte list list"
  cl_writing :: bool
  cl_failed :: bool
  cl_written :: "byte list list"
  cl_timers :: nat
  cl_logins :: "u64 list"

definition Client_new :: "u64 \<Rightarrow> Client" where
  "Client_new idx =
     \<lparr>cl_index = idx, cl_room_id = 0, cl_units = [], cl_phase = 0, cl_login_send_ns = 0, cl_first_tick = 0,
      cl_last_tick = 0, cl_first_t = 0, cl_last_t = 0, cl_outq = [], cl_writing = False, cl_failed = False,
      cl_written = [], cl_timers = 0, cl_logins = []\<rparr>"

subsection \<open>Writing\<close>

definition Client_DoWrite :: "Client \<Rightarrow> Client" where
  "Client_DoWrite c = c\<lparr>cl_writing := True\<rparr>"

definition Client_Send :: "u16 \<Rightarrow> byte list \<Rightarrow> Client \<Rightarrow> Client" where
  "Client_Send msg_id inner c =
     (let c = c\<lparr>cl_outq := cl_outq c @ [e2e_Frame msg_id inner]\<rparr>
      in if cl_writing c then c else Client_DoWrite c)"

text \<open>The completion of \<^verbatim>\<open>async_write\<close> of the front of the queue. After an error the handler returns at once:
  the flag stays set and the packet in the queue.\<close>

definition on_written :: "bool \<Rightarrow> Client \<Rightarrow> Client" where
  "on_written ok c =
     (if \<not> ok then c\<lparr>cl_failed := True\<rparr>
      else
        let c = c\<lparr>cl_outq := tl (cl_outq c), cl_written := cl_written c @ [hd (cl_outq c)]\<rparr>
        in if cl_outq c \<noteq> [] then Client_DoWrite c else c\<lparr>cl_writing := False\<rparr>)"

subsection \<open>Messages\<close>

definition Client_Start :: "tool_codec \<Rightarrow> u64 \<Rightarrow> Client \<Rightarrow> Client" where
  "Client_Start tc now c =
     (let c = c\<lparr>cl_login_send_ns := now\<rparr>
      in Client_Send LoginReq (tc_login tc (''p'' @ to_string (unat (cl_index c))) ''t'') c)"

text \<open>The completion of \<^verbatim>\<open>async_connect\<close>: a client that cannot connect stays idle.\<close>

definition on_client_connect :: "tool_codec \<Rightarrow> bool \<Rightarrow> u64 \<Rightarrow> Client \<Rightarrow> Client" where
  "on_client_connect tc ok now c = (if \<not> ok then c else Client_Start tc now c)"

text \<open>\<^verbatim>\<open>ReadHeader\<close> and \<^verbatim>\<open>ReadBody\<close> on the bytes that arrive: neither the magic nor the length is checked.\<close>

function e2e_read :: "byte list \<Rightarrow> (u16 \<times> byte list) list" where
  "e2e_read bs =
     (if length bs < kPacketHeaderLen then []
      else
        let h = take kPacketHeaderLen bs;
            msg_id = get16 h 2;
            len = unat (get32 h 6);
            rest = drop kPacketHeaderLen bs
        in if len \<noteq> 0 \<and> length rest < len then []
           else (msg_id, take len rest) # e2e_read (drop len rest))"
  by pat_completeness auto
termination
  by (relation "measure length") auto

declare e2e_read.simps [simp del]

definition ArmMove :: "bool \<Rightarrow> Client \<Rightarrow> Client" where
  "ArmMove going c = (if going then c\<lparr>cl_timers := cl_timers c + 1\<rparr> else c)"

definition client_tick :: "u64 \<Rightarrow> u64 \<Rightarrow> Client \<Rightarrow> Client" where
  "client_tick now tick c =
     (let c = (if cl_first_tick c = 0 then c\<lparr>cl_first_tick := tick, cl_first_t := now\<rparr> else c)
      in c\<lparr>cl_last_tick := tick, cl_last_t := now\<rparr>)"

definition OnMessage :: "tool_codec \<Rightarrow> bool \<Rightarrow> u64 \<Rightarrow> u16 \<Rightarrow> byte list \<Rightarrow> Client \<Rightarrow> Client" where
  "OnMessage tc going now msg_id body c =
     (if msg_id = LoginRsp then
        (Client_Send CreateRoomReq (tc_create_room tc 1)
           (c\<lparr>cl_logins := cl_logins c @ [now - cl_login_send_ns c]\<rparr>))\<lparr>cl_phase := 1\<rparr>
      else if msg_id = CreateRoomRsp then
        case tc_create_rsp tc body of
          None \<Rightarrow> c
        | Some room_id \<Rightarrow>
            if room_id = 0 then c
            else Client_Send PlayerReadyReq (tc_player_ready tc room_id True) (c\<lparr>cl_room_id := room_id\<rparr>)
      else if msg_id = SnapshotNtf then
        case tc_snapshot tc body of
          None \<Rightarrow> c
        | Some snap \<Rightarrow>
            let c = c\<lparr>cl_units := sv_units snap\<rparr>;
                c = client_tick now (sv_server_tick snap) c
            in if cl_phase c \<noteq> 2 \<and> cl_units c \<noteq> [] then ArmMove going (c\<lparr>cl_phase := 2\<rparr>) else c
      else if msg_id = WorldDeltaNtf then
        case tc_delta tc body of None \<Rightarrow> c | Some tick \<Rightarrow> client_tick now tick c
      else c)"

text \<open>The handler of the timer: a move to a place that depends on client and tick, then the timer again.\<close>

definition move_target :: "Client \<Rightarrow> Vec3f" where
  "move_target c = \<lparr>vx = f32_of_nat (unat ((cl_index c + cl_last_tick c) mod 100)) - lit 50 1, vy = 0, vz = 0\<rparr>"

definition on_timer :: "tool_codec \<Rightarrow> bool \<Rightarrow> bool \<Rightarrow> Client \<Rightarrow> Client" where
  "on_timer tc going ok c =
     (let c = c\<lparr>cl_timers := cl_timers c - 1\<rparr>
      in if \<not> ok \<or> \<not> going then c
         else
           let c = (if cl_phase c = 2 \<and> cl_units c \<noteq> []
                    then Client_Send MoveCmd (tc_move tc (cl_room_id c) (cl_units c) (move_target c)) c
                    else c)
           in ArmMove going c)"

subsection \<open>Runs\<close>

inductive e2e_step :: "tool_codec \<Rightarrow> Client \<Rightarrow> Client \<Rightarrow> bool" for tc where
  e2e_written: "cl_writing c \<Longrightarrow> \<not> cl_failed c \<Longrightarrow> e2e_step tc c (on_written ok c)"
| e2e_message: "e2e_step tc c (OnMessage tc going now msg_id body c)"
| e2e_timer: "0 < cl_timers c \<Longrightarrow> e2e_step tc c (on_timer tc going ok c)"

definition client_counted :: "Client \<Rightarrow> bool" where
  "client_counted c \<longleftrightarrow> cl_phase c = 2 \<and> cl_first_tick c < cl_last_tick c \<and>
     500000000 < uint (cl_last_t c) - uint (cl_first_t c)"

definition clients_playing :: "Client list \<Rightarrow> nat" where
  "clients_playing cs = length (filter client_counted cs)"

subsection \<open>Both tools and the servers frame alike\<close>

lemma e2e_Frame_eq: "e2e_Frame = Frame"
  unfolding fun_eq_iff e2e_Frame_def Frame_def PutBE16_def PutBE32_def byte_masks by (simp add: Let_def)

lemma e2e_read_wire:
  assumes "length p < 2 ^ 32"
  shows "e2e_read (wire (msg_id, flags, p) @ rest) = (msg_id, p) # e2e_read rest"
proof -
  let ?h = "put16 kPacketMagic @ put16 msg_id @ put16 flags @ put32 (of_nat (length p))"
  have "take kPacketHeaderLen (wire (msg_id, flags, p) @ rest) = ?h"
    using header_fields(5) assms by (simp add: wire_def SendNode_data)
  moreover have "kPacketHeaderLen \<le> length (wire (msg_id, flags, p) @ rest)"
    using assms by (simp add: wire_def SendNode_data)
  ultimately show ?thesis
    using header_fields(2,4) [of msg_id flags "of_nat (length p)"] drop_wire [OF assms, of msg_id flags rest] assms
    by (subst e2e_read.simps) (simp add: Let_def unat_of_nat32 del: kPacketHeaderLen_def)
qed

lemma e2e_read_Nil: "e2e_read [] = []"
  by (subst e2e_read.simps) simp

interpretation e2e_reader: packet_reader e2e_read framed unflagged
  by unfold_locales (auto simp: e2e_read_Nil e2e_read_wire framed_def unflagged_def)

subsection \<open>The queue of a client\<close>

text \<open>All that was sent, in order: what has been written and what waits. A packet is in flight exactly while
  packets wait.\<close>

definition client_sent :: "Client \<Rightarrow> byte list list" where
  "client_sent c = cl_written c @ cl_outq c"

definition e2e_ok :: "Client \<Rightarrow> bool" where
  "e2e_ok c \<longleftrightarrow> (cl_writing c \<longleftrightarrow> cl_outq c \<noteq> [])"

lemma client_sent_Send: "client_sent (Client_Send msg_id inner c) = client_sent c @ [Frame msg_id inner]"
  by (simp add: client_sent_def Client_Send_def Client_DoWrite_def e2e_Frame_eq Let_def)

lemma client_sent_fields [simp]:
  "client_sent (c\<lparr>cl_phase := p\<rparr>) = client_sent c" "client_sent (c\<lparr>cl_logins := l\<rparr>) = client_sent c"
  "client_sent (c\<lparr>cl_room_id := r\<rparr>) = client_sent c" "client_sent (c\<lparr>cl_units := us\<rparr>) = client_sent c"
  "client_sent (c\<lparr>cl_timers := n\<rparr>) = client_sent c" "client_sent (client_tick now tick c) = client_sent c"
  "client_sent (ArmMove going c) = client_sent c"
  by (simp_all add: client_sent_def client_tick_def ArmMove_def Let_def)

lemma e2e_ok_fields [simp]:
  "e2e_ok (c\<lparr>cl_phase := p\<rparr>) = e2e_ok c" "e2e_ok (c\<lparr>cl_logins := l\<rparr>) = e2e_ok c"
  "e2e_ok (c\<lparr>cl_room_id := r\<rparr>) = e2e_ok c" "e2e_ok (c\<lparr>cl_units := us\<rparr>) = e2e_ok c"
  "e2e_ok (c\<lparr>cl_timers := n\<rparr>) = e2e_ok c" "e2e_ok (client_tick now tick c) = e2e_ok c"
  "e2e_ok (ArmMove going c) = e2e_ok c"
  by (simp_all add: e2e_ok_def client_tick_def ArmMove_def Let_def)

lemma e2e_ok_Send: "e2e_ok c \<Longrightarrow> e2e_ok (Client_Send msg_id inner c)"
  by (auto simp: e2e_ok_def Client_Send_def Client_DoWrite_def Let_def)

lemma e2e_message_queue:
  "e2e_ok c \<Longrightarrow> e2e_ok (OnMessage tc going now msg_id body c)"
  "\<exists>new. client_sent (OnMessage tc going now msg_id body c) = client_sent c @ new"
  by (auto simp: OnMessage_def client_sent_Send e2e_ok_Send Let_def split: option.split)

lemma e2e_timer_queue:
  "e2e_ok c \<Longrightarrow> e2e_ok (on_timer tc going ok c)"
  "\<exists>new. client_sent (on_timer tc going ok c) = client_sent c @ new"
  by (auto simp: on_timer_def client_sent_Send e2e_ok_Send Let_def)

lemma on_written_queue:
  assumes "e2e_ok c" and "cl_writing c"
  shows "e2e_ok (on_written ok c) \<and> client_sent (on_written ok c) = client_sent c"
  using assms
  by (cases "cl_outq c") (auto simp: on_written_def e2e_ok_def client_sent_def Client_DoWrite_def Let_def)

lemma e2e_queue_step:
  assumes "e2e_step tc c c'" and "e2e_ok c"
  shows "e2e_ok c' \<and> (\<exists>new. client_sent c' = client_sent c @ new)"
  using assms(1)
proof cases
  case (e2e_written ok)
  then show ?thesis using on_written_queue [OF assms(2)] by auto
next
  case e2e_message
  then show ?thesis using e2e_message_queue assms(2) by metis
next
  case e2e_timer
  then show ?thesis using e2e_timer_queue assms(2) by metis
qed

lemma e2e_queue_run:
  assumes "(e2e_step tc)\<^sup>*\<^sup>* c c'" and "e2e_ok c"
  shows "e2e_ok c' \<and> (\<exists>new. client_sent c' = client_sent c @ new)"
  using assms(1)
proof (induction rule: rtranclp_induct)
  case base
  then show ?case using assms(2) by auto
next
  case (step d d')
  then show ?case using e2e_queue_step [OF step(2)] by fastforce
qed

lemma e2e_ok_new: "e2e_ok (Client_new idx)"
  by (simp add: e2e_ok_def Client_new_def)

text \<open>If the writes go through, as many completions as packets wait write them all.\<close>

lemma drain_client:
  assumes "e2e_ok c"
  shows "(on_written True ^^ length (cl_outq c)) c = c\<lparr>cl_outq := [], cl_writing := False, cl_written := cl_written c @ cl_outq c\<rparr>"
  using assms
proof (induction "cl_outq c" arbitrary: c)
  case Nil
  then show ?case by (cases c) (simp add: e2e_ok_def)
next
  case (Cons p q)
  let ?c = "on_written True c"
  have q: "cl_outq c = p # q" using Cons(2) by simp
  have ok: "e2e_ok ?c" and c: "cl_outq ?c = q"
    using Cons(3) q by (auto simp: on_written_def e2e_ok_def Client_DoWrite_def Let_def)
  have "?c\<lparr>cl_outq := [], cl_writing := False, cl_written := cl_written ?c @ q\<rparr> =
      c\<lparr>cl_outq := [], cl_writing := False, cl_written := cl_written c @ p # q\<rparr>"
    using q by (simp add: on_written_def Client_DoWrite_def Let_def)
  then show ?case using Cons(1) [of ?c] ok c by (simp add: q funpow_swap1)
qed

text \<open>After a failed write nothing is written any more, while the queue goes on growing.\<close>

lemma cl_failed_fields:
  "cl_failed (Client_Send i b c) = cl_failed c" "cl_written (Client_Send i b c) = cl_written c"
  "cl_failed (client_tick now tick c) = cl_failed c" "cl_written (client_tick now tick c) = cl_written c"
  "cl_failed (ArmMove going c) = cl_failed c" "cl_written (ArmMove going c) = cl_written c"
  by (simp_all add: Client_Send_def Client_DoWrite_def client_tick_def ArmMove_def Let_def)

lemma write_failure_final:
  assumes "(e2e_step tc)\<^sup>*\<^sup>* c c'" and "cl_failed c"
  shows "cl_failed c' \<and> cl_written c' = cl_written c"
  using assms
proof (induction rule: rtranclp_induct)
  case (step d d')
  then have d: "cl_failed d" "cl_written d = cl_written c" by simp_all
  from step(2) d show ?case
    by cases (auto simp: OnMessage_def on_timer_def cl_failed_fields Let_def split: option.split)
qed simp

end
