(* ===== verification/Exchange.thy ===== *)
theory Exchange
  imports GameServer
begin

text \<open>
  A packet and everything it causes, on a game server that is otherwise at rest: the network shard reads
  it, a logic shard handles the task, the network shard wraps the answers and the writer of the link
  sends them. \<open>exchange\<close> is this sequence of steps of the server's threads; the lemmas describe its outcome
  by the handler of the logic shard alone.
\<close>

subsection \<open>The sequence of steps\<close>

definition link_session :: "nat \<Rightarrow> nat \<Rightarrow> GameServer \<Rightarrow> GatewayLinkSession option" where
  "link_session j i s = sl_session (ns_slots (gs_network_shards s ! j) ! i)"

text \<open>A turn of the writer of link \<open>i\<close> of network shard \<open>j\<close>, if it is running.\<close>

definition writer_step :: "nat \<Rightarrow> nat \<Rightarrow> GameServer \<Rightarrow> GameServer" where
  "writer_step j i s =
     (let n = gs_network_shards s ! j
      in case sl_session (ns_slots n ! i) of
           None \<Rightarrow> s
         | Some x \<Rightarrow>
             if gl_writer x = NoWriter \<or> sl_state (ns_slots n ! i) \<noteq> SlotConnected then s
             else s\<lparr>gs_network_shards := (gs_network_shards s)[j := link_event i (write_turn x) n]\<rparr>)"

definition flush_link :: "nat \<Rightarrow> nat \<Rightarrow> GameServer \<Rightarrow> GameServer" where
  "flush_link j i s =
     (case link_session j i s of
        None \<Rightarrow> s
      | Some x \<Rightarrow> (writer_step j i ^^ Suc (length (gl_send_que x))) s)"

definition drain_network :: "env \<Rightarrow> nat \<Rightarrow> GameServer \<Rightarrow> GameServer" where
  "drain_network e j s = (run_network_task e j ^^ length (gs_network_queues s ! j)) s"

definition read_link :: "env \<Rightarrow> u64 \<Rightarrow> nat \<Rightarrow> nat \<Rightarrow> byte list \<Rightarrow> GameServer \<Rightarrow> GameServer" where
  "read_link e now j i bytes s =
     fold (\<lambda>node. run_packet e now (of_nat i) (rn_msg_id node) (rn_data node) j) (handle_read bytes) s"

definition exchange :: "env \<Rightarrow> u64 \<Rightarrow> nat \<Rightarrow> nat \<Rightarrow> nat \<Rightarrow> byte list \<Rightarrow> GameServer \<Rightarrow> GameServer" where
  "exchange e now j i k bytes s =
     flush_link j i (drain_network e j (run_logic_task e k (read_link e now j i bytes s)))"

text \<open>The same for whichever logic shard the packet is for: the first that has something to do.\<close>

definition serve :: "env \<Rightarrow> u64 \<Rightarrow> nat \<Rightarrow> nat \<Rightarrow> byte list \<Rightarrow> GameServer \<Rightarrow> GameServer" where
  "serve e now j i bytes s =
     (case List.find (\<lambda>k. gs_logic_queues (read_link e now j i bytes s) ! k \<noteq> []) [0..<length (gs_logic_queues s)] of
        None \<Rightarrow> read_link e now j i bytes s
      | Some k \<Rightarrow> exchange e now j i k bytes s)"

text \<open>The bytes the server wrote to the link between two states.\<close>

definition written_bytes :: "nat \<Rightarrow> nat \<Rightarrow> GameServer \<Rightarrow> GameServer \<Rightarrow> byte list" where
  "written_bytes j i s s' =
     (case (link_session j i s, link_session j i s') of
        (Some x, Some y) \<Rightarrow> concat (map sn_data (drop (length (gl_written x)) (gl_written y)))
      | _ \<Rightarrow> [])"

subsection \<open>Every part is a run of the server\<close>

lemma writer_step_reachable:
  assumes "server_reachable e s" and "j < length (gs_network_shards s)" and "i < length (ns_slots (gs_network_shards s ! j))"
  shows "server_reachable e (writer_step j i s)"
proof (cases "writer_step j i s = s")
  case False
  then obtain x where x: "sl_session (ns_slots (gs_network_shards s ! j) ! i) = Some x" "gl_writer x \<noteq> NoWriter"
      "sl_state (ns_slots (gs_network_shards s ! j) ! i) = SlotConnected"
    by (auto simp: writer_step_def Let_def split: option.splits if_splits)
  have "net_step (gs_network_shards s ! j) (link_event i (write_turn x) (gs_network_shards s ! j))"
    using net_link [OF assms(3) x(3,1) ev_writer [OF x(2)]] .
  then show ?thesis
    using server_next [OF assms(1) server_net [OF assms(2)]] x by (simp add: writer_step_def)
qed (use assms(1) in simp)

lemma writer_step_sizes [simp]:
  "length (gs_network_shards (writer_step j i s)) = length (gs_network_shards s)"
  by (simp add: writer_step_def Let_def split: option.split)

lemma link_event_slots [simp]: "length (ns_slots (link_event i x n)) = length (ns_slots n)"
  by (simp add: link_event_def set_slot_def NotifyOwnerClosed_def OnSessionClosed_def Let_def)

lemma writer_step_slots:
  "length (ns_slots (gs_network_shards (writer_step j i s) ! j)) = length (ns_slots (gs_network_shards s ! j))"
  by (cases "j < length (gs_network_shards s)") (auto simp: writer_step_def not_less list_update_beyond Let_def split: option.split)

lemma flush_link_reachable:
  assumes "server_reachable e s" and "j < length (gs_network_shards s)" and "i < length (ns_slots (gs_network_shards s ! j))"
  shows "server_reachable e (flush_link j i s)"
proof -
  have "server_reachable e ((writer_step j i ^^ n) s) \<and>
      length (gs_network_shards ((writer_step j i ^^ n) s)) = length (gs_network_shards s) \<and>
      length (ns_slots (gs_network_shards ((writer_step j i ^^ n) s) ! j)) = length (ns_slots (gs_network_shards s ! j))" for n
    using assms by (induction n) (auto simp: writer_step_slots intro!: writer_step_reachable)
  then show ?thesis using assms(1) by (simp add: flush_link_def split: option.split del: funpow.simps)
qed

subsection \<open>The outcome of each part\<close>

lemma run_network_task_fields:
  assumes "gs_network_queues s ! j = t # rest"
  shows "gs_network_shards (run_network_task e j s) =
      (gs_network_shards s)[j := HandleNetworkTask (e_codec e) t (gs_network_shards s ! j)]"
    and "gs_network_queues (run_network_task e j s) = (gs_network_queues s)[j := rest]"
    and "gs_logic_shards (run_network_task e j s) = gs_logic_shards s"
    and "gs_logic_queues (run_network_task e j s) = gs_logic_queues s"
    and "gs_stopping (run_network_task e j s) = gs_stopping s"
  using assms by (simp_all add: run_network_task_def Let_def)

lemma drain_fields:
  fixes e :: env
  assumes "gs_network_queues s ! j = ts" and "j < length (gs_network_queues s)" and "j < length (gs_network_shards s)"
  defines "s' \<equiv> (run_network_task e j ^^ length ts) s"
  shows "gs_network_shards s' = (gs_network_shards s)[j := fold (HandleNetworkTask (e_codec e)) ts (gs_network_shards s ! j)] \<and>
    gs_network_queues s' = (gs_network_queues s)[j := []] \<and> gs_logic_shards s' = gs_logic_shards s \<and>
    gs_logic_queues s' = gs_logic_queues s \<and> gs_stopping s' = gs_stopping s"
  unfolding s'_def using assms(1-3)
proof (induction ts arbitrary: s)
  case Nil
  then show ?case by (metis funpow_0 fold_simps(1) list.size(3) list_update_id)
next
  case (Cons t ts)
  note f = run_network_task_fields [OF Cons.prems(1), of e]
  have "(run_network_task e j ^^ length (t # ts)) s = (run_network_task e j ^^ length ts) (run_network_task e j s)"
    by (simp add: funpow_swap1)
  then show ?case using Cons.IH [of "run_network_task e j s"] Cons.prems by (simp add: f)
qed

text \<open>A link that is open and has nothing to send.\<close>

definition resting :: "GatewayLinkSession \<Rightarrow> bool" where
  "resting x \<longleftrightarrow> gl_state x = Conected \<and> gl_send_que x = [] \<and> \<not> gl_is_writing x \<and> gl_writer x = NoWriter"

lemma HandleNetworkTask_one:
  assumes "\<not> ns_stopping n" and "i < length (ns_slots n)" and "i < 2 ^ 32"
    and "sl_state (ns_slots n ! i) = SlotConnected" and "sl_session (ns_slots n ! i) = Some x" and "gl_state x = Conected"
    and "nk_targets t = [\<lparr>nt_link_id = of_nat i, nt_generation = sl_generation (ns_slots n ! i), nt_uids = uids\<rparr>]"
    and "BuildGameToGatewayEnvelope c t uids = Some packet"
  shows "HandleNetworkTask c t n = set_slot i ((ns_slots n ! i)\<lparr>sl_session := Some (PostSend packet x)\<rparr>) n"
  using assms
  by (simp add: HandleNetworkTask_def send_target_def can_send_def IsAvailable_def post_to_slot_def unat_of_nat Let_def)

lemma PostSend_state: "gl_state (PostSend packet x) = gl_state x"
  by (simp add: PostSend_def Let_def)

lemma same_session: "sl_session slot = Some x \<Longrightarrow> slot\<lparr>sl_session := Some x\<rparr> = slot"
  by (cases slot) simp

lemma same_slot: "set_slot i (ns_slots n ! i) n = n"
  by (simp add: set_slot_def)

lemma fold_HandleNetworkTask:
  assumes "\<not> ns_stopping n" and "i < length (ns_slots n)" and "i < 2 ^ 32"
    and "sl_state (ns_slots n ! i) = SlotConnected" and "sl_session (ns_slots n ! i) = Some x" and "gl_state x = Conected"
    and "\<forall>t \<in> set ts. nk_targets t = [\<lparr>nt_link_id = of_nat i, nt_generation = sl_generation (ns_slots n ! i), nt_uids = uids\<rparr>]"
    and "map (\<lambda>t. BuildGameToGatewayEnvelope c t uids) ts = map Some packets"
  shows "fold (HandleNetworkTask c) ts n = set_slot i ((ns_slots n ! i)\<lparr>sl_session := Some (fold PostSend packets x)\<rparr>) n"
  using assms
proof (induction ts arbitrary: n x packets)
  case Nil
  then show ?case by (simp add: same_session same_slot)
next
  case (Cons t ts)
  then obtain packet ps where p: "packets = packet # ps" "BuildGameToGatewayEnvelope c t uids = Some packet" by auto
  let ?n = "set_slot i ((ns_slots n ! i)\<lparr>sl_session := Some (PostSend packet x)\<rparr>) n"
  have slot: "ns_slots ?n ! i = (ns_slots n ! i)\<lparr>sl_session := Some (PostSend packet x)\<rparr>"
    using Cons.prems(2) by (simp add: set_slot_def)
  have "fold (HandleNetworkTask c) ts ?n =
      set_slot i ((ns_slots ?n ! i)\<lparr>sl_session := Some (fold PostSend ps (PostSend packet x))\<rparr>) ?n"
    using Cons.prems p by (intro Cons.IH) (simp_all add: slot PostSend_state, simp_all add: set_slot_def)
  then show ?case
    using HandleNetworkTask_one [OF Cons.prems(1-6) _ p(2)] Cons.prems p(1) by (simp add: slot) (simp add: set_slot_def)
qed

lemma fold_PostSend:
  assumes "resting x" and "packets \<noteq> []" and "length packets \<le> kMaxSendQueueDepth"
  shows "fold PostSend packets x =
    x\<lparr>gl_send_que := packets, gl_accepted := gl_accepted x @ packets, gl_is_writing := True, gl_writer := Spawned\<rparr>"
  using assms(2,3)
proof (induction packets rule: rev_nonempty_induct)
  case (single p)
  then show ?case using assms(1) by (simp add: resting_def PostSend_def is_closing_def kMaxSendQueueDepth_def Let_def)
next
  case (snoc p ps)
  then show ?case using assms(1) by (simp add: resting_def PostSend_def is_closing_def Let_def)
qed

definition put_session :: "nat \<Rightarrow> nat \<Rightarrow> GatewayLinkSession \<Rightarrow> GameServer \<Rightarrow> GameServer" where
  "put_session j i x s =
     s\<lparr>gs_network_shards := (gs_network_shards s)[j :=
       set_slot i ((ns_slots (gs_network_shards s ! j) ! i)\<lparr>sl_session := Some x\<rparr>) (gs_network_shards s ! j)]\<rparr>"

text \<open>Link \<open>i\<close> of network shard \<open>j\<close> is connected, and \<open>x\<close> is its session.\<close>

definition connected :: "nat \<Rightarrow> nat \<Rightarrow> GatewayLinkSession \<Rightarrow> GameServer \<Rightarrow> bool" where
  "connected j i x s \<longleftrightarrow> j < length (gs_network_shards s) \<and> i < length (ns_slots (gs_network_shards s ! j)) \<and>
     sl_state (ns_slots (gs_network_shards s ! j) ! i) = SlotConnected \<and> link_session j i s = Some x \<and>
     gl_state x = Conected \<and> \<not> ns_stopping (gs_network_shards s ! j)"

lemma connected_put: "connected j i x s \<Longrightarrow> gl_state y = Conected \<Longrightarrow> connected j i y (put_session j i y s)"
  by (simp add: connected_def put_session_def link_session_def set_slot_def)

lemma put_put: "connected j i x s \<Longrightarrow> put_session j i z (put_session j i y s) = put_session j i z s"
  by (simp add: connected_def put_session_def set_slot_def)

lemma writer_step_put:
  assumes "connected j i x s" and "gl_writer x \<noteq> NoWriter"
  shows "writer_step j i s = put_session j i (write_turn x) s"
proof -
  have "gl_state (write_turn x) = Conected"
    using assms(1) by (auto simp: connected_def write_turn_def split: list.split)
  then show ?thesis
    using assms by (simp add: connected_def writer_step_def put_session_def link_session_def link_event_def Let_def)
qed

lemma writer_steps:
  assumes "connected j i x s" and "gl_writer x \<noteq> NoWriter"
  shows "(writer_step j i ^^ Suc (length (gl_send_que x))) s =
    put_session j i (x\<lparr>gl_send_que := [], gl_written := gl_written x @ gl_send_que x, gl_is_writing := False, gl_writer := NoWriter\<rparr>) s"
  using assms
proof (induction "gl_send_que x" arbitrary: x s)
  case Nil
  then have "write_turn x = x\<lparr>gl_send_que := [], gl_written := gl_written x @ gl_send_que x, gl_is_writing := False, gl_writer := NoWriter\<rparr>"
    by (cases x) (simp add: write_turn_def)
  then show ?case using writer_step_put [OF Nil(2,3)] Nil(1) [symmetric] by simp
next
  case (Cons p q)
  let ?y = "x\<lparr>gl_send_que := q, gl_writer := Writing p, gl_written := gl_written x @ [p]\<rparr>"
  have x: "gl_send_que x = p # q" using Cons(2) by simp
  have y: "write_turn x = ?y"
    using Cons(3) by (simp add: write_turn_def x connected_def)
  have c: "connected j i ?y (put_session j i ?y s)"
    using Cons(3) by (intro connected_put [OF Cons(3)]) (simp add: connected_def)
  have "(writer_step j i ^^ Suc (length (gl_send_que x))) s = (writer_step j i ^^ Suc (length (gl_send_que ?y))) (put_session j i ?y s)"
    using writer_step_put [OF Cons(3,4)] by (simp add: x y funpow_swap1)
  also have "\<dots> = put_session j i (?y\<lparr>gl_send_que := [], gl_written := gl_written ?y @ gl_send_que ?y, gl_is_writing := False, gl_writer := NoWriter\<rparr>) (put_session j i ?y s)"
    using Cons(1) [OF _ c] by simp
  finally show ?case by (simp add: put_put [OF Cons(3)] x)
qed

text \<open>What the effects of a handler leave in the queue of a network shard.\<close>

definition posted :: "nat \<Rightarrow> effect list \<Rightarrow> NetworkTask list" where
  "posted j effects =
     List.map_filter (\<lambda>eff. case eff of PostToNetwork net t \<Rightarrow> if unat net = j then Some t else None | _ \<Rightarrow> None) effects"

lemma posted_simps [simp]:
  "posted j [] = []" "posted j (PostToNetwork net t # es) = (if unat net = j then t # posted j es else posted j es)"
  "posted j (CountCommand # es) = posted j es" "posted j (CountSnapshot # es) = posted j es"
  "posted j (CountDelta # es) = posted j es" "posted j (RecordTick us # es) = posted j es"
  "posted j (ShardGauges a b c # es) = posted j es"
  by (simp_all add: posted_def List.map_filter_simps)

lemma posted_append [simp]: "posted j (xs @ ys) = posted j xs @ posted j ys"
  by (induction xs) (auto simp: posted_def List.map_filter_simps split: option.split)

lemma apply_effect_fields:
  assumes "\<not> gs_stopping s" and "length (gs_network_queues s) = length (gs_network_shards s)"
  shows "gs_stopping (apply_effect eff s) = gs_stopping s" and "gs_logic_queues (apply_effect eff s) = gs_logic_queues s"
    and "j < length (gs_network_shards s) \<Longrightarrow>
      gs_network_queues (apply_effect eff s) ! j = gs_network_queues s ! j @ posted j [eff]"
  using assms by (cases eff; simp add: GameServer_PostToNetwork_def on_metrics_def nth_list_update)+

lemma apply_effects:
  assumes "\<not> gs_stopping s" and "length (gs_network_queues s) = length (gs_network_shards s)"
  shows "(\<forall>j < length (gs_network_shards s).
      gs_network_queues (fold apply_effect effects s) ! j = gs_network_queues s ! j @ posted j effects) \<and>
    length (gs_network_queues (fold apply_effect effects s)) = length (gs_network_queues s) \<and>
    gs_logic_queues (fold apply_effect effects s) = gs_logic_queues s \<and>
    gs_stopping (fold apply_effect effects s) = gs_stopping s \<and>
    gs_logic_shards (fold apply_effect effects s) = gs_logic_shards s \<and>
    gs_network_shards (fold apply_effect effects s) = gs_network_shards s"
  using assms
proof (induction effects arbitrary: s)
  case (Cons eff effects)
  have "posted j (eff # effects) = posted j [eff] @ posted j effects" for j
    using posted_append [of j "[eff]" effects] by simp
  then show ?case
    using Cons.IH [of "apply_effect eff s"] Cons.prems apply_effect_fields [OF Cons.prems, where eff = eff]
    by (simp add: apply_effect_keeps)
qed simp

subsection \<open>The outcome of an exchange\<close>

definition quiet :: "GameServer \<Rightarrow> bool" where
  "quiet s \<longleftrightarrow> (\<forall>q \<in> set (gs_logic_queues s). q = []) \<and> (\<forall>q \<in> set (gs_network_queues s). q = [])"

lemma quiet_nth:
  "quiet s \<Longrightarrow> k < length (gs_logic_queues s) \<Longrightarrow> gs_logic_queues s ! k = []"
  "quiet s \<Longrightarrow> j < length (gs_network_queues s) \<Longrightarrow> gs_network_queues s ! j = []"
  by (simp_all add: quiet_def)

lemma quietI:
  "(\<And>k. k < length (gs_logic_queues s) \<Longrightarrow> gs_logic_queues s ! k = []) \<Longrightarrow>
   (\<And>j. j < length (gs_network_queues s) \<Longrightarrow> gs_network_queues s ! j = []) \<Longrightarrow> quiet s"
  by (simp add: quiet_def all_set_conv_all_nth)

definition sent_session :: "SendNode list \<Rightarrow> GatewayLinkSession \<Rightarrow> GatewayLinkSession" where
  "sent_session packets x = x\<lparr>gl_accepted := gl_accepted x @ packets, gl_written := gl_written x @ packets\<rparr>"

lemma resting_sent: "resting x \<Longrightarrow> resting (sent_session packets x)"
  by (simp add: resting_def sent_session_def)

lemma flush_outcome:
  assumes "connected j i y s" and "resting x" and "packets \<noteq> []" and "length packets \<le> kMaxSendQueueDepth"
    and "y = fold PostSend packets x"
  shows "flush_link j i s = put_session j i (sent_session packets x) s"
proof -
  have y: "y = x\<lparr>gl_send_que := packets, gl_accepted := gl_accepted x @ packets, gl_is_writing := True, gl_writer := Spawned\<rparr>"
    using fold_PostSend [OF assms(2-4)] assms(5) by simp
  have "y\<lparr>gl_send_que := [], gl_written := gl_written y @ gl_send_que y, gl_is_writing := False, gl_writer := NoWriter\<rparr> =
      sent_session packets x"
    using assms(2) by (cases x) (simp add: y sent_session_def resting_def)
  moreover have "gl_writer y \<noteq> NoWriter" by (simp add: y)
  ultimately show ?thesis
    using writer_steps [OF assms(1)] assms(1) by (simp add: flush_link_def connected_def del: funpow.simps)
qed

lemma exchange_outcome:
  assumes ok: "server_ok s" "quiet s" "\<not> gs_stopping s"
    and link: "connected j i x s" "resting x" "i < 2 ^ 32"
    and read: "handle_read bytes = [node]"
    and packet: "OnPacket (e_codec e) (LogicShardCount s) now (of_nat i) (rn_msg_id node) 0 (rn_data node) (gs_network_shards s ! j) =
      ([PostToLogic shard task], n')"
    and n': "ns_slots n' = ns_slots (gs_network_shards s ! j)" "\<not> ns_stopping n'"
    and k: "unat shard = k" "k < length (gs_logic_shards s)"
    and handled: "handleTask e task (gs_logic_shards s ! k) = (effs, l')"
    and targets: "\<forall>t \<in> set (posted j effs). nk_targets t =
      [\<lparr>nt_link_id = of_nat i, nt_generation = sl_generation (ns_slots (gs_network_shards s ! j) ! i), nt_uids = uids\<rparr>]"
    and packets: "map (\<lambda>t. BuildGameToGatewayEnvelope (e_codec e) t uids) (posted j effs) = map Some packets"
      "packets \<noteq> []" "length packets \<le> kMaxSendQueueDepth"
    and others: "\<And>j'. j' < length (gs_network_shards s) \<Longrightarrow> j' \<noteq> j \<Longrightarrow> posted j' effs = []"
  shows "quiet (exchange e now j i k bytes s) \<and> \<not> gs_stopping (exchange e now j i k bytes s) \<and>
    gs_logic_shards (exchange e now j i k bytes s) = (gs_logic_shards s)[k := l'] \<and>
    gs_network_shards (exchange e now j i k bytes s) =
      (gs_network_shards s)[j := set_slot i ((ns_slots n' ! i)\<lparr>sl_session := Some (sent_session packets x)\<rparr>) n']"
proof -
  have len: "length (gs_logic_queues s) = length (gs_logic_shards s)" "length (gs_network_queues s) = length (gs_network_shards s)"
    using ok(1) by (simp_all add: server_ok_def)
  have j: "j < length (gs_network_shards s)" "i < length (ns_slots n')" "sl_state (ns_slots n' ! i) = SlotConnected"
      "sl_session (ns_slots n' ! i) = Some x" "gl_state x = Conected"
    using link(1) n'(1) by (simp_all add: connected_def link_session_def)
  define s1 where "s1 = read_link e now j i bytes s"
  have s1: "gs_logic_shards s1 = gs_logic_shards s" "gs_logic_queues s1 = (gs_logic_queues s)[k := [task]]"
      "gs_network_shards s1 = (gs_network_shards s)[j := n']" "gs_network_queues s1 = gs_network_queues s" "\<not> gs_stopping s1"
    using ok(3) k packet quiet_nth(1) [OF ok(2), of k] len
    by (simp_all add: s1_def read_link_def read run_packet_def GameServer_PostToLogic_def)
  define s2 where "s2 = run_logic_task e k s1"
  have s2: "gs_logic_shards s2 = (gs_logic_shards s)[k := l']" "gs_logic_queues s2 = (gs_logic_queues s)[k := []]"
      "gs_network_shards s2 = (gs_network_shards s)[j := n']" "\<not> gs_stopping s2"
      "length (gs_network_queues s2) = length (gs_network_shards s)"
      "\<And>j'. j' < length (gs_network_shards s) \<Longrightarrow> gs_network_queues s2 ! j' = posted j' effs"
    using apply_effects [of "s1\<lparr>gs_logic_shards := (gs_logic_shards s)[k := l'], gs_logic_queues := (gs_logic_queues s1)[k := []]\<rparr>" effs]
      handled k len s1 quiet_nth(2) [OF ok(2)]
    by (simp_all add: s2_def run_logic_task_def)
  let ?x = "fold PostSend packets x"
  have fold: "fold (HandleNetworkTask (e_codec e)) (posted j effs) n' = set_slot i ((ns_slots n' ! i)\<lparr>sl_session := Some ?x\<rparr>) n'"
    using targets by (intro fold_HandleNetworkTask [OF n'(2) j(2) link(3) j(3-5) _ packets(1)]) (simp add: n'(1))
  define s3 where "s3 = drain_network e j s2"
  have s3: "gs_logic_shards s3 = (gs_logic_shards s)[k := l']" "gs_logic_queues s3 = (gs_logic_queues s)[k := []]"
      "gs_network_shards s3 = (gs_network_shards s)[j := set_slot i ((ns_slots n' ! i)\<lparr>sl_session := Some ?x\<rparr>) n']"
      "gs_network_queues s3 = (gs_network_queues s2)[j := []]" "\<not> gs_stopping s3"
    using drain_fields [of s2 j "posted j effs" e] s2 j(1) by (simp_all add: s3_def drain_network_def fold)
  have "gl_state ?x = Conected" using j(5) by (rule fold_invariant [where P = "\<lambda>x. gl_state x = Conected", rotated]) (simp add: PostSend_state)
  then have "connected j i ?x s3"
    using j n'(2) by (simp add: connected_def link_session_def s3(3) set_slot_def)
  then have "flush_link j i s3 = put_session j i (sent_session packets x) s3"
    using flush_outcome [OF _ link(2) packets(2,3)] by blast
  then have ex: "exchange e now j i k bytes s = put_session j i (sent_session packets x) s3"
    by (simp add: exchange_def s1_def [symmetric] s2_def [symmetric] s3_def [symmetric])
  have "quiet (put_session j i (sent_session packets x) s3)"
    using s2(5,6) others quiet_nth(1) [OF ok(2)] len k(2) j(1)
    by (intro quietI) (simp_all add: put_session_def s3 nth_list_update)
  then show ?thesis
    using j by (simp add: ex) (simp add: put_session_def s3 set_slot_def)
qed

lemma find_unique:
  assumes "k < n" and "P k" and "\<And>i. i < n \<Longrightarrow> P i \<Longrightarrow> i = k"
  shows "List.find P [0..<n] = Some k"
proof -
  have "\<not> P i" if "i < k" for i using assms(1) assms(3) [of i] that by fastforce
  then show ?thesis
    using assms(1,2) unfolding find_Some_iff by (intro exI [of _ k]) simp
qed

lemma serve_exchange:
  assumes ok: "server_ok s" "quiet s" "\<not> gs_stopping s" and read: "handle_read bytes = [node]"
    and packet: "OnPacket (e_codec e) (LogicShardCount s) now (of_nat i) (rn_msg_id node) 0 (rn_data node) (gs_network_shards s ! j) =
      ([PostToLogic shard task], n')"
    and k: "unat shard = k" "k < length (gs_logic_shards s)"
  shows "serve e now j i bytes s = exchange e now j i k bytes s"
proof -
  have len: "length (gs_logic_queues s) = length (gs_logic_shards s)" using ok(1) by (simp add: server_ok_def)
  have q: "gs_logic_queues (read_link e now j i bytes s) = (gs_logic_queues s)[k := [task]]"
    using ok(3) k packet quiet_nth(1) [OF ok(2), of k] len
    by (simp add: read_link_def read run_packet_def GameServer_PostToLogic_def)
  have "List.find (\<lambda>k. gs_logic_queues (read_link e now j i bytes s) ! k \<noteq> []) [0..<length (gs_logic_queues s)] = Some k"
    using quiet_nth(1) [OF ok(2)] k(2) len unfolding q by (intro find_unique) (auto simp: nth_list_update split: if_splits)
  then show ?thesis by (simp add: serve_def)
qed

subsection \<open>An exchange is a run of the server\<close>

definition same_places :: "GameServer \<Rightarrow> GameServer \<Rightarrow> bool" where
  "same_places s t \<longleftrightarrow> length (gs_logic_shards t) = length (gs_logic_shards s) \<and>
     map (length \<circ> ns_slots) (gs_network_shards t) = map (length \<circ> ns_slots) (gs_network_shards s)"

lemma slots_network_task: "length (ns_slots (HandleNetworkTask c t n)) = length (ns_slots n)"
  using fold_constant [of "nk_targets t" "\<lambda>n. length (ns_slots n)" "send_target c t" n]
  by (simp add: HandleNetworkTask_def)

lemma slots_packet: "length (ns_slots (snd (OnPacket c l now link i seq body n))) = length (ns_slots n)"
proof -
  have "length (ns_slots (NetHandlePingReq c now link body n)) = length (ns_slots n)"
    by (simp add: NetHandlePingReq_def SendToGatewayLink_def post_to_slot_def set_slot_def Let_def split: option.split)
  then show ?thesis by (simp add: OnPacket_def slots_ForwardToLogic Let_def split: option.split prod.split)
qed

lemma same_places_update:
  assumes "length (ns_slots n) = length (ns_slots (gs_network_shards s ! j))"
    and "gs_network_shards t = (gs_network_shards s)[j := n]" and "length (gs_logic_shards t) = length (gs_logic_shards s)"
  shows "same_places s t"
  using assms by (cases "j < length (gs_network_shards s)") (auto simp: same_places_def map_update list_update_same_conv not_less list_update_beyond)

lemma same_places_trans: "same_places s t \<Longrightarrow> same_places t u \<Longrightarrow> same_places s u"
  by (simp add: same_places_def)

lemma same_placesD:
  assumes "same_places s t"
  shows "length (gs_logic_shards t) = length (gs_logic_shards s)"
    and "length (gs_network_shards t) = length (gs_network_shards s)"
    and "j < length (gs_network_shards s) \<Longrightarrow>
      length (ns_slots (gs_network_shards t ! j)) = length (ns_slots (gs_network_shards s ! j))"
proof -
  show l: "length (gs_logic_shards t) = length (gs_logic_shards s)" "length (gs_network_shards t) = length (gs_network_shards s)"
    using assms by (auto simp: same_places_def dest: map_eq_imp_length_eq)
  show "length (ns_slots (gs_network_shards t ! j)) = length (ns_slots (gs_network_shards s ! j))"
    if "j < length (gs_network_shards s)"
    using assms that l(2) by (auto simp: same_places_def list_eq_iff_nth_eq)
qed

lemma places_packet: "same_places s (run_packet e now link i body j s)"
proof (rule same_places_update)
  show "gs_network_shards (run_packet e now link i body j s) = (gs_network_shards s)[j :=
      snd (OnPacket (e_codec e) (LogicShardCount s) now link i 0 body (gs_network_shards s ! j))]"
    using fold_constant [where g = gs_network_shards and f = apply_net_effect]
    by (simp add: run_packet_def split_beta apply_net_effect_keeps)
  show "length (gs_logic_shards (run_packet e now link i body j s)) = length (gs_logic_shards s)"
    using fold_constant [where g = gs_logic_shards and f = apply_net_effect]
    by (simp add: run_packet_def split_beta apply_net_effect_keeps)
qed (rule slots_packet)

lemma logic_shards_packet: "gs_logic_shards (run_packet e now link i body j s) = gs_logic_shards s"
  using fold_constant [where g = gs_logic_shards and f = apply_net_effect]
  by (simp add: run_packet_def split_beta apply_net_effect_keeps)

lemma places_task:
  "same_places s (run_network_task e j s)" "same_places s (run_logic_task e k s)"
proof -
  show "same_places s (run_network_task e j s)"
    by (cases "gs_network_queues s ! j")
       (auto simp: run_network_task_def Let_def same_places_def [of s s] intro!: same_places_update slots_network_task)
  show "same_places s (run_logic_task e k s)"
    using fold_constant [where g = gs_logic_shards and f = apply_effect] fold_constant [where g = gs_network_shards and f = apply_effect]
    by (auto simp: run_logic_task_def same_places_def apply_effect_keeps split_beta split: list.split)
qed

lemma exchange_reachable:
  assumes s: "server_reachable e s"
    and at: "j < length (gs_network_shards s)" "i < length (ns_slots (gs_network_shards s ! j))" "k < length (gs_logic_shards s)"
    and room: "id_space_left (gs_logic_shards s ! k)"
  shows "server_reachable e (exchange e now j i k bytes s)"
proof -
  define P where "P t \<longleftrightarrow> server_reachable e t \<and> same_places s t" for t
  have s1: "P (read_link e now j i bytes s) \<and> gs_logic_shards (read_link e now j i bytes s) = gs_logic_shards s"
    unfolding read_link_def
  proof (rule fold_invariant [where P = "\<lambda>t. P t \<and> gs_logic_shards t = gs_logic_shards s"])
    fix node t assume "P t \<and> gs_logic_shards t = gs_logic_shards s"
    then show "P (run_packet e now (of_nat i) (rn_msg_id node) (rn_data node) j t) \<and>
        gs_logic_shards (run_packet e now (of_nat i) (rn_msg_id node) (rn_data node) j t) = gs_logic_shards s"
      using at(1) same_placesD(2) [of s t] places_packet same_places_trans server_next server_packet
      unfolding P_def by (metis logic_shards_packet)
  qed (simp add: P_def s same_places_def)
  have s2: "P (run_logic_task e k (read_link e now j i bytes s))"
    using s1 at(3) room server_next [OF _ server_task] places_task(2) same_places_trans unfolding P_def by metis
  have step: "P (run_network_task e j t)" if "P t" for t
  proof -
    have t: "server_reachable e t" "same_places s t" using that by (simp_all add: P_def)
    then have "j < length (gs_network_shards t)" using at(1) same_placesD(2) by metis
    then show ?thesis
      using server_next [OF t(1) server_send] same_places_trans [OF t(2) places_task(1)] by (simp add: P_def)
  qed
  have net: "P ((run_network_task e j ^^ n) t)" if "P t" for n t
    using that
  proof (induction n)
    case (Suc n)
    then have "P ((run_network_task e j ^^ n) t)" by simp
    then show ?case using step by simp
  qed simp
  then have "P (drain_network e j (run_logic_task e k (read_link e now j i bytes s)))"
    using s2 by (simp add: drain_network_def)
  then show ?thesis
    unfolding exchange_def P_def using at same_placesD by (intro flush_link_reachable) metis+
qed

end
