(* ===== verification/LonePlayer.thy ===== *)
theory LonePlayer
  imports E2ELoadTest EndToEnd Exchange
begin

text \<open>
  A player alone in a room, as the load generators create them: what the game server does with the
  requests to create the room and to be ready, from the link to the logic shard and back to the link.
\<close>

subsection \<open>The room\<close>

definition lone_room :: "u64 \<Rightarrow> u64 \<Rightarrow> bool \<Rightarrow> DungeonRoom" where
  "lone_room room_id uid ready =
     (DungeonRoom_new room_id (''room-'' @ to_string (unat room_id)) 1)
       \<lparr>dr_players := [(uid, \<lparr>p_uid = uid, p_team = 0, p_ready = ready\<rparr>)],
        dr_player_res := [(uid, PlayerRes_default)]\<rparr>"

lemma order_one:
  assumes "mset (ord xs) = mset xs" and "xs = [x]"
  shows "ord xs = [x]"
  using assms by simp

lemma lone_players:
  assumes "iter_ok ord" and "um_keys (dr_players r) = [uid]" and "um_find (dr_players r) uid = Some p"
  shows "PlayerUids ord r = [uid]" and "Players ord r = [p]"
proof -
  have "ord CPlayers (um_keys (dr_players r)) = [uid]"
    using assms(1,2) order_one [of "ord CPlayers" "um_keys (dr_players r)" uid] by (simp add: iter_ok_def)
  then show "PlayerUids ord r = [uid]" and "Players ord r = [p]"
    using assms(3) by (simp_all add: PlayerUids_def Players_def List.map_filter_simps)
qed

lemma lone_room_fields [simp]:
  "um_keys (dr_players (lone_room i uid b)) = [uid]"
  "um_find (dr_players (lone_room i uid b)) uid = Some \<lparr>p_uid = uid, p_team = 0, p_ready = b\<rparr>"
  "dr_room_id (lone_room i uid b) = i" "dr_started (lone_room i uid b) = False"
  "dr_server_tick (lone_room i uid b) = 0"
  by (simp_all add: lone_room_def DungeonRoom_new_def um_keys_def um_find_def)

lemma AddPlayer_lone:
  "snd (AddPlayer uid (DungeonRoom_new i (''room-'' @ to_string (unat i)) 1)) = lone_room i uid False"
  by (simp add: AddPlayer_def IsFull_def lone_room_def DungeonRoom_new_def um_emplace_def)

lemma SetReady_lone: "SetReady uid True (lone_room i uid b) = (True, lone_room i uid True)"
  by (simp add: SetReady_def um_adjust_def lone_room_def DungeonRoom_new_def um_find_def)

lemma lone_starts: "IsFull (lone_room i uid True)" "AllReady (lone_room i uid True)"
  by (simp_all add: IsFull_def AllReady_def lone_room_def DungeonRoom_new_def um_keys_def)

text \<open>The world of a lone player: a crystal, six villagers, eight resource fields.\<close>

definition lone_world :: "env \<Rightarrow> u64 \<Rightarrow> u64 \<Rightarrow> DungeonRoom" where
  "lone_world e i uid = BeginBattle (SpawnInitialUnits (e_ord e) (e_libm e) (SetStarted True (lone_room i uid True)))"

type_synonym shape = "u64 \<times> u64 list \<times> (u64 \<times> u32) list \<times> u64 list"

definition shape :: "DungeonRoom \<Rightarrow> shape" where
  "shape r = (dr_next_entity_id r, um_keys (dr_units r),
     map (\<lambda>(i, b). (i, b_building_type b)) (dr_buildings r), um_keys (dr_fields r))"

fun add_unit :: "shape \<Rightarrow> shape" where
  "add_unit (n, us, bs, fs) = (n + 1, if n \<in> set us then us else us @ [n], bs, fs)"

fun add_building :: "u32 \<Rightarrow> shape \<Rightarrow> shape" where
  "add_building t (n, us, bs, fs) = (n + 1, us, if n \<in> set (map fst bs) then bs else bs @ [(n, t)], fs)"

fun add_field :: "shape \<Rightarrow> shape" where
  "add_field (n, us, bs, fs) = (n + 1, us, bs, if n \<in> set fs then fs else fs @ [n])"

lemma shape_spawn:
  "shape (snd (SpawnUnit owner team t pos hp speed yaw r)) = add_unit (shape r)"
  "shape (snd (SpawnBuilding owner team type pos yaw under_construction r)) = add_building type (shape r)"
  "shape (snd (SpawnResourceField raw pos amount r)) = add_field (shape r)"
proof -
  have types: "map fst (map (\<lambda>(i, b). (i, b_building_type b)) bs) = um_keys bs" for bs
    by (induction bs) (auto simp: um_keys_def)
  show "shape (snd (SpawnUnit owner team t pos hp speed yaw r)) = add_unit (shape r)"
      "shape (snd (SpawnResourceField raw pos amount r)) = add_field (shape r)"
    by (simp_all add: shape_def SpawnUnit_def SpawnResourceField_def Let_def um_keys_emplace um_find_None_iff)
  show "shape (snd (SpawnBuilding owner team type pos yaw under_construction r)) = add_building type (shape r)"
    by (cases "um_find (dr_buildings r) (dr_next_entity_id r)")
       (simp_all only: add_building.simps shape_def types,
        simp_all add: SpawnBuilding_def Let_def um_emplace_def um_find_None_iff [symmetric])
qed

lemma shape_fold:
  assumes "\<And>x r. shape (f x r) = g (shape r)"
  shows "shape (fold f xs r) = fold (\<lambda>_. g) xs (shape r)"
  using assms by (induction xs arbitrary: r) simp_all

lemma shape_spawn_player:
  "shape (spawn_player m p r) =
     (add_field ^^ 8) ((add_unit ^^ 6) (add_building kBuildingCrystal (shape r)))"
proof -
  have u: "fold (\<lambda>_. add_unit) [0..<kStartUnitsPerPlayer] s = (add_unit ^^ 6) s" for s
    by (simp add: kStartUnitsPerPlayer_def upt_rec eval_nat_numeral)
  have f: "fold (\<lambda>_. add_field) start_resources s = (add_field ^^ 8) s" for s
    by (simp add: start_resources_def eval_nat_numeral)
  have "shape (spawn_resource layout spec r) = add_field (shape r)" for layout spec r
    by (simp add: spawn_resource_def shape_spawn Let_def split: prod.split)
  then have field: "shape (fold (spawn_resource layout) xs r) = fold (\<lambda>_. add_field) xs (shape r)" for layout xs r
    by (rule shape_fold)
  have unit: "shape (fold (\<lambda>i r. snd (SpawnUnit owner team t (pos i) hp speed yaw r)) xs r) = fold (\<lambda>_. add_unit) xs (shape r)"
    for owner team t pos hp speed yaw r and xs :: "nat list"
    by (rule shape_fold) (rule shape_spawn(1))
  show ?thesis
    by (simp only: spawn_player_def Let_def field f unit u shape_spawn(2))
qed

lemma first_shape:
  "(add_field ^^ 8) ((add_unit ^^ 6) (add_building kBuildingCrystal (1, [], [], []))) =
     (16, [2, 3, 4, 5, 6, 7], [(1, kBuildingCrystal)], [8, 9, 10, 11, 12, 13, 14, 15])"
proof -
  have "(f ^^ 6) x = f (f (f (f (f (f x)))))" "(f ^^ 8) x = f (f (f (f (f (f (f (f x)))))))" for f :: "shape \<Rightarrow> shape" and x
    by (simp_all add: eval_nat_numeral)
  then show ?thesis by simp
qed

lemma lone_world_shape:
  assumes "iter_ok (e_ord e)"
  shows "shape (lone_world e i uid) =
    (16, [2, 3, 4, 5, 6, 7], [(1, kBuildingCrystal)], [8, 9, 10, 11, 12, 13, 14, 15])"
proof -
  let ?r = "SetStarted True (lone_room i uid True)"
  have "shape (BeginBattle r) = shape r" for r by (simp add: shape_def BeginBattle_def)
  moreover have "SpawnInitialUnits (e_ord e) (e_libm e) ?r = spawn_player (e_libm e) \<lparr>p_uid = uid, p_team = 0, p_ready = True\<rparr> ?r"
    using lone_players(2) [OF assms, of ?r uid] by (simp add: SpawnInitialUnits_def SetStarted_def)
  moreover have "shape ?r = (1, [], [], [])"
    by (simp add: shape_def SetStarted_def lone_room_def DungeonRoom_new_def)
  ultimately show ?thesis
    by (simp only: lone_world_def shape_spawn_player first_shape)
qed

subsection \<open>The generated code\<close>

text \<open>Iteration visits every element of a container once, whatever the container.\<close>

definition orders_ok :: "env \<Rightarrow> bool" where
  "orders_ok e \<longleftrightarrow> iter_ok (e_ord e) \<and> (\<forall>xs. mset (e_ord_net e xs) = mset xs) \<and> (\<forall>xs. mset (e_ord_link e xs) = mset xs)"

text \<open>The two sides of the generated code fit together: what the tool serialises the server parses, what the
  server serialises the tool parses, as far as it reads it.\<close>

definition tool_codec_ok :: "tool_codec \<Rightarrow> codec \<Rightarrow> bool" where
  "tool_codec_ok tc c \<longleftrightarrow>
     (\<forall>env. cd_envelope c (tc_envelope tc env) = Some env) \<and>
     (\<forall>n. cd_create_room c (tc_create_room tc n) = Some \<lparr>cr_room_name = [], cr_max_players = n\<rparr>) \<and>
     (\<forall>r. cd_player_ready c (tc_player_ready tc r True) = Some \<lparr>pr_room_id = r, pr_ready = True\<rparr>) \<and>
     (\<forall>uids i seq p bytes. cd_serialize c (GameToGateMsg uids i seq p) = Some bytes \<longrightarrow>
        tc_game_to_gate tc bytes = Some \<lparr>gg_target_uids = uids, gg_inner_msg_id = ucast i, gg_payload = p\<rparr>) \<and>
     (\<forall>code r reason bytes. cd_serialize c (CreateRoomRspMsg code r reason) = Some bytes \<longrightarrow>
        tc_create_rsp tc bytes = Some r) \<and>
     (\<forall>r tick us bs fs ds rs bytes. cd_serialize c (SnapshotMsg r tick us bs fs ds rs) = Some bytes \<longrightarrow>
        tc_snapshot tc bytes = Some \<lparr>sv_server_tick = tick, sv_units = map us_id us,
          sv_buildings = map (\<lambda>b. (bs_id b, bs_building_type b)) bs, sv_fields = map fs_id fs\<rparr>)"

text \<open>Small messages are serialised, to few bytes: the messages of a room with one player.\<close>

fun lone_msg :: "ServerMsg \<Rightarrow> bool" where
  "lone_msg (CreateRoomRspMsg code r reason) \<longleftrightarrow> reason = []"
| "lone_msg (RoomStateMsg r ps) \<longleftrightarrow> length ps \<le> 1"
| "lone_msg (GameStartMsg r tick rate snapshots seed) \<longleftrightarrow> True"
| "lone_msg (SnapshotMsg r tick us bs fs ds rs) \<longleftrightarrow>
     length us \<le> 6 \<and> length bs \<le> 1 \<and> length fs \<le> 8 \<and> ds = [] \<and> length rs \<le> 1"
| "lone_msg m \<longleftrightarrow> False"

definition small_messages :: "tool_codec \<Rightarrow> codec \<Rightarrow> bool" where
  "small_messages tc c \<longleftrightarrow>
     (\<forall>m. lone_msg m \<longrightarrow> (\<exists>bytes. cd_serialize c m = Some bytes \<and> length bytes \<le> 8192)) \<and>
     (\<forall>uid i seq p. length p \<le> 8192 \<longrightarrow> (\<exists>bytes. cd_serialize c (GameToGateMsg [uid] i seq p) = Some bytes \<and> length bytes \<le> kMaxPacketBodyLen)) \<and>
     length (tc_create_room tc 1) \<le> 64 \<and> (\<forall>r. length (tc_player_ready tc r True) \<le> 64) \<and>
     (\<forall>env. length (ge_payload env) \<le> 64 \<longrightarrow> length (tc_envelope tc env) \<le> kMaxPacketBodyLen)"

lemma small_serialized: "small_messages tc c \<Longrightarrow> lone_msg m \<Longrightarrow> cd_serialize c m \<noteq> None"
  unfolding small_messages_def by blast

subsection \<open>Answers to one player\<close>

definition answer :: "env \<Rightarrow> GatewayRoute \<Rightarrow> u64 \<Rightarrow> MsgId \<Rightarrow> ServerMsg \<Rightarrow> u64 \<Rightarrow> NetworkTask" where
  "answer e route uid i m seq =
     \<lparr>nk_msg_id = i, nk_seq = seq,
      nk_targets = [\<lparr>nt_link_id = gr_link_id route, nt_generation = gr_generation route, nt_uids = [uid]\<rparr>],
      nk_body = SendNode_new (the (cd_serialize (e_codec e) m)) i kPacketFlagNone\<rparr>"

lemma SendToPlayers_one:
  assumes "orders_ok e" and "um_find routes uid = Some route" and "cd_serialize (e_codec e) m \<noteq> None"
  shows "SendToPlayers e routes i [uid] m seq = [PostToNetwork (gr_net_shard route) (answer e route uid i m seq)]"
proof -
  have "e_ord_net e [gr_net_shard route] = [gr_net_shard route]" "e_ord_link e [gr_link_id route] = [gr_link_id route]"
    using assms(1) order_one [of "e_ord_net e"] order_one [of "e_ord_link e"] by (simp_all add: orders_ok_def)
  then show ?thesis
    using assms(2,3)
    by (auto simp: SendToPlayers_def answer_def add_target_def link_targets_def um_assign_def um_keys_def um_find_def
        List.map_filter_simps Let_def)
qed

text \<open>The packet on the link that carries an answer, and what the tool reads of it.\<close>

definition answer_packet :: "env \<Rightarrow> u64 \<Rightarrow> MsgId \<Rightarrow> ServerMsg \<Rightarrow> u64 \<Rightarrow> byte list" where
  "answer_packet e uid i m seq =
     the (cd_serialize (e_codec e) (GameToGateMsg [uid] i seq (the (cd_serialize (e_codec e) m))))"

lemma answer_wrapped:
  assumes "small_messages tc (e_codec e)" and "tool_codec_ok tc (e_codec e)" and "lone_msg m"
  shows "BuildGameToGatewayEnvelope (e_codec e) (answer e route uid i m seq) [uid] =
      Some (SendNode_new (answer_packet e uid i m seq) GameToGateEnvelope kPacketFlagNone)"
    and "length (answer_packet e uid i m seq) \<le> kMaxPacketBodyLen"
    and "tc_game_to_gate tc (answer_packet e uid i m seq) =
      Some \<lparr>gg_target_uids = [uid], gg_inner_msg_id = ucast i, gg_payload = the (cd_serialize (e_codec e) m)\<rparr>"
    and "cd_serialize (e_codec e) m = Some (the (cd_serialize (e_codec e) m))"
proof -
  obtain payload where p: "cd_serialize (e_codec e) m = Some payload" "length payload \<le> 8192"
    using assms(1,3) unfolding small_messages_def by blast
  then obtain bytes where b: "cd_serialize (e_codec e) (GameToGateMsg [uid] i seq payload) = Some bytes"
      "length bytes \<le> kMaxPacketBodyLen"
    using assms(1) unfolding small_messages_def by blast
  show "BuildGameToGatewayEnvelope (e_codec e) (answer e route uid i m seq) [uid] =
      Some (SendNode_new (answer_packet e uid i m seq) GameToGateEnvelope kPacketFlagNone)"
    using BuildGameToGatewayEnvelope_eq [of "e_codec e" "[uid]" "answer e route uid i m seq" payload bytes] p b
    by (simp add: answer_def answer_packet_def)
  show "length (answer_packet e uid i m seq) \<le> kMaxPacketBodyLen"
    using b p by (simp add: answer_packet_def)
  show "tc_game_to_gate tc (answer_packet e uid i m seq) =
      Some \<lparr>gg_target_uids = [uid], gg_inner_msg_id = ucast i, gg_payload = the (cd_serialize (e_codec e) m)\<rparr>"
    using assms(2) b p by (simp add: answer_packet_def tool_codec_ok_def)
  show "cd_serialize (e_codec e) m = Some (the (cd_serialize (e_codec e) m))" using p by simp
qed

subsection \<open>The requests\<close>

definition create_body :: "tool_codec \<Rightarrow> u64 \<Rightarrow> byte list" where
  "create_body tc uid = tc_envelope tc (tool_envelope uid 0 CreateRoomReq (tc_create_room tc 1))"

definition ready_body :: "tool_codec \<Rightarrow> u64 \<Rightarrow> u64 \<Rightarrow> byte list" where
  "ready_body tc uid room_id = tc_envelope tc (tool_envelope uid room_id PlayerReadyReq (tc_player_ready tc room_id True))"

lemma body_sizes:
  assumes "small_messages tc c"
  shows "length (create_body tc uid) \<le> kMaxPacketBodyLen" "length (ready_body tc uid room_id) \<le> kMaxPacketBodyLen"
    "length (tc_create_room tc 1) \<le> kMaxPacketBodyLen" "length (tc_player_ready tc room_id True) \<le> kMaxPacketBodyLen"
proof -
  note s = assms [unfolded small_messages_def]
  show "length (create_body tc uid) \<le> kMaxPacketBodyLen" "length (ready_body tc uid room_id) \<le> kMaxPacketBodyLen"
    using s by (simp_all add: create_body_def ready_body_def tool_envelope_def)
  have "(64 :: nat) \<le> kMaxPacketBodyLen" by (simp add: kMaxPacketBodyLen_def)
  moreover have "length (tc_create_room tc 1) \<le> 64" "length (tc_player_ready tc room_id True) \<le> 64" using s by blast+
  ultimately show "length (tc_create_room tc 1) \<le> kMaxPacketBodyLen" "length (tc_player_ready tc room_id True) \<le> kMaxPacketBodyLen"
    by linarith+
qed

text \<open>A packet body that the server takes for a request of player \<open>uid\<close>, whoever wrapped it.\<close>

definition request :: "codec \<Rightarrow> u64 \<Rightarrow> MsgId \<Rightarrow> byte list \<Rightarrow> Envelope \<Rightarrow> bool" where
  "request c uid inner body env \<longleftrightarrow>
     length body \<le> kMaxPacketBodyLen \<and> cd_envelope c body = Some env \<and> ge_uid env = uid \<and>
     ge_inner_msg_id env = ucast inner \<and> ge_client_seq env = 0 \<and> length (ge_payload env) \<le> kMaxPacketBodyLen"

lemma parse_request_body:
  assumes "request (e_codec e) uid inner body env" and "lt_body task = body" and "parse (ge_payload env) = Some req"
  shows "parse_request e parse task = Some (env, req)"
  using assms by (simp add: parse_request_def request_def ParseProtoFromBytes_small)

lemma tool_requests:
  assumes "small_messages tc c" and "tool_codec_ok tc c"
  shows "request c uid CreateRoomReq (create_body tc uid) (tool_envelope uid 0 CreateRoomReq (tc_create_room tc 1))"
    and "request c uid PlayerReadyReq (ready_body tc uid room_id)
      (tool_envelope uid room_id PlayerReadyReq (tc_player_ready tc room_id True))"
    and "cd_create_room c (tc_create_room tc 1) = Some \<lparr>cr_room_name = [], cr_max_players = 1\<rparr>"
    and "cd_player_ready c (tc_player_ready tc room_id True) = Some \<lparr>pr_room_id = room_id, pr_ready = True\<rparr>"
proof -
  have e: "cd_envelope c (tc_envelope tc env) = Some env" for env using assms(2) by (simp add: tool_codec_ok_def)
  show "request c uid CreateRoomReq (create_body tc uid) (tool_envelope uid 0 CreateRoomReq (tc_create_room tc 1))"
    using body_sizes [OF assms(1)] e by (simp add: request_def create_body_def) (simp add: tool_envelope_def)
  show "request c uid PlayerReadyReq (ready_body tc uid room_id)
      (tool_envelope uid room_id PlayerReadyReq (tc_player_ready tc room_id True))"
    using body_sizes [OF assms(1)] e by (simp add: request_def ready_body_def) (simp add: tool_envelope_def)
  show "cd_create_room c (tc_create_room tc 1) = Some \<lparr>cr_room_name = [], cr_max_players = 1\<rparr>"
    "cd_player_ready c (tc_player_ready tc room_id True) = Some \<lparr>pr_room_id = room_id, pr_ready = True\<rparr>"
    using assms(2) by (simp_all add: tool_codec_ok_def)
qed

definition created_msg :: "u64 \<Rightarrow> ServerMsg" where
  "created_msg room_id = CreateRoomRspMsg ERROR_NONE room_id []"

definition state_msg :: "u64 \<Rightarrow> u64 \<Rightarrow> bool \<Rightarrow> ServerMsg" where
  "state_msg room_id uid ready = RoomStateMsg room_id [(uid, TEAM_PLAYER, ready)]"

lemma BroadcastRoomState_lone:
  assumes "orders_ok e" and "um_find routes uid = Some route" and "cd_serialize (e_codec e) (state_msg i uid b) \<noteq> None"
  shows "BroadcastRoomState e routes (lone_room i uid b) =
    [PostToNetwork (gr_net_shard route) (answer e route uid RoomStateNtf (state_msg i uid b) 0)]"
proof -
  have "PlayerUids (e_ord e) (lone_room i uid b) = [uid]"
      "Players (e_ord e) (lone_room i uid b) = [\<lparr>p_uid = uid, p_team = 0, p_ready = b\<rparr>]"
    using lone_players [of "e_ord e" "lone_room i uid b" uid] assms(1) by (simp_all add: orders_ok_def)
  then show ?thesis
    using SendToPlayers_one [OF assms] by (simp add: BroadcastRoomState_def SendToPlayer_def state_msg_def ToProtoTeam_def Let_def)
qed

lemma route_new_room_id: "new_room_id (l\<lparr>ls_uid_route := routes\<rparr>) = new_room_id l"
  by (simp add: new_room_id_def)

lemma create_alone:
  assumes codec: "small_messages tc (e_codec e)" and e: "orders_ok e"
    and task: "lt_msg_id task = CreateRoomReq" "lt_uid task = uid" "lt_origin task = route" "lt_body task = body"
    and body: "request (e_codec e) uid CreateRoomReq body env"
      "cd_create_room (e_codec e) (ge_payload env) = Some \<lparr>cr_room_name = [], cr_max_players = 1\<rparr>"
    and l: "um_find (ls_uid_to_room l) uid = None" "um_find (ls_rooms l) (new_room_id l) = None" and uid: "uid \<noteq> 0"
  shows "handleTask e task l =
    ([CountCommand,
      PostToNetwork (gr_net_shard route) (answer e route uid CreateRoomRsp (created_msg (new_room_id l)) 0),
      PostToNetwork (gr_net_shard route) (answer e route uid RoomStateNtf (state_msg (new_room_id l) uid False) 0)],
     l\<lparr>ls_uid_route := um_assign uid route (ls_uid_route l), ls_next_room_id := ls_next_room_id l + 1,
       ls_rooms := ls_rooms l @ [(new_room_id l, lone_room (new_room_id l) uid False)],
       ls_uid_to_room := um_assign uid (new_room_id l) (ls_uid_to_room l)\<rparr>)"
proof -
  let ?i = "new_room_id l" and ?routes = "um_assign uid route (ls_uid_route l)"
  have route: "um_find ?routes uid = Some route" by simp
  have ser: "cd_serialize (e_codec e) (created_msg ?i) \<noteq> None" "cd_serialize (e_codec e) (state_msg ?i uid False) \<noteq> None"
    by (rule small_serialized [OF codec], simp add: created_msg_def state_msg_def)+
  have fresh: "?i \<notin> set (um_keys (ls_rooms l))" using l(2) by (simp add: um_find_None_iff)
  have rooms: "um_adjust ?i (\<lambda>_. r') (ls_rooms l @ [(?i, r)]) = ls_rooms l @ [(?i, r')]" for r r'
    using fresh by (auto simp: um_adjust_def um_keys_def image_iff intro!: map_idI)
  have found: "um_find (ls_rooms l @ [(?i, r)]) ?i = Some r" for r
    using l(2) by (simp add: um_find_def map_add_def)
  show ?thesis
    using task l uid found parse_request_body [OF body(1) task(4), where parse = "cd_create_room (e_codec e)", OF body(2)] SendToPlayers_one [OF e route ser(1)] BroadcastRoomState_lone [OF e route ser(2)]
      rooms AddPlayer_lone [of uid ?i]
    by (simp add: handleTask_def Dispatch_def HandleCreateRoom_def LeaveRoomInternal_def route_new_room_id SendToPlayer_def
        um_emplace_def set_room_def NormalizeMaxPlayers_def kMaxRoomPlayers_def created_msg_def Let_def)
qed

subsection \<open>The start of the game\<close>

definition calm :: "DungeonRoom \<Rightarrow> (u64, ResourceDropEntity) umap \<times> u64 \<times> bool \<times> bool" where
  "calm r = (dr_drops r, dr_server_tick r, dr_started r, dr_game_over r)"

lemma calm_spawn_player: "calm (spawn_player m p r) = calm r"
proof -
  have spawn: "calm (snd (SpawnUnit a b c d f g h r)) = calm r" "calm (snd (SpawnBuilding a b c d f under r)) = calm r"
      "calm (spawn_resource layout spec r) = calm r" for a b c d f g h under layout spec r
    by (simp_all add: calm_def SpawnUnit_def SpawnBuilding_def SpawnResourceField_def spawn_resource_def Let_def split: prod.split)
  have "calm (fold (spawn_resource layout) xs r) = calm r" for layout xs r by (rule fold_constant) (rule spawn(3))
  moreover have "calm (fold (\<lambda>i r. snd (SpawnUnit owner team t (pos i) hp speed yaw r)) xs r) = calm r"
    for owner team t pos hp speed yaw r and xs :: "nat list" by (rule fold_constant) (rule spawn(1))
  ultimately show ?thesis by (simp add: spawn_player_def Let_def spawn(2))
qed

lemma lone_world_fields:
  assumes "iter_ok (e_ord e)"
  shows "dr_drops (lone_world e i uid) = []" "dr_server_tick (lone_world e i uid) = 0"
    "dr_started (lone_world e i uid)" "\<not> dr_game_over (lone_world e i uid)" "dr_room_id (lone_world e i uid) = i"
    "um_keys (dr_players (lone_world e i uid)) = [uid]" "um_keys (dr_player_res (lone_world e i uid)) = [uid]"
    "keyed (lone_world e i uid)"
proof -
  let ?r = "SetStarted True (lone_room i uid True)"
  have "calm (lone_world e i uid) = calm ?r"
    using fold_constant [where g = calm and f = "spawn_player (e_libm e)"] calm_spawn_player
    by (simp add: lone_world_def calm_def BeginBattle_def SpawnInitialUnits_def)
  then show "dr_drops (lone_world e i uid) = []" "dr_server_tick (lone_world e i uid) = 0"
    "dr_started (lone_world e i uid)" "\<not> dr_game_over (lone_world e i uid)"
    by (simp_all add: calm_def SetStarted_def lone_room_def DungeonRoom_new_def)
  have "same_members ?r (lone_world e i uid)"
    unfolding lone_world_def by (rule same_members_trans [OF same_members_SpawnInitialUnits same_members_BeginBattle])
  moreover have "keyed ?r"
    by (simp add: SetStarted_def lone_room_def DungeonRoom_new_def keyed_def keyed_by_def um_ok_def um_keys_def)
  moreover have "um_keys (dr_player_res ?r) = [uid]" by (simp add: SetStarted_def lone_room_def um_keys_def)
  ultimately show "dr_room_id (lone_world e i uid) = i" "um_keys (dr_players (lone_world e i uid)) = [uid]"
    "um_keys (dr_player_res (lone_world e i uid)) = [uid]" "keyed (lone_world e i uid)"
    by (simp_all add: same_members_def SetStarted_def)
qed

definition start_msg :: "u64 \<Rightarrow> ServerMsg" where
  "start_msg i = GameStartMsg i 0 kDefaultTickRate (ucast kFullSnapshotInterval) (i * 1103515245 + 12345)"

definition snapshot_msg :: "iter_order \<Rightarrow> DungeonRoom \<Rightarrow> ServerMsg" where
  "snapshot_msg ord room =
     SnapshotMsg (dr_room_id room) (dr_server_tick room)
       (map FillUnitSnapshot (List.map_filter (FindUnit room) (ord CUnits (um_keys (dr_units room)))))
       (map FillBuildingSnapshot (List.map_filter (FindBuilding room) (ord CBuildings (um_keys (dr_buildings room)))))
       (map FillFieldSnapshot (List.map_filter (FindField room) (ord CFields (um_keys (dr_fields room)))))
       (map FillDropSnapshot (List.map_filter (FindDrop room) (ord CDrops (um_keys (dr_drops room)))))
       (List.map_filter (\<lambda>uid. map_option (FillPlayerResources uid) (FindPlayerRes room uid))
          (ord CPlayerRes (um_keys (dr_player_res room))))"

lemma length_map_filter: "length (List.map_filter f xs) \<le> length xs"
  by (induction xs) (auto simp: List.map_filter_simps split: option.split)

lemma length_order: "iter_ok ord \<Longrightarrow> length (ord c xs) = length xs"
  by (metis iter_ok_def size_mset)

lemma snapshot_small:
  assumes "iter_ok (e_ord e)"
  shows "lone_msg (snapshot_msg (e_ord e) (lone_world e i uid))"
proof -
  let ?w = "lone_world e i uid"
  have sh: "um_keys (dr_units ?w) = [2, 3, 4, 5, 6, 7]" "length (dr_buildings ?w) = 1" "um_keys (dr_fields ?w) = [8, 9, 10, 11, 12, 13, 14, 15]"
    using lone_world_shape [OF assms, of i uid] by (auto simp: shape_def dest: arg_cong [where f = length])
  have "e_ord e CDrops [] = []" using length_order [OF assms, of CDrops "[]"] by simp
  then show ?thesis
    using length_map_filter [of "FindBuilding ?w" "e_ord e CBuildings (um_keys (dr_buildings ?w))"]
      length_map_filter [of "FindUnit ?w" "e_ord e CUnits (um_keys (dr_units ?w))"]
      length_map_filter [of "FindField ?w" "e_ord e CFields (um_keys (dr_fields ?w))"]
      length_map_filter [of "\<lambda>uid. map_option (FillPlayerResources uid) (FindPlayerRes ?w uid)" "e_ord e CPlayerRes (um_keys (dr_player_res ?w))"]
      sh lone_world_fields(1,7) [OF assms, of i uid]
    by (simp add: snapshot_msg_def length_order [OF assms] List.map_filter_simps um_keys_def [of "dr_buildings ?w"])
qed

lemma ids_found:
  assumes "keyed_by sel m" and "set xs \<subseteq> set (um_keys m)"
  shows "map sel (List.map_filter (um_find m) xs) = xs"
  using assms(2)
proof (induction xs)
  case (Cons x xs)
  then obtain v where "um_find m x = Some v" using um_find_None_iff [of m x] by fastforce
  then show ?case using Cons keyed_by_find [OF assms(1)] by (simp add: List.map_filter_simps)
qed (simp add: List.map_filter_simps)

text \<open>What a client learns from the first snapshot.\<close>

definition lone_view :: "env \<Rightarrow> SnapshotView" where
  "lone_view e = \<lparr>sv_server_tick = 0, sv_units = e_ord e CUnits [2, 3, 4, 5, 6, 7], sv_buildings = [(1, kBuildingCrystal)],
     sv_fields = e_ord e CFields [8, 9, 10, 11, 12, 13, 14, 15]\<rparr>"

lemma lone_snapshot_view:
  assumes "iter_ok (e_ord e)" and "tool_codec_ok tc c"
    and "cd_serialize c (snapshot_msg (e_ord e) (lone_world e i uid)) = Some bytes"
  shows "tc_snapshot tc bytes = Some (lone_view e)"
proof -
  let ?w = "lone_world e i uid"
  note k = lone_world_fields(8) [OF assms(1), of i uid, unfolded keyed_def]
  have sh: "um_keys (dr_units ?w) = [2, 3, 4, 5, 6, 7]" "um_keys (dr_fields ?w) = [8, 9, 10, 11, 12, 13, 14, 15]"
      "map (\<lambda>(i, b). (i, b_building_type b)) (dr_buildings ?w) = [(1, kBuildingCrystal)]"
    using lone_world_shape [OF assms(1), of i uid] by (auto simp: shape_def)
  have perm: "set (e_ord e c xs) = set xs" for c xs using assms(1) by (metis iter_ok_def set_mset_mset)
  obtain b where b: "dr_buildings ?w = [(1, b)]" "b_building_type b = kBuildingCrystal" using sh(3) by auto
  then have "b_id b = 1" using k by (simp add: keyed_by_def)
  moreover have "e_ord e CBuildings [1] = [1]" using assms(1) unfolding iter_ok_def by (intro order_one [OF _ refl]) blast
  ultimately have "map (\<lambda>b. (bs_id b, bs_building_type b)) (map FillBuildingSnapshot
      (List.map_filter (FindBuilding ?w) (e_ord e CBuildings (um_keys (dr_buildings ?w))))) = [(1, kBuildingCrystal)]"
    using b by (simp add: um_keys_def FindBuilding_def [abs_def] um_find_def List.map_filter_simps FillBuildingSnapshot_def)
  moreover have "map us_id (map FillUnitSnapshot (List.map_filter (FindUnit ?w) xs)) = map u_id (List.map_filter (um_find (dr_units ?w)) xs)"
      "map fs_id (map FillFieldSnapshot (List.map_filter (FindField ?w) xs)) = map f_id (List.map_filter (um_find (dr_fields ?w)) xs)" for xs
    by (simp_all add: FillUnitSnapshot_def FillFieldSnapshot_def FindUnit_def [abs_def] FindField_def [abs_def])
  ultimately show ?thesis
    using assms(2,3) ids_found [of u_id "dr_units ?w" "e_ord e CUnits (um_keys (dr_units ?w))"]
      ids_found [of f_id "dr_fields ?w" "e_ord e CFields (um_keys (dr_fields ?w))"] k sh(1,2) perm
      lone_world_fields(2) [OF assms(1), of i uid]
    unfolding tool_codec_ok_def snapshot_msg_def lone_view_def by simp
qed

lemma ready_alone:
  assumes codec: "small_messages tc (e_codec e)" and e: "orders_ok e"
    and task: "lt_msg_id task = PlayerReadyReq" "lt_uid task = uid" "lt_origin task = route" "lt_body task = body"
    and body: "request (e_codec e) uid PlayerReadyReq body env"
      "cd_player_ready (e_codec e) (ge_payload env) = Some \<lparr>pr_room_id = i, pr_ready = True\<rparr>"
    and room: "um_find (ls_rooms l) i = Some (lone_room i uid False)" "i \<noteq> 0" and uid: "uid \<noteq> 0"
  shows "handleTask e task l =
    ([CountCommand,
      PostToNetwork (gr_net_shard route) (answer e route uid RoomStateNtf (state_msg i uid True) 0),
      PostToNetwork (gr_net_shard route) (answer e route uid GameStartNtf (start_msg i) 0),
      CountSnapshot,
      PostToNetwork (gr_net_shard route) (answer e route uid SnapshotNtf (snapshot_msg (e_ord e) (lone_world e i uid)) 0)],
     set_room i (ClearFrameChanges (lone_world e i uid)) (l\<lparr>ls_uid_route := um_assign uid route (ls_uid_route l)\<rparr>))"
proof -
  let ?routes = "um_assign uid route (ls_uid_route l)" and ?w = "lone_world e i uid"
  have route: "um_find ?routes uid = Some route" by simp
  have it: "iter_ok (e_ord e)" using e by (simp add: orders_ok_def)
  have ser: "cd_serialize (e_codec e) (state_msg i uid True) \<noteq> None" "cd_serialize (e_codec e) (start_msg i) \<noteq> None"
      "cd_serialize (e_codec e) (snapshot_msg (e_ord e) ?w) \<noteq> None"
    by (rule small_serialized [OF codec], simp add: state_msg_def start_msg_def snapshot_small [OF it])+
  have "PlayerUids (e_ord e) (SetStarted True (lone_room i uid True)) = [uid]"
    using lone_players(1) [OF it, of _ uid] by (simp add: SetStarted_def)
  then have started: "BroadcastGameStart e ?routes (SetStarted True (lone_room i uid True)) =
      [PostToNetwork (gr_net_shard route) (answer e route uid GameStartNtf (start_msg i) 0)]"
    using SendToPlayers_one [OF e route ser(2)]
    by (simp add: BroadcastGameStart_def SendToPlayer_def start_msg_def SetStarted_def Let_def)
  obtain p where "um_find (dr_players ?w) uid = Some p"
    using lone_world_fields(6) [OF it, of i uid] um_find_None_iff [of "dr_players ?w" uid] by fastforce
  then have "PlayerUids (e_ord e) ?w = [uid]" using lone_players(1) [OF it lone_world_fields(6) [OF it]] by blast
  then have snap: "SendFullSnapshot e ?routes ?w =
      [CountSnapshot, PostToNetwork (gr_net_shard route) (answer e route uid SnapshotNtf (snapshot_msg (e_ord e) ?w) 0)]"
    using SendToPlayers_one [OF e route ser(3)] lone_world_fields(2) [OF it, of i uid]
    unfolding SendFullSnapshot_def Let_def snapshot_msg_def by simp
  have start: "start_game e ?routes (lone_room i uid True) =
      ([PostToNetwork (gr_net_shard route) (answer e route uid GameStartNtf (start_msg i) 0), CountSnapshot,
        PostToNetwork (gr_net_shard route) (answer e route uid SnapshotNtf (snapshot_msg (e_ord e) ?w) 0)], ClearFrameChanges ?w)"
    using started snap by (simp add: start_game_def lone_world_def Let_def)
  show ?thesis
    using task uid room parse_request_body [OF body(1) task(4), where parse = "cd_player_ready (e_codec e)", OF body(2)] BroadcastRoomState_lone [OF e route ser(1)] start lone_starts [of i uid]
      SetReady_lone [of uid i False]
    by (simp add: handleTask_def Dispatch_def HandlePlayerReady_def requested_room_def Let_def)
qed

end
