(* ===== verification/LoneGame.thy ===== *)
theory LoneGame
  imports LonePlayer
begin

text \<open>
  The load generator against the game server: from the request for a room to the running game, through
  every layer of the server and back to the tool.
\<close>

subsection \<open>Network shards know their place\<close>

lemma shard_id_steps:
  "ns_shard_id (DoAccept n) = ns_shard_id n" "ns_shard_id (accept_slot i gen result n) = ns_shard_id n"
  "ns_shard_id (NetworkShard_Stop n) = ns_shard_id n" "ns_shard_id (link_event i x n) = ns_shard_id n"
  "ns_shard_id (send_target c t tgt n) = ns_shard_id n" "ns_shard_id (NetworkShard_Start n) = ns_shard_id n"
  by (simp_all add: DoAccept_def accept_slot_def NetworkShard_Stop_def NetworkShard_Start_def link_event_def send_target_def
      post_to_slot_def set_slot_def NotifyOwnerClosed_def OnSessionClosed_def Let_def split: option.split)

lemma shard_id_task: "ns_shard_id (HandleNetworkTask c t n) = ns_shard_id n"
  by (simp add: HandleNetworkTask_def fold_constant shard_id_steps)

lemma shard_id_packet: "ns_shard_id (snd (OnPacket c l now link i seq body n)) = ns_shard_id n"
  by (auto simp: OnPacket_def NetHandlePingReq_def SendToGatewayLink_def post_to_slot_def set_slot_def ForwardToLogic_def
      ResolveLogicShard_def PickLogicShard_def split_beta Let_def split: option.split)

lemma shard_id_net_step: "net_step n n' \<Longrightarrow> ns_shard_id n' = ns_shard_id n"
  by (induction rule: net_step.induct) (simp_all add: shard_id_steps shard_id_task shard_id_packet on_accept_def Let_def)

lemma network_ids_update:
  "map ns_shard_id (ns[j := n]) = map ns_shard_id ns" if "ns_shard_id n = ns_shard_id (ns ! j)"
  using that by (cases "j < length ns") (simp_all add: map_update list_update_same_conv not_less list_update_beyond)

lemma network_ids_step: "server_step e s t \<Longrightarrow> map ns_shard_id (gs_network_shards t) = map ns_shard_id (gs_network_shards s)"
proof (induction rule: server_step.induct)
  case (server_task i s)
  then show ?case
    using fold_constant [where g = gs_network_shards and f = apply_effect]
    by (simp add: run_logic_task_def apply_effect_keeps split_beta split: list.split)
next
  case (server_tick i s us)
  then show ?case
    using fold_constant [where g = gs_network_shards and f = apply_effect]
    by (simp add: run_tick_def apply_effect_keeps split_beta)
next
  case (server_packet j s now link i body)
  then show ?case
    using fold_constant [where g = gs_network_shards and f = apply_net_effect]
    by (simp add: run_packet_def apply_net_effect_keeps split_beta network_ids_update shard_id_packet)
qed (simp_all add: GameServer_Start_def GameServer_Stop_def run_network_task_def shard_id_steps shard_id_task network_ids_update
      shard_id_net_step Let_def split: list.split)

lemma network_ids:
  assumes "server_reachable e s"
  shows "map ns_shard_id (gs_network_shards s) = map of_nat [0..<length (gs_network_shards s)]"
  using assms
proof (induction rule: server_reachable.induct)
  case (server_init l n g s)
  then show ?case by (auto simp: GameServer_new_def NetworkShard_new_def split: if_splits)
next
  case (server_next s t)
  then show ?case using network_ids_step [OF server_next(2)] by (metis length_map)
qed

lemma network_id:
  assumes "server_reachable e s" and "j < length (gs_network_shards s)" and "j < 2 ^ 32"
  shows "unat (ns_shard_id (gs_network_shards s ! j)) = j"
proof -
  have "map ns_shard_id (gs_network_shards s) ! j = of_nat j"
    unfolding network_ids [OF assms(1)] using assms(2) by simp
  then show ?thesis using assms(2,3) by (simp add: unat_of_nat)
qed

subsection \<open>Requests reach the logic shard\<close>

lemma read_frame:
  assumes "length body \<le> kMaxPacketBodyLen"
  shows "handle_read (Frame GateToGameEnvelope body) = [\<lparr>rn_msg_id = GateToGameEnvelope, rn_flags = kPacketFlagNone, rn_data = body\<rparr>]"
  using handle_read_Frame [of GateToGameEnvelope body "[]"] assms by (simp add: handle_read.simps [of "[]"])

lemma request_forwarded:
  assumes body: "request c uid inner body env" and inner: "inner \<in> set forwarded_ids" and uid: "uid \<noteq> 0"
    and n: "\<not> ns_stopping n" "logic_count \<noteq> 0" and shard: "ResolveLogicShard c logic_count inner env n = (shard, n')"
  shows "OnPacket c logic_count now link GateToGameEnvelope 0 body n =
    ([PostToLogic shard \<lparr>lt_msg_id = inner, lt_uid = uid, lt_seq = 0, lt_origin = MakeRoute link n', lt_body = body\<rparr>], n')"
proof -
  have nz: "inner \<noteq> 0" "inner \<noteq> GateLinkHello" "inner \<noteq> PingReq" "inner \<noteq> ClientDisconnectedNtf"
    using inner by (auto simp: forwarded_ids_def)
  have "ParseGateToGameEnvelope c body = Some env"
    using body nz(1) ucast_msg_id_0 [of inner] by (simp add: ParseGateToGameEnvelope_def request_def ParseProtoFromBytes_small)
  then show ?thesis
    using nz inner uid n shard body ucast_msg_id [of inner] by (simp add: OnPacket_def ForwardToLogic_def request_def)
qed

lemma Resolve_keeps:
  assumes "ResolveLogicShard c logic_count i env n = (shard, n')"
  shows "ns_slots n' = ns_slots n" "ns_stopping n' = ns_stopping n" "ns_shard_id n' = ns_shard_id n"
  using assms by (auto simp: ResolveLogicShard_def PickLogicShard_def Let_def split: if_splits)

text \<open>A server that has nothing to do, and whose link \<open>i\<close> of network shard \<open>j\<close> is open.\<close>

definition at_rest :: "env \<Rightarrow> nat \<Rightarrow> nat \<Rightarrow> GatewayLinkSession \<Rightarrow> GameServer \<Rightarrow> bool" where
  "at_rest e j i x s \<longleftrightarrow> server_reachable e s \<and> quiet s \<and> \<not> gs_stopping s \<and> connected j i x s \<and> resting x"

lemma at_restD:
  assumes "at_rest e j i x s" and "orders_ok e"
  shows "server_ok s" "j < length (gs_network_shards s)" "i < length (ns_slots (gs_network_shards s ! j))" "i < 2 ^ 32"
    "link_session j i s = Some x"
proof -
  show ok: "server_ok s" using assms server_reachable_ok by (auto simp: at_rest_def orders_ok_def)
  show ji: "j < length (gs_network_shards s)" "i < length (ns_slots (gs_network_shards s ! j))" "link_session j i s = Some x"
    using assms(1) by (auto simp: at_rest_def connected_def)
  show "i < 2 ^ 32" using ok ji by (auto simp: server_ok_def net_ok_def slot_ok_def)
qed

text \<open>Open links with nothing to send stay so.\<close>

definition links_kept :: "GameServer \<Rightarrow> GameServer \<Rightarrow> bool" where
  "links_kept s t \<longleftrightarrow> (\<forall>j i x. connected j i x s \<longrightarrow> resting x \<longrightarrow> (\<exists>y. connected j i y t \<and> resting y))"

lemma links_kept_update:
  assumes "connected j i x s" and "resting y"
    and "ns_slots n = ns_slots (gs_network_shards s ! j)" and "\<not> ns_stopping n"
    and "gs_network_shards t = (gs_network_shards s)[j := set_slot i ((ns_slots n ! i)\<lparr>sl_session := Some y\<rparr>) n]"
  shows "links_kept s t"
  unfolding links_kept_def
proof (intro allI impI)
  fix j' i' z assume z: "connected j' i' z s" "resting z"
  show "\<exists>y. connected j' i' y t \<and> resting y"
  proof (cases "j' = j \<and> i' = i")
    case True
    have "connected j i y t"
      using assms by (simp add: connected_def link_session_def set_slot_def resting_def)
    then show ?thesis using True assms(2) by blast
  next
    case False
    then have "connected j' i' z t"
      using assms z(1) by (cases "j' = j") (auto simp: connected_def link_session_def set_slot_def)
    then show ?thesis using z(2) by blast
  qed
qed

text \<open>The messages on the link that carry answers to a player.\<close>

definition answer_wires :: "env \<Rightarrow> u64 \<Rightarrow> (MsgId \<times> ServerMsg) list \<Rightarrow> (MsgId \<times> u16 \<times> byte list) list" where
  "answer_wires e uid ms = map (\<lambda>(m_id, m). (GameToGateEnvelope, kPacketFlagNone, answer_packet e uid m_id m 0)) ms"

lemma answers_framed:
  assumes "small_messages tc (e_codec e)" "tool_codec_ok tc (e_codec e)" and "\<forall>(m_id, m) \<in> set ms. lone_msg m"
  shows "list_all sendable (answer_wires e uid ms)"
  using answer_wrapped(2) [OF assms(1,2)] assms(3) by (auto simp: list_all_iff sendable_def answer_wires_def)

lemma tool_reads_answers:
  assumes "small_messages tc (e_codec e)" "tool_codec_ok tc (e_codec e)" and "\<forall>(m_id, m) \<in> set ms. lone_msg m"
  shows "tool_read (concat (map wire (answer_wires e uid ms))) = map (\<lambda>(m_id, m). (GameToGateEnvelope, answer_packet e uid m_id m 0)) ms"
proof -
  have "list_all framed (answer_wires e uid ms)"
    using answers_framed [OF assms, of uid] by (fastforce simp: list_all_iff sendable_def framed_def kMaxPacketBodyLen_def)
  then have "tool_read (concat (map wire (answer_wires e uid ms))) = map unflagged (answer_wires e uid ms)"
    by (rule load_reader.reads_all)
  also have "\<dots> = map (\<lambda>(m_id, m). (GameToGateEnvelope, answer_packet e uid m_id m 0)) ms"
    by (simp add: answer_wires_def unflagged_def comp_def split_beta)
  finally show ?thesis .
qed

text \<open>A request and its answers, through the server and back to the link.\<close>

lemma request_exchange:
  fixes tc :: tool_codec and now :: u64
  assumes e: "orders_ok e" and codec: "small_messages tc (e_codec e)" "tool_codec_ok tc (e_codec e)"
    and rest: "at_rest e j i x s" and j: "j < 2 ^ 32"
    and body: "request (e_codec e) uid inner body env"
    and inner: "inner \<in> set forwarded_ids" and uid: "uid \<noteq> 0" and count: "LogicShardCount s \<noteq> 0"
    and shard: "ResolveLogicShard (e_codec e) (LogicShardCount s) inner env (gs_network_shards s ! j) = (shard, n')"
    and k: "unat shard = k" "k < length (gs_logic_shards s)" "id_space_left (gs_logic_shards s ! k)"
    and route: "route = MakeRoute (of_nat i) (gs_network_shards s ! j)"
    and handled: "handleTask e \<lparr>lt_msg_id = inner, lt_uid = uid, lt_seq = 0, lt_origin = route, lt_body = body\<rparr> (gs_logic_shards s ! k) = (effs, l')"
    and posts: "\<And>j'. posted j' effs = (if unat (gr_net_shard route) = j' then map (\<lambda>(m_id, m). answer e route uid m_id m 0) ms else [])"
    and ms: "ms \<noteq> []" "length ms \<le> kMaxSendQueueDepth" "\<forall>(m_id, m) \<in> set ms. lone_msg m"
  defines "s' \<equiv> exchange e now j i k (Frame GateToGameEnvelope body) s"
  shows "\<exists>y. at_rest e j i y s'" and "gs_logic_shards s' = (gs_logic_shards s)[k := l']"
    and "written_bytes j i s s' = concat (map wire (answer_wires e uid ms))"
    and "links_kept s s'" and "serve e now j i (Frame GateToGameEnvelope body) s = s'"
proof -
  note r = at_restD [OF rest e]
  note keep = Resolve_keeps [OF shard]
  have s: "server_reachable e s" "quiet s" "\<not> gs_stopping s" "connected j i x s" "resting x"
    using rest by (simp_all add: at_rest_def)
  let ?n = "gs_network_shards s ! j"
  have n: "\<not> ns_stopping ?n" using s(4) by (simp add: connected_def)
  have route': "MakeRoute (of_nat i) n' = route" using keep by (simp add: route MakeRoute_def)
  have net: "unat (gr_net_shard route) = j"
    using network_id [OF s(1) r(2) j] by (simp add: route MakeRoute_def)
  have target: "nk_targets (answer e route uid m_id m 0) =
      [\<lparr>nt_link_id = of_nat i, nt_generation = sl_generation (ns_slots ?n ! i), nt_uids = [uid]\<rparr>]" for m_id m
    using r(3,4) by (simp add: answer_def route MakeRoute_def unat_of_nat)
  define packets where "packets = map (\<lambda>(m_id, m). SendNode_new (answer_packet e uid m_id m 0) GameToGateEnvelope kPacketFlagNone) ms"
  have wrapped: "map (\<lambda>t. BuildGameToGatewayEnvelope (e_codec e) t [uid]) (posted j effs) = map Some packets"
    using ms(3) answer_wrapped(1) [OF codec, where route = route and uid = uid and seq = 0] by (auto simp: posts net packets_def)
  have small: "length body \<le> kMaxPacketBodyLen" using body by (simp add: request_def)
  have packet: "OnPacket (e_codec e) (LogicShardCount s) now (of_nat i)
        (rn_msg_id \<lparr>rn_msg_id = GateToGameEnvelope, rn_flags = kPacketFlagNone, rn_data = body\<rparr>) 0
        (rn_data \<lparr>rn_msg_id = GateToGameEnvelope, rn_flags = kPacketFlagNone, rn_data = body\<rparr>) ?n =
        ([PostToLogic shard \<lparr>lt_msg_id = inner, lt_uid = uid, lt_seq = 0, lt_origin = route, lt_body = body\<rparr>], n')"
    using request_forwarded [OF body inner uid n count shard] route' by simp
  show "serve e now j i (Frame GateToGameEnvelope body) s = s'"
    unfolding s'_def by (rule serve_exchange [OF r(1) s(2,3) read_frame [OF small] packet k(1,2)])
  have out: "quiet s' \<and> \<not> gs_stopping s' \<and> gs_logic_shards s' = (gs_logic_shards s)[k := l'] \<and>
      gs_network_shards s' = (gs_network_shards s)[j := set_slot i ((ns_slots n' ! i)\<lparr>sl_session := Some (sent_session packets x)\<rparr>) n']"
    unfolding s'_def
  proof (rule exchange_outcome [where uids = "[uid]" and effs = effs, OF _ _ _ _ _ _ _ packet])
    show "posted j' effs = []" if "j' < length (gs_network_shards s)" "j' \<noteq> j" for j'
      using that(2) by (simp add: posts net)
  qed (use r s n keep k handled posts net target wrapped ms read_frame [OF small] in \<open>auto simp: packets_def\<close>)
  then show l: "gs_logic_shards s' = (gs_logic_shards s)[k := l']" by blast
  have y: "link_session j i s' = Some (sent_session packets x)"
    using out r keep by (simp add: link_session_def set_slot_def)
  have "server_reachable e s'" unfolding s'_def using exchange_reachable [OF s(1) r(2,3) k(2,3)] .
  moreover have "connected j i (sent_session packets x) s'"
    using out y s(4) keep n by (simp add: connected_def set_slot_def sent_session_def)
  ultimately show "\<exists>y. at_rest e j i y s'"
    using out resting_sent [OF s(5)] unfolding at_rest_def by blast
  show "links_kept s s'"
    using links_kept_update [OF s(4) resting_sent [OF s(5)] keep(1)] keep(2) n out by simp
  show "written_bytes j i s s' = concat (map wire (answer_wires e uid ms))"
    using r(5) y by (auto simp: written_bytes_def sent_session_def packets_def answer_wires_def wire_def comp_def split_beta
        intro!: arg_cong [where f = concat])
qed

subsection \<open>The tool reads the answers\<close>

lemma read_answer:
  assumes codec: "small_messages tc (e_codec e)" "tool_codec_ok tc (e_codec e)" "lone_msg m"
    and i: "i = CreateRoomRsp \<and> m = created_msg room_id \<or> i \<notin> {CreateRoomRsp, SnapshotNtf, WorldDeltaNtf}"
  shows "\<exists>g'. Reader_packet tc now (GameToGateEnvelope, answer_packet e uid i m 0) (c, g) =
    (if i = CreateRoomRsp then on_created tc uid room_id (c, g') else (c, g'))"
proof -
  note a = answer_wrapped(3) [OF codec, of uid i 0] answer_wrapped(4) [OF codec]
  have "tc_create_rsp tc (the (cd_serialize (e_codec e) (created_msg room_id))) = Some room_id" if "i = CreateRoomRsp"
    using codec(2) a(2) i that unfolding tool_codec_ok_def created_msg_def by auto
  then show ?thesis
    using a i by (auto simp: Reader_packet_def on_envelope_def ucast_msg_id)
qed

lemma read_snapshot:
  assumes codec: "small_messages tc (e_codec e)" "tool_codec_ok tc (e_codec e)" and "iter_ok (e_ord e)"
    and m: "m = snapshot_msg (e_ord e) (lone_world e room_id uid)"
  shows "\<exists>g'. Reader_packet tc now (GameToGateEnvelope, answer_packet e uid SnapshotNtf m 0) (c, g) =
    (on_room uid (on_snapshot now (lone_view e)) c, g')"
proof -
  note small = snapshot_small [OF assms(3), of room_id uid]
  note a = answer_wrapped(3) [OF codec small, of uid SnapshotNtf 0] answer_wrapped(4) [OF codec small]
  have "tc_snapshot tc (the (cd_serialize (e_codec e) m)) = Some (lone_view e)"
    using lone_snapshot_view [OF assms(3) codec(2)] a(2) m by blast
  then show ?thesis
    using a m by (auto simp: Reader_packet_def on_envelope_def ucast_msg_id)
qed

subsection \<open>The first exchange: a room\<close>

text \<open>The shard the next room of a network shard is created on: they take turns.\<close>

definition next_home :: "nat \<Rightarrow> GameServer \<Rightarrow> nat" where
  "next_home j s = unat (ns_next_logic_idx (gs_network_shards s ! j)) mod length (gs_logic_shards s)"

lemma logic_count:
  assumes "server_ok s" and "gs_logic_shards s \<noteq> []"
  shows "unat (LogicShardCount s) = length (gs_logic_shards s)" "LogicShardCount s \<noteq> 0"
proof -
  have "length (gs_logic_shards s) \<le> 2 ^ 32" using assms(1) by (simp add: server_ok_def)
  then show c: "unat (LogicShardCount s) = length (gs_logic_shards s)" by (simp add: LogicShardCount_def unat_of_nat)
  then show "LogicShardCount s \<noteq> 0" using assms(2) by auto
qed

lemma shard_number:
  assumes "server_ok s" and "gs_logic_shards s \<noteq> []"
  shows "unat (ucast (w mod LogicShardCount s) :: u32) = unat w mod length (gs_logic_shards s)"
proof -
  have "unat w mod length (gs_logic_shards s) < length (gs_logic_shards s)" using assms(2) by simp
  moreover have "length (gs_logic_shards s) \<le> 2 ^ 32" using assms(1) by (simp add: server_ok_def)
  ultimately have "unat w mod length (gs_logic_shards s) < 2 ^ 32" by linarith
  then show ?thesis
    using logic_count [OF assms] by (simp add: unsigned_ucast_eq unat_mod_distrib take_bit_nat_eq_self)
qed

lemma next_home_Resolve:
  assumes "server_ok s" and "gs_logic_shards s \<noteq> []"
  shows "\<exists>shard n'. ResolveLogicShard c (LogicShardCount s) CreateRoomReq env (gs_network_shards s ! j) = (shard, n') \<and>
    unat shard = next_home j s"
  using shard_number [OF assms] logic_count [OF assms]
  by (simp add: ResolveLogicShard_def PickLogicShard_def next_home_def)

lemma next_home_less: "gs_logic_shards s \<noteq> [] \<Longrightarrow> next_home j s < length (gs_logic_shards s)"
  by (simp add: next_home_def)

definition create_packet :: "tool_codec \<Rightarrow> u64 \<Rightarrow> byte list" where
  "create_packet tc uid = Enveloped tc uid 0 CreateRoomReq (tc_create_room tc 1)"

definition ready_packet :: "tool_codec \<Rightarrow> u64 \<Rightarrow> u64 \<Rightarrow> byte list" where
  "ready_packet tc uid room_id = Enveloped tc uid room_id PlayerReadyReq (tc_player_ready tc room_id True)"

lemma packet_bodies:
  "create_packet tc uid = Frame GateToGameEnvelope (create_body tc uid)"
  "ready_packet tc uid room_id = Frame GateToGameEnvelope (ready_body tc uid room_id)"
  by (simp_all add: create_packet_def ready_packet_def Enveloped_def create_body_def ready_body_def)

definition create_answers :: "u64 \<Rightarrow> u64 \<Rightarrow> (MsgId \<times> ServerMsg) list" where
  "create_answers uid room_id = [(CreateRoomRsp, created_msg room_id), (RoomStateNtf, state_msg room_id uid False)]"

lemma create_round:
  fixes tc :: tool_codec and now :: u64
  assumes e: "orders_ok e" and codec: "small_messages tc (e_codec e)" "tool_codec_ok tc (e_codec e)"
    and rest: "at_rest e j i x s" and j: "j < 2 ^ 32" and uid: "uid \<noteq> 0" and shards: "gs_logic_shards s \<noteq> []"
    and body: "request (e_codec e) uid CreateRoomReq body env"
      "cd_create_room (e_codec e) (ge_payload env) = Some \<lparr>cr_room_name = [], cr_max_players = 1\<rparr>"
    and k: "k = next_home j s" and l: "l = gs_logic_shards s ! k"
    and free: "um_find (ls_uid_to_room l) uid = None" and space: "id_space_left l"
  defines "s' \<equiv> exchange e now j i k (Frame GateToGameEnvelope body) s"
  shows "\<exists>y. at_rest e j i y s'"
    and "\<exists>route. gs_logic_shards s' = (gs_logic_shards s)[k :=
      l\<lparr>ls_uid_route := um_assign uid route (ls_uid_route l), ls_next_room_id := ls_next_room_id l + 1,
        ls_rooms := ls_rooms l @ [(new_room_id l, lone_room (new_room_id l) uid False)],
        ls_uid_to_room := um_assign uid (new_room_id l) (ls_uid_to_room l)\<rparr>]"
    and "written_bytes j i s s' = concat (map wire (answer_wires e uid (create_answers uid (new_room_id l))))"
    and "links_kept s s'" and "serve e now j i (Frame GateToGameEnvelope body) s = s'"
proof -
  have ok: "server_ok s" using at_restD(1) [OF rest e] .
  obtain shard n' where r: "ResolveLogicShard (e_codec e) (LogicShardCount s) CreateRoomReq env (gs_network_shards s ! j) = (shard, n')"
      "unat shard = k"
    using next_home_Resolve [OF ok shards] k by blast
  have kl: "k < length (gs_logic_shards s)" using next_home_less [OF shards] k by simp
  have "room_ids_ok l" using ok kl l by (simp add: server_ok_def)
  then have fresh: "um_find (ls_rooms l) (new_room_id l) = None" using new_room_id_fresh space by blast
  define route where "route = MakeRoute (of_nat i) (gs_network_shards s ! j)"
  define effs where "effs = [CountCommand,
      PostToNetwork (gr_net_shard route) (answer e route uid CreateRoomRsp (created_msg (new_room_id l)) 0),
      PostToNetwork (gr_net_shard route) (answer e route uid RoomStateNtf (state_msg (new_room_id l) uid False) 0)]"
  define l' where "l' = l\<lparr>ls_uid_route := um_assign uid route (ls_uid_route l), ls_next_room_id := ls_next_room_id l + 1,
        ls_rooms := ls_rooms l @ [(new_room_id l, lone_room (new_room_id l) uid False)],
        ls_uid_to_room := um_assign uid (new_room_id l) (ls_uid_to_room l)\<rparr>"
  have task: "handleTask e \<lparr>lt_msg_id = CreateRoomReq, lt_uid = uid, lt_seq = 0, lt_origin = route, lt_body = body\<rparr>
      (gs_logic_shards s ! k) = (effs, l')"
    unfolding effs_def l'_def l [symmetric] by (rule create_alone [OF codec(1) e _ _ _ _ body free fresh uid]) simp_all
  let ?ms = "create_answers uid (new_room_id l)"
  have posts: "posted j' effs = (if unat (gr_net_shard route) = j' then map (\<lambda>(m_id, m). answer e route uid m_id m 0) ?ms else [])" for j'
    by (simp add: effs_def create_answers_def)
  have ms: "?ms \<noteq> []" "length ?ms \<le> kMaxSendQueueDepth" "\<forall>(m_id, m) \<in> set ?ms. lone_msg m"
    by (simp_all add: kMaxSendQueueDepth_def create_answers_def created_msg_def state_msg_def)
  have "CreateRoomReq \<in> set forwarded_ids" by (simp add: forwarded_ids_def)
  note x = request_exchange [OF e codec rest j body(1) this uid logic_count(2) [OF ok shards] r kl
      space [unfolded l] route_def task posts ms, where now = now, folded s'_def]
  show "\<exists>y. at_rest e j i y s'" "links_kept s s'" "serve e now j i (Frame GateToGameEnvelope body) s = s'"
    by (rule x(1), rule x(4), rule x(5))
  show "\<exists>route. gs_logic_shards s' = (gs_logic_shards s)[k :=
      l\<lparr>ls_uid_route := um_assign uid route (ls_uid_route l), ls_next_room_id := ls_next_room_id l + 1,
        ls_rooms := ls_rooms l @ [(new_room_id l, lone_room (new_room_id l) uid False)],
        ls_uid_to_room := um_assign uid (new_room_id l) (ls_uid_to_room l)\<rparr>]"
    unfolding x(2) l'_def by blast
  show "written_bytes j i s s' = concat (map wire (answer_wires e uid ?ms))" by (rule x(3))
qed

subsection \<open>The second exchange: the game\<close>

text \<open>The room a request is about: named by the envelope or, if it names none, by the request itself.\<close>

definition routed_to :: "codec \<Rightarrow> Envelope \<Rightarrow> u64 \<Rightarrow> bool" where
  "routed_to c env room_id \<longleftrightarrow> ge_room_id env = room_id \<or>
     ge_room_id env = 0 \<and> ParseProtoFromBytes (cd_route_hint c) (ge_payload env) = Some room_id"

lemma home_Resolve:
  assumes "server_ok s" and "k < length (gs_logic_shards s)" and "room_id \<in> set (um_keys (ls_rooms (gs_logic_shards s ! k)))"
    and "room_id \<noteq> 0" and "inner \<noteq> CreateRoomReq" and "routed_to c env room_id"
  shows "\<exists>shard n'. ResolveLogicShard c (LogicShardCount s) inner env n = (shard, n') \<and> unat shard = k"
proof -
  let ?l = "gs_logic_shards s ! k"
  have l: "room_ids_ok ?l" "unat (ls_shard_id ?l) = k" "unat (ls_shard_count ?l) = length (gs_logic_shards s)"
    using assms(1,2) by (simp_all add: server_ok_def)
  then have c: "LogicShardCount s = ls_shard_count ?l" by (simp add: LogicShardCount_def l(3) [symmetric])
  have "fst (ResolveLogicShard c (LogicShardCount s) inner (env\<lparr>ge_room_id := room_id\<rparr>) n) = ls_shard_id ?l"
    unfolding c by (rule ResolveLogicShard_home [OF l(1) assms(3,4,5)]) simp
  moreover have "ResolveLogicShard c (LogicShardCount s) inner env n =
      ResolveLogicShard c (LogicShardCount s) inner (env\<lparr>ge_room_id := room_id\<rparr>) n"
    using assms(4-6) by (auto simp: ResolveLogicShard_def routed_to_def)
  ultimately show ?thesis using l(2) by (metis prod.collapse)
qed

definition ready_answers :: "env \<Rightarrow> u64 \<Rightarrow> u64 \<Rightarrow> (MsgId \<times> ServerMsg) list" where
  "ready_answers e uid room_id =
     [(RoomStateNtf, state_msg room_id uid True), (GameStartNtf, start_msg room_id),
      (SnapshotNtf, snapshot_msg (e_ord e) (lone_world e room_id uid))]"

lemma ready_round:
  fixes tc :: tool_codec and now :: u64
  assumes e: "orders_ok e" and codec: "small_messages tc (e_codec e)" "tool_codec_ok tc (e_codec e)"
    and rest: "at_rest e j i x s" and j: "j < 2 ^ 32" and uid: "uid \<noteq> 0"
    and body: "request (e_codec e) uid PlayerReadyReq body env"
      "cd_player_ready (e_codec e) (ge_payload env) = Some \<lparr>pr_room_id = room_id, pr_ready = True\<rparr>"
      "routed_to (e_codec e) env room_id"
    and k: "k < length (gs_logic_shards s)" and l: "l = gs_logic_shards s ! k"
    and room: "um_find (ls_rooms l) room_id = Some (lone_room room_id uid False)" "room_id \<noteq> 0" and space: "id_space_left l"
  defines "s' \<equiv> exchange e now j i k (Frame GateToGameEnvelope body) s"
  shows "\<exists>y. at_rest e j i y s'"
    and "gs_logic_shards s' = (gs_logic_shards s)[k := gs_logic_shards s' ! k]"
    and "um_find (ls_rooms (gs_logic_shards s' ! k)) room_id = Some (ClearFrameChanges (lone_world e room_id uid))"
    and "written_bytes j i s s' = concat (map wire (answer_wires e uid (ready_answers e uid room_id)))"
    and "links_kept s s'" and "serve e now j i (Frame GateToGameEnvelope body) s = s'"
proof -
  have it: "iter_ok (e_ord e)" using e by (simp add: orders_ok_def)
  have ok: "server_ok s" using at_restD(1) [OF rest e] .
  have mem: "room_id \<in> set (um_keys (ls_rooms (gs_logic_shards s ! k)))"
    using room(1) um_find_None_iff [of "ls_rooms l" room_id] l by auto
  have "PlayerReadyReq \<noteq> CreateRoomReq" by simp
  then obtain shard n' where r: "ResolveLogicShard (e_codec e) (LogicShardCount s) PlayerReadyReq env (gs_network_shards s ! j) = (shard, n')"
      "unat shard = k"
    using home_Resolve [OF ok k mem room(2) _ body(3)] by blast
  define route where "route = MakeRoute (of_nat i) (gs_network_shards s ! j)"
  let ?w = "lone_world e room_id uid"
  define effs where "effs = [CountCommand,
      PostToNetwork (gr_net_shard route) (answer e route uid RoomStateNtf (state_msg room_id uid True) 0),
      PostToNetwork (gr_net_shard route) (answer e route uid GameStartNtf (start_msg room_id) 0), CountSnapshot,
      PostToNetwork (gr_net_shard route) (answer e route uid SnapshotNtf (snapshot_msg (e_ord e) ?w) 0)]"
  define l' where "l' = set_room room_id (ClearFrameChanges ?w) (l\<lparr>ls_uid_route := um_assign uid route (ls_uid_route l)\<rparr>)"
  have task: "handleTask e \<lparr>lt_msg_id = PlayerReadyReq, lt_uid = uid, lt_seq = 0, lt_origin = route, lt_body = body\<rparr>
      (gs_logic_shards s ! k) = (effs, l')"
    unfolding effs_def l'_def l [symmetric] by (rule ready_alone [OF codec(1) e _ _ _ _ body(1,2) room uid]) simp_all
  let ?ms = "ready_answers e uid room_id"
  have posts: "posted j' effs = (if unat (gr_net_shard route) = j' then map (\<lambda>(m_id, m). answer e route uid m_id m 0) ?ms else [])" for j'
    by (simp add: effs_def ready_answers_def)
  have ms: "?ms \<noteq> []" "length ?ms \<le> kMaxSendQueueDepth" "\<forall>(m_id, m) \<in> set ?ms. lone_msg m"
    using snapshot_small [OF it, of room_id uid] by (simp_all add: kMaxSendQueueDepth_def ready_answers_def start_msg_def state_msg_def)
  have "PlayerReadyReq \<in> set forwarded_ids" by (simp add: forwarded_ids_def)
  note x = request_exchange [OF e codec rest j body(1) this uid _ r k space [unfolded l] route_def task posts ms, where now = now, folded s'_def]
  have count: "LogicShardCount s \<noteq> 0" using logic_count(2) [OF ok] k by (metis length_pos_if_in_set list.size(3) not_less0 nth_mem)
  show "\<exists>y. at_rest e j i y s'" "links_kept s s'" "serve e now j i (Frame GateToGameEnvelope body) s = s'"
    by (rule x(1) [OF count], rule x(4) [OF count], rule x(5) [OF count])
  show "gs_logic_shards s' = (gs_logic_shards s)[k := gs_logic_shards s' ! k]"
    using x(2) [OF count] k by simp
  show "um_find (ls_rooms (gs_logic_shards s' ! k)) room_id = Some (ClearFrameChanges ?w)"
    unfolding x(2) [OF count] using k room(1) by (simp add: l'_def set_room_def)
  show "written_bytes j i s s' = concat (map wire (answer_wires e uid ?ms))" by (rule x(3) [OF count])
qed

subsection \<open>The tool's packets\<close>

lemma tool_create_round:
  fixes tc :: tool_codec and now :: u64
  assumes e: "orders_ok e" and codec: "small_messages tc (e_codec e)" "tool_codec_ok tc (e_codec e)"
    and rest: "at_rest e j i x s" and j: "j < 2 ^ 32" and uid: "uid \<noteq> 0" and shards: "gs_logic_shards s \<noteq> []"
    and k: "k = next_home j s" and l: "l = gs_logic_shards s ! k"
    and free: "um_find (ls_uid_to_room l) uid = None" and space: "id_space_left l"
  defines "s' \<equiv> exchange e now j i k (create_packet tc uid) s"
  shows "\<exists>y. at_rest e j i y s'"
    and "\<exists>route. gs_logic_shards s' = (gs_logic_shards s)[k :=
      l\<lparr>ls_uid_route := um_assign uid route (ls_uid_route l), ls_next_room_id := ls_next_room_id l + 1,
        ls_rooms := ls_rooms l @ [(new_room_id l, lone_room (new_room_id l) uid False)],
        ls_uid_to_room := um_assign uid (new_room_id l) (ls_uid_to_room l)\<rparr>]"
    and "tool_read (written_bytes j i s s') =
      [(GameToGateEnvelope, answer_packet e uid CreateRoomRsp (created_msg (new_room_id l)) 0),
       (GameToGateEnvelope, answer_packet e uid RoomStateNtf (state_msg (new_room_id l) uid False) 0)]"
proof -
  have "cd_create_room (e_codec e) (ge_payload (tool_envelope uid 0 CreateRoomReq (tc_create_room tc 1))) =
      Some \<lparr>cr_room_name = [], cr_max_players = 1\<rparr>"
    using tool_requests(3) [OF codec] by (simp add: tool_envelope_def)
  note x = create_round [OF e codec rest j uid shards tool_requests(1) [OF codec] this k l free space, where now = now,
      folded packet_bodies, folded s'_def]
  show "\<exists>y. at_rest e j i y s'" by (rule x(1))
  show "\<exists>route. gs_logic_shards s' = (gs_logic_shards s)[k :=
      l\<lparr>ls_uid_route := um_assign uid route (ls_uid_route l), ls_next_room_id := ls_next_room_id l + 1,
        ls_rooms := ls_rooms l @ [(new_room_id l, lone_room (new_room_id l) uid False)],
        ls_uid_to_room := um_assign uid (new_room_id l) (ls_uid_to_room l)\<rparr>]"
    by (rule x(2))
  have "\<forall>(m_id, m) \<in> set (create_answers uid (new_room_id l)). lone_msg m"
    by (simp add: create_answers_def created_msg_def state_msg_def)
  then show "tool_read (written_bytes j i s s') =
      [(GameToGateEnvelope, answer_packet e uid CreateRoomRsp (created_msg (new_room_id l)) 0),
       (GameToGateEnvelope, answer_packet e uid RoomStateNtf (state_msg (new_room_id l) uid False) 0)]"
    unfolding x(3) using tool_reads_answers [OF codec] by (simp add: create_answers_def)
qed

lemma tool_ready_round:
  fixes tc :: tool_codec and now :: u64
  assumes e: "orders_ok e" and codec: "small_messages tc (e_codec e)" "tool_codec_ok tc (e_codec e)"
    and rest: "at_rest e j i x s" and j: "j < 2 ^ 32" and uid: "uid \<noteq> 0"
    and k: "k < length (gs_logic_shards s)" and l: "l = gs_logic_shards s ! k"
    and room: "um_find (ls_rooms l) room_id = Some (lone_room room_id uid False)" "room_id \<noteq> 0" and space: "id_space_left l"
  defines "s' \<equiv> exchange e now j i k (ready_packet tc uid room_id) s"
  shows "\<exists>y. at_rest e j i y s'"
    and "um_find (ls_rooms (gs_logic_shards s' ! k)) room_id = Some (ClearFrameChanges (lone_world e room_id uid))"
    and "tool_read (written_bytes j i s s') =
      [(GameToGateEnvelope, answer_packet e uid RoomStateNtf (state_msg room_id uid True) 0),
       (GameToGateEnvelope, answer_packet e uid GameStartNtf (start_msg room_id) 0),
       (GameToGateEnvelope, answer_packet e uid SnapshotNtf (snapshot_msg (e_ord e) (lone_world e room_id uid)) 0)]"
proof -
  have it: "iter_ok (e_ord e)" using e by (simp add: orders_ok_def)
  let ?env = "tool_envelope uid room_id PlayerReadyReq (tc_player_ready tc room_id True)"
  have "cd_player_ready (e_codec e) (ge_payload ?env) = Some \<lparr>pr_room_id = room_id, pr_ready = True\<rparr>" "routed_to (e_codec e) ?env room_id"
    using tool_requests(4) [OF codec] by (simp_all add: tool_envelope_def routed_to_def)
  note x = ready_round [OF e codec rest j uid tool_requests(2) [OF codec] this k l room space, where now = now,
      folded packet_bodies, folded s'_def]
  show "\<exists>y. at_rest e j i y s'" "um_find (ls_rooms (gs_logic_shards s' ! k)) room_id = Some (ClearFrameChanges (lone_world e room_id uid))"
    by (rule x(1), rule x(3))
  have "\<forall>(m_id, m) \<in> set (ready_answers e uid room_id). lone_msg m"
    using snapshot_small [OF it, of room_id uid] by (simp add: ready_answers_def start_msg_def state_msg_def)
  then show "tool_read (written_bytes j i s s') =
      [(GameToGateEnvelope, answer_packet e uid RoomStateNtf (state_msg room_id uid True) 0),
       (GameToGateEnvelope, answer_packet e uid GameStartNtf (start_msg room_id) 0),
       (GameToGateEnvelope, answer_packet e uid SnapshotNtf (snapshot_msg (e_ord e) (lone_world e room_id uid)) 0)]"
    unfolding x(4) using tool_reads_answers [OF codec] by (simp add: ready_answers_def)
qed

subsection \<open>The tool follows\<close>

lemma room_at_out [simp]: "room_at uid (c\<lparr>cn_out := out\<rparr>) = room_at uid c"
  by (simp add: room_at_def)

lemma socket_on_room [simp]: "cn_socket_ok (on_room uid f c) = cn_socket_ok c"
  by (simp add: on_room_def)

lemma reads_created:
  fixes clock :: "nat \<Rightarrow> u64" and g :: Totals
  assumes codec: "small_messages tc (e_codec e)" "tool_codec_ok tc (e_codec e)"
    and c: "room_at uid c = RoomState_default" "cn_socket_ok c" and room_id: "room_id \<noteq> 0"
    and bs: "tool_read bs = [(GameToGateEnvelope, answer_packet e uid CreateRoomRsp (created_msg room_id) 0),
       (GameToGateEnvelope, answer_packet e uid RoomStateNtf (state_msg room_id uid False) 0)]"
  defines "c' \<equiv> fst (Reader tc clock bs (c, g))"
  shows "cn_out c' = cn_out c @ [ready_packet tc uid room_id]" "cn_socket_ok c'"
    "room_at uid c' = RoomState_default\<lparr>rm_room_id := room_id, rm_phase := 1\<rparr>"
proof -
  have m: "lone_msg (created_msg room_id)" "lone_msg (state_msg room_id uid False)" by (simp_all add: created_msg_def state_msg_def)
  obtain g1 where g1: "Reader_packet tc (clock 0) (GameToGateEnvelope, answer_packet e uid CreateRoomRsp (created_msg room_id) 0) (c, g) =
      on_created tc uid room_id (c, g1)"
    using read_answer [OF codec m(1), of CreateRoomRsp room_id "clock 0" uid c g] by auto
  have "fst (Reader_packet tc (clock 1) (GameToGateEnvelope, answer_packet e uid RoomStateNtf (state_msg room_id uid False) 0) t) = fst t" for t
    using read_answer [OF codec m(2), of RoomStateNtf room_id "clock 1" uid "fst t" "snd t"] by (auto simp del: One_nat_def)
  then have "c' = fst (on_created tc uid room_id (c, g1))"
    using g1 by (simp add: c'_def Reader_def bs)
  then show "cn_out c' = cn_out c @ [ready_packet tc uid room_id]" "cn_socket_ok c'"
    "room_at uid c' = RoomState_default\<lparr>rm_room_id := room_id, rm_phase := 1\<rparr>"
    using c room_id by (simp_all add: on_created_def SendRaw_def ready_packet_def RoomState_default_def Let_def)
qed

lemma reads_started:
  fixes clock :: "nat \<Rightarrow> u64" and g :: Totals
  assumes codec: "small_messages tc (e_codec e)" "tool_codec_ok tc (e_codec e)" and e: "orders_ok e"
    and bs: "tool_read bs = [(GameToGateEnvelope, answer_packet e uid RoomStateNtf (state_msg room_id uid True) 0),
       (GameToGateEnvelope, answer_packet e uid GameStartNtf (start_msg room_id) 0),
       (GameToGateEnvelope, answer_packet e uid SnapshotNtf (snapshot_msg (e_ord e) (lone_world e room_id uid)) 0)]"
  shows "fst (Reader tc clock bs (c, g)) = on_room uid (on_snapshot (clock 2) (lone_view e)) c"
proof -
  have m: "lone_msg (state_msg room_id uid True)" "lone_msg (start_msg room_id)" by (simp_all add: start_msg_def state_msg_def)
  have it: "iter_ok (e_ord e)" using e by (simp add: orders_ok_def)
  have other: "\<exists>g'. Reader_packet tc now (GameToGateEnvelope, answer_packet e uid RoomStateNtf (state_msg room_id uid True) 0) (c, g) = (c, g')"
      "\<exists>g'. Reader_packet tc now (GameToGateEnvelope, answer_packet e uid GameStartNtf (start_msg room_id) 0) (c, g) = (c, g')" for now g
    using read_answer [OF codec m(1), of RoomStateNtf room_id now uid c g] read_answer [OF codec m(2), of GameStartNtf room_id now uid c g]
    by auto
  obtain g1 where 1: "Reader_packet tc (clock 0) (GameToGateEnvelope, answer_packet e uid RoomStateNtf (state_msg room_id uid True) 0) (c, g) = (c, g1)"
    using other(1) by blast
  obtain g2 where 2: "Reader_packet tc (clock 1) (GameToGateEnvelope, answer_packet e uid GameStartNtf (start_msg room_id) 0) (c, g1) = (c, g2)"
    using other(2) by blast
  obtain g3 where 3: "Reader_packet tc (clock 2) (GameToGateEnvelope, answer_packet e uid SnapshotNtf
      (snapshot_msg (e_ord e) (lone_world e room_id uid)) 0) (c, g2) = (on_room uid (on_snapshot (clock 2) (lone_view e)) c, g3)"
    using read_snapshot [OF codec it refl] by blast
  have "List.enumerate 0 (tool_read bs) =
      [(0, GameToGateEnvelope, answer_packet e uid RoomStateNtf (state_msg room_id uid True) 0),
       (1, GameToGateEnvelope, answer_packet e uid GameStartNtf (start_msg room_id) 0),
       (2, GameToGateEnvelope, answer_packet e uid SnapshotNtf (snapshot_msg (e_ord e) (lone_world e room_id uid)) 0)]"
    by (simp add: bs numeral_2_eq_2)
  then show ?thesis by (simp only: Reader_def fold_simps prod.case 1 2 3 fst_conv id_apply)
qed

lemma on_snapshot_lone:
  fixes st :: RoomState and now :: u64
  assumes "iter_ok (e_ord e)" and "rm_field_id st = 0" and "rm_crystal_id st = 0"
  defines "st' \<equiv> on_snapshot now (lone_view e) st"
  shows "rm_phase st' = 2" "rm_room_id st' = rm_room_id st" "mset (rm_units st') = {#2, 3, 4, 5, 6, 7#}"
    "rm_field_id st' \<in> {8, 9, 10, 11, 12, 13, 14, 15}" "rm_crystal_id st' = 1"
proof -
  have u: "mset (e_ord e CUnits [2, 3, 4, 5, 6, 7]) = {#2, 3, 4, 5, 6, 7#}"
      "mset (e_ord e CFields [8, 9, 10, 11, 12, 13, 14, 15]) = {#8, 9, 10, 11, 12, 13, 14, 15#}"
    using assms(1) by (simp_all add: iter_ok_def)
  then have ne: "e_ord e CUnits [2, 3, 4, 5, 6, 7] \<noteq> []" "e_ord e CFields [8, 9, 10, 11, 12, 13, 14, 15] \<noteq> []" by auto
  have "hd (e_ord e CFields [8, 9, 10, 11, 12, 13, 14, 15]) \<in># {#8, 9, 10, 11, 12, 13, 14, 15#}"
    using hd_in_set [OF ne(2)] u(2) by (metis set_mset_mset)
  then have "hd (e_ord e CFields [8, 9, 10, 11, 12, 13, 14, 15]) \<in> {8, 9, 10, 11, 12, 13, 14, 15}" by simp
  then show "rm_phase st' = 2" "rm_room_id st' = rm_room_id st" "mset (rm_units st') = {#2, 3, 4, 5, 6, 7#}"
    "rm_field_id st' \<in> {8, 9, 10, 11, 12, 13, 14, 15}" "rm_crystal_id st' = 1"
    using assms(2,3) u(1) ne unfolding st'_def
    by (simp_all add: on_snapshot_def mark_tick_def lone_view_def first_crystal_def Let_def)
qed

lemma drive_create_fields:
  assumes "cn_socket_ok (fst t)"
  shows "room_at uid (fst (drive_create tc uid t)) = RoomState_default" "cn_socket_ok (fst (drive_create tc uid t))"
    "last (cn_out (fst (drive_create tc uid t))) = create_packet tc uid"
  using assms by (cases t; simp add: drive_create_def SendRaw_def room_at_def create_packet_def Let_def)+

text \<open>The next id of a shard with space left is new, not zero, and leaves the shard in order.\<close>

lemma next_room:
  fixes l :: LogicShard
  assumes "room_ids_ok l" and "unat (ls_shard_id l) + unat (ls_shard_count l) * (unat (ls_next_room_id l) + 2) < 2 ^ 64"
  shows "id_space_left l" "new_room_id l \<noteq> 0"
    and "\<And>l'. ls_shard_id l' = ls_shard_id l \<Longrightarrow> ls_shard_count l' = ls_shard_count l \<Longrightarrow>
      ls_next_room_id l' = ls_next_room_id l + 1 \<Longrightarrow> id_space_left l'"
proof -
  let ?n = "unat (ls_next_room_id l)" and ?c = "unat (ls_shard_count l)"
  have pos: "0 < ?c" "0 < ?n" using assms(1) by (auto simp: room_ids_ok_def word_less_nat_alt)
  have "?c * (?n + 1) \<le> ?c * (?n + 2)" by simp
  then show space: "id_space_left l" using assms(2) by (simp add: id_space_left_def)
  show "new_room_id l \<noteq> 0" using new_room_id_unat [OF space] pos by auto
  have "?n + 2 \<le> ?c * (?n + 2)" using mult_le_mono1 [of 1 ?c "?n + 2"] pos(1) by simp
  then have "?n + 1 < 2 ^ 64" using assms(2) by linarith
  then have "unat (ls_next_room_id l + 1) = ?n + 1" by (simp add: unat_word_ariths)
  then show "id_space_left l'" if "ls_shard_id l' = ls_shard_id l" "ls_shard_count l' = ls_shard_count l"
      "ls_next_room_id l' = ls_next_room_id l + 1" for l'
    using assms(2) that by (simp add: id_space_left_def)
qed

lemma created_shard:
  fixes l :: LogicShard
  assumes "\<exists>route. shards = shards0[k :=
      l\<lparr>ls_uid_route := um_assign uid route (ls_uid_route l), ls_next_room_id := ls_next_room_id l + 1,
        ls_rooms := ls_rooms l @ [(room_id, lone_room room_id uid False)],
        ls_uid_to_room := um_assign uid room_id (ls_uid_to_room l)\<rparr>]"
    and ids: "room_ids_ok l" "unat (ls_shard_id l) + unat (ls_shard_count l) * (unat (ls_next_room_id l) + 2) < 2 ^ 64"
    and "room_id = new_room_id l"
  shows "\<exists>l1. shards = shards0[k := l1] \<and> id_space_left l1 \<and>
    um_find (ls_rooms l1) room_id = Some (lone_room room_id uid False)"
proof -
  have "um_find (ls_rooms l) room_id = None"
    using new_room_id_fresh [OF ids(1) next_room(1) [OF ids]] assms(4) by simp
  then have "um_find (ls_rooms l @ [(room_id, lone_room room_id uid False)]) room_id = Some (lone_room room_id uid False)"
    by (simp add: um_find_def map_add_def)
  then show ?thesis using assms(1) next_room(3) [OF ids] by fastforce
qed

text \<open>What the tool knows of the game it is in.\<close>

lemma lone_game:
  fixes now room_id uid :: u64
  assumes "iter_ok (e_ord e)"
  defines "st \<equiv> on_snapshot now (lone_view e) (RoomState_default\<lparr>rm_room_id := room_id, rm_phase := 1\<rparr>)"
    and "room \<equiv> ClearFrameChanges (lone_world e room_id uid)"
  shows "dr_started room" "\<not> dr_game_over room" "um_keys (dr_players room) = [uid]" "rm_room_id st = room_id"
    "rm_phase st = 2" "rm_units st \<noteq> []" "mset (rm_units st) = mset (um_keys (dr_units room))"
    "rm_field_id st \<in> set (um_keys (dr_fields room))"
    "\<exists>b. FindBuilding room (rm_crystal_id st) = Some b \<and> b_building_type b = kBuildingCrystal"
proof -
  let ?w = "lone_world e room_id uid"
  have sh: "um_keys (dr_units ?w) = [2, 3, 4, 5, 6, 7]" "um_keys (dr_fields ?w) = [8, 9, 10, 11, 12, 13, 14, 15]"
      "map (\<lambda>(i, b). (i, b_building_type b)) (dr_buildings ?w) = [(1, kBuildingCrystal)]"
    using lone_world_shape [OF assms(1), of room_id uid] by (auto simp: shape_def)
  note s = on_snapshot_lone [OF assms(1), of "RoomState_default\<lparr>rm_room_id := room_id, rm_phase := 1\<rparr>" now, folded st_def]
  note s = s [unfolded RoomState_default_def, simplified]
  show "dr_started room" "\<not> dr_game_over room" "um_keys (dr_players room) = [uid]"
    using lone_world_fields [OF assms(1), of room_id uid] by (simp_all add: room_def ClearFrameChanges_def)
  show "rm_room_id st = room_id" "rm_phase st = 2" using s by simp_all
  show "mset (rm_units st) = mset (um_keys (dr_units room))" using s sh by (simp add: room_def ClearFrameChanges_def)
  show "rm_units st \<noteq> []" using s by auto
  show "rm_field_id st \<in> set (um_keys (dr_fields room))" using s sh by (simp add: room_def ClearFrameChanges_def)
  show "\<exists>b. FindBuilding room (rm_crystal_id st) = Some b \<and> b_building_type b = kBuildingCrystal"
    using s sh(3) by (auto simp: room_def ClearFrameChanges_def FindBuilding_def um_find_def)
qed

end
