(* ===== verification/LoadTheorems.thy ===== *)
theory LoadTheorems
  imports LoneGame ServerTheorems
begin

text \<open>
  The property of the load generator together with the game server, and its instance on a concrete codec.
\<close>

subsection \<open>A concrete codec\<close>

definition enc_snapshot :: "u64 \<Rightarrow> u64 list \<Rightarrow> (u64 \<times> u32) list \<Rightarrow> u64 list \<Rightarrow> byte list option" where
  "enc_snapshot tick us bs fs =
     (if length us < 2 ^ 64 \<and> length bs < 2 ^ 64 \<and> length fs < 2 ^ 64
      then Some (enc64 tick @ enc64 (of_nat (length us)) @ enc64 (of_nat (length bs)) @ enc64 (of_nat (length fs)) @
        concat (map enc64 us) @ concat (map enc64 (map fst bs)) @ concat (map enc64 (map (ucast \<circ> snd) bs)) @
        concat (map enc64 fs))
      else None)"

definition dec_snapshot :: "byte list \<Rightarrow> SnapshotView option" where
  "dec_snapshot bytes =
     (let n = unat (dec64 (drop 8 bytes)); b = unat (dec64 (drop 16 bytes)); f = unat (dec64 (drop 24 bytes));
          rest = drop 32 bytes
      in Some \<lparr>sv_server_tick = dec64 bytes, sv_units = numbers n rest,
           sv_buildings = zip (numbers b (drop (8 * n) rest)) (map ucast (numbers b (drop (8 * n + 8 * b) rest))),
           sv_fields = numbers f (drop (8 * n + 16 * b) rest)\<rparr>)"

lemma numbers_append:
  assumes "k = length ws"
  shows "numbers k (concat (map enc64 ws) @ bs) = ws" "drop (8 * k) (concat (map enc64 ws) @ bs) = bs"
  using assms by simp_all

lemma dec_enc_snapshot:
  assumes "enc_snapshot tick us bs fs = Some bytes"
  shows "dec_snapshot bytes = Some \<lparr>sv_server_tick = tick, sv_units = us, sv_buildings = bs, sv_fields = fs\<rparr>"
proof -
  let ?us = "concat (map enc64 us)" and ?is = "concat (map enc64 (map fst bs))" and ?ts = "concat (map enc64 (map (ucast \<circ> snd) bs))"
    and ?fs = "concat (map enc64 fs)"
  have len: "length us < 2 ^ 64" "length bs < 2 ^ 64" "length fs < 2 ^ 64"
    and b: "bytes = enc64 tick @ enc64 (of_nat (length us)) @ enc64 (of_nat (length bs)) @ enc64 (of_nat (length fs)) @ ?us @ ?is @ ?ts @ ?fs"
    using assms by (auto simp: enc_snapshot_def split: if_splits)
  have rest: "numbers (length us) (?us @ ?is @ ?ts @ ?fs) = us" "numbers (length bs) (?is @ ?ts @ ?fs) = map fst bs"
      "numbers (length bs) (?ts @ ?fs) = map (ucast \<circ> snd) bs" "numbers (length fs) ?fs = fs"
    using numbers_append(1) [of "length bs" "map fst bs" "?ts @ ?fs"] numbers_append(1) [of "length bs" "map (ucast \<circ> snd) bs" ?fs]
      numbers_append(1) [of "length fs" fs "[]"] by simp_all
  have drops: "drop (8 * length us) (?us @ ?is @ ?ts @ ?fs) = ?is @ ?ts @ ?fs"
      "drop (8 * length us + 8 * length bs) (?us @ ?is @ ?ts @ ?fs) = ?ts @ ?fs"
      "drop (8 * length us + 16 * length bs) (?us @ ?is @ ?ts @ ?fs) = ?fs"
    by (simp_all del: map_map)
  have "dec_snapshot bytes = Some \<lparr>sv_server_tick = tick, sv_units = numbers (length us) (?us @ ?is @ ?ts @ ?fs),
      sv_buildings = zip (numbers (length bs) (drop (8 * length us) (?us @ ?is @ ?ts @ ?fs)))
        (map ucast (numbers (length bs) (drop (8 * length us + 8 * length bs) (?us @ ?is @ ?ts @ ?fs)))),
      sv_fields = numbers (length fs) (drop (8 * length us + 16 * length bs) (?us @ ?is @ ?ts @ ?fs))\<rparr>"
    using len by (simp add: b dec_snapshot_def unat_of_nat Let_def)
  also have "\<dots> = Some \<lparr>sv_server_tick = tick, sv_units = us, sv_buildings = bs, sv_fields = fs\<rparr>"
    unfolding drops rest by (simp add: comp_def ucast_inner zip_map_fst_snd)
  finally show ?thesis .
qed

definition load_codec :: codec where
  "load_codec = example_codec\<lparr>cd_serialize := (\<lambda>msg. case msg of
       GameToGateMsg uids msg_id seq payload \<Rightarrow> enc_reply uids msg_id payload
     | CreateRoomRspMsg code room_id reason \<Rightarrow> Some (enc64 room_id)
     | SnapshotMsg room_id tick us bs fs ds rs \<Rightarrow>
         enc_snapshot tick (map us_id us) (map (\<lambda>b. (bs_id b, bs_building_type b)) bs) (map fs_id fs)
     | _ \<Rightarrow> Some [0])\<rparr>"

definition load_env :: env where
  "load_env = example_env\<lparr>e_codec := load_codec\<rparr>"

definition example_tool :: tool_codec where
  "example_tool =
     \<lparr>tc_hello = (\<lambda>_. []), tc_ping = enc64, tc_login = (\<lambda>_ _. []), tc_create_room = (\<lambda>n. enc64 (ucast n)),
      tc_player_ready = (\<lambda>r _. enc64 r), tc_move = (\<lambda>_ _ _. []), tc_harvest = (\<lambda>_ _ _. []), tc_train = (\<lambda>_ _ _. []),
      tc_envelope = enc_envelope, tc_pong = number, tc_game_to_gate = dec_reply, tc_create_rsp = number,
      tc_snapshot = dec_snapshot, tc_delta = number\<rparr>"

definition example_load :: load where
  "example_load = (Conn_new, Totals_new)"

lemma load_env_ok: "orders_ok load_env"
  using example_env_ok by (simp add: orders_ok_def load_env_def example_env_def)

lemma load_codec_ok: "tool_codec_ok example_tool (e_codec load_env)"
  by (auto simp: tool_codec_ok_def load_env_def load_codec_def example_codec_def example_tool_def dec_enc_envelope
      number_enc64 ucast_inner dest: dec_enc_reply dec_enc_snapshot)

lemma load_codec_small: "small_messages example_tool (e_codec load_env)"
proof -
  have "\<exists>bytes. cd_serialize load_codec m = Some bytes \<and> length bytes \<le> 8192" if "lone_msg m" for m
    using that by (cases m) (simp_all add: load_codec_def enc_snapshot_def del: map_map)
  then show ?thesis
    by (auto simp: small_messages_def load_env_def load_codec_def example_tool_def enc_reply_def enc_envelope_def kMaxPacketBodyLen_def)
qed

lemma load_server_reachable: "server_reachable load_env example_server1"
proof -
  have "GameServer_new 2 1 2 = Inr example_server0"
    by (simp add: example_server0_def GameServer_new_def)
  then have 0: "server_reachable load_env example_server0"
    by (rule server_init) simp_all
  show ?thesis
    unfolding example_server1_def Let_def
    by (rule server_next [OF server_next [OF 0 server_start] server_net [OF _ net_accept]]; code_simp)
qed

definition example_link :: GatewayLinkSession where
  "example_link = the (link_session 0 0 example_server1)"

lemma load_server_fields:
  "quiet example_server1" "\<not> gs_stopping example_server1" "gs_logic_shards example_server1 \<noteq> []"
  "connected 0 0 example_link example_server1" "resting example_link" "0 = next_home 0 example_server1"
  by (simp_all add: quiet_def) (code_simp)+

subsection \<open>The property\<close>

text \<open>C15: Against a game server at rest, with a connected link and a player who sits in no room of the next
  shard, the load generator gets its virtual player into a running game. The tool asks for a room; the
  server reads the packet, a logic shard creates the room, the answers go back over the link and the
  tool's reader sends the request to be ready; the server starts the game, and after the reader has
  handled the answers the tool knows the room's id, all of its units, one of its fields and its crystal.
  Both packets are the ones the tool wrote; the states of the server are reachable.\<close>

theorem virtual_player_plays:
  fixes e :: env and tc :: tool_codec and load :: load
  assumes e: "orders_ok e" and codec: "small_messages tc (e_codec e)" "tool_codec_ok tc (e_codec e)"
    and server: "server_reachable e s" "quiet s" "\<not> gs_stopping s" "gs_logic_shards s \<noteq> []"
    and link: "connected j i x s" "resting x" "j < 2 ^ 32"
    and shard: "k = next_home j s" "l = gs_logic_shards s ! k" "um_find (ls_uid_to_room l) uid = None"
      "unat (ls_shard_id l) + unat (ls_shard_count l) * (unat (ls_next_room_id l) + 2) < 2 ^ 64"
    and player: "uid \<noteq> 0" "cn_socket_ok (fst load)"
    and run: "load1 = drive_create tc uid load" "s1 = exchange e now1 j i k (last (cn_out (fst load1))) s"
      "load2 = Reader tc clock1 (written_bytes j i s s1) load1"
      "s2 = exchange e now2 j i k (last (cn_out (fst load2))) s1"
      "load3 = Reader tc clock2 (written_bytes j i s1 s2) load2"
  shows "server_reachable e s2 \<and> quiet s2 \<and>
    (let st = room_at uid (fst load3)
     in \<exists>room. um_find (ls_rooms (gs_logic_shards s2 ! k)) (rm_room_id st) = Some room \<and>
          dr_started room \<and> \<not> dr_game_over room \<and> um_keys (dr_players room) = [uid] \<and>
          rm_phase st = 2 \<and> rm_units st \<noteq> [] \<and> mset (rm_units st) = mset (um_keys (dr_units room)) \<and>
          rm_field_id st \<in> set (um_keys (dr_fields room)) \<and>
          (\<exists>b. FindBuilding room (rm_crystal_id st) = Some b \<and> b_building_type b = kBuildingCrystal))"
proof -
  have it: "iter_ok (e_ord e)" using e by (simp add: orders_ok_def)
  have rest: "at_rest e j i x s" using server link by (simp add: at_rest_def)
  have k: "k < length (gs_logic_shards s)" using next_home_less [OF server(4)] shard(1) by simp
  have ids: "room_ids_ok l" using at_restD(1) [OF rest e] k shard(2) by (simp add: server_ok_def)
  note fresh = next_room [OF ids shard(4)]
  define room_id where "room_id = new_room_id l"
  obtain c1 g1 where load1: "load1 = (c1, g1)" by fastforce
  have c1: "room_at uid c1 = RoomState_default" "cn_socket_ok c1" "last (cn_out c1) = create_packet tc uid"
    using drive_create_fields [OF player(2), where tc = tc and uid = uid, folded run(1), unfolded load1] by simp_all
  have s1: "s1 = exchange e now1 j i k (create_packet tc uid) s" using run(2) c1(3) load1 by simp
  note first = tool_create_round [OF e codec rest link(3) player(1) server(4) shard(1-3) fresh(1), where now = now1, folded s1 room_id_def]
  obtain y where y: "at_rest e j i y s1" using first(1) by blast
  obtain l1 where l1: "gs_logic_shards s1 = (gs_logic_shards s)[k := l1]" "id_space_left l1"
      "um_find (ls_rooms l1) room_id = Some (lone_room room_id uid False)"
    using created_shard [OF first(2) ids shard(4) room_id_def] by blast
  obtain c2 g2 where load2: "load2 = (c2, g2)" by fastforce
  have c2: "last (cn_out c2) = ready_packet tc uid room_id" "room_at uid c2 = RoomState_default\<lparr>rm_room_id := room_id, rm_phase := 1\<rparr>"
    using reads_created [OF codec c1(1,2) fresh(2) [folded room_id_def] first(3), of clock1 g1] run(3) load1 load2
    by (metis fst_conv last_snoc)+
  have s2: "s2 = exchange e now2 j i k (ready_packet tc uid room_id) s1" using run(4) c2(1) load2 by simp
  note second = tool_ready_round [OF e codec y link(3) player(1) _ refl _ fresh(2) [folded room_id_def], where now = now2 and k = k, folded s2]
  have "k < length (gs_logic_shards s1)" "gs_logic_shards s1 ! k = l1" using k l1(1) by simp_all
  note second = second [unfolded this(2), OF this(1) l1(3,2)]
  have "fst load3 = on_room uid (on_snapshot (clock2 2) (lone_view e)) c2"
    using reads_started [OF codec e second(3), of clock2 c2 g2] run(5) load2 by simp
  then have st: "room_at uid (fst load3) = on_snapshot (clock2 2) (lone_view e) (RoomState_default\<lparr>rm_room_id := room_id, rm_phase := 1\<rparr>)"
    using c2(2) by simp
  show ?thesis
    using lone_game [OF it, where room_id = room_id] second(1,2) by (auto simp: st at_rest_def Let_def)
qed


lemma virtual_player_plays_witness:
  "let load1 = drive_create example_tool 7 example_load;
       s1 = exchange load_env 1 0 0 0 (last (cn_out (fst load1))) example_server1;
       load2 = Reader example_tool of_nat (written_bytes 0 0 example_server1 s1) load1;
       s2 = exchange load_env 2 0 0 0 (last (cn_out (fst load2))) s1;
       load3 = Reader example_tool of_nat (written_bytes 0 0 s1 s2) load2
   in rm_phase (room_at 7 (fst load3)) = 2 \<and>
      (\<exists>room. um_find (ls_rooms (gs_logic_shards s2 ! 0)) (rm_room_id (room_at 7 (fst load3))) = Some room \<and>
         dr_started room \<and> um_keys (dr_players room) = [7])"
proof -
  have l: "let l = gs_logic_shards example_server1 ! 0
    in um_find (ls_uid_to_room l) 7 = None \<and> ls_shard_id l = 0 \<and> ls_shard_count l = 2 \<and> ls_next_room_id l = 1"
    by code_simp
  then have free: "um_find (ls_uid_to_room (gs_logic_shards example_server1 ! 0)) 7 = None"
    and space: "unat (ls_shard_id (gs_logic_shards example_server1 ! 0)) + unat (ls_shard_count (gs_logic_shards example_server1 ! 0)) *
      (unat (ls_next_room_id (gs_logic_shards example_server1 ! 0)) + 2) < 2 ^ 64"
    by (simp_all add: Let_def)
  have player: "(0 :: nat) < 2 ^ 32" "(7 :: u64) \<noteq> 0" "cn_socket_ok (fst example_load)" by (simp_all add: example_load_def Conn_new_def)
  show ?thesis
    unfolding Let_def
    using virtual_player_plays [OF load_env_ok load_codec_small load_codec_ok load_server_reachable load_server_fields(1-5) player(1)
      load_server_fields(6) refl free space player(2,3) refl refl refl refl refl,
      where ?now1.0 = 1 and ?now2.0 = 2 and ?clock1.0 = of_nat and ?clock2.0 = of_nat]
    unfolding Let_def by blast
qed


subsection \<open>The tools and the servers\<close>





end
