(* ===== verification/GateExchange.thy ===== *)
theory GateExchange
  imports EndToEnd Exchange
begin

text \<open>
  The gate's part of a round trip between a client and the game server: what a client sends is read and
  handed to a pooled connection, whose writer sends it; what comes back over the connection is read and
  queued on the client's session, whose writer sends it. The definitions are sequences of the gate's
  events; the lemmas describe their outcome on a gate whose writers have nothing else to do.
\<close>

subsection \<open>Sessions and connections of a gate\<close>

definition conn :: "nat \<Rightarrow> nat \<Rightarrow> Gate \<Rightarrow> ClientSession option" where
  "conn k p g =
     (case ws_ConnPool (gt_shards g ! k) of
        None \<Rightarrow> None
      | Some pool \<Rightarrow> if p < length (cp_sessions pool) then cp_sessions pool ! p else None)"

definition set_pool :: "nat \<Rightarrow> GameServerConnPool \<Rightarrow> Gate \<Rightarrow> Gate" where
  "set_pool k pool = on_shard k (\<lambda>w. w\<lparr>ws_ConnPool := Some pool\<rparr>)"

definition put_conn :: "nat \<Rightarrow> ClientSession \<Rightarrow> GameServerConnPool \<Rightarrow> GameServerConnPool" where
  "put_conn p b pool = pool\<lparr>cp_sessions := (cp_sessions pool)[p := Some b]\<rparr>"

definition on_conn :: "nat \<Rightarrow> nat \<Rightarrow> (ClientSession \<Rightarrow> ClientSession) \<Rightarrow> Gate \<Rightarrow> Gate" where
  "on_conn k p f g =
     (case (ws_ConnPool (gt_shards g ! k), conn k p g) of
        (Some pool, Some b) \<Rightarrow> set_pool k (put_conn p (f b) pool) g
      | _ \<Rightarrow> g)"

subsection \<open>The events\<close>

definition gate_ingress :: "gate_env \<Rightarrow> u64 \<Rightarrow> string \<Rightarrow> byte list \<Rightarrow> Gate \<Rightarrow> Gate" where
  "gate_ingress e now u bytes g =
     fold (\<lambda>node. ClientIngress_HandleMsg e now (rn_msg_id node) u (rn_data node)) (Csession_read bytes) g"

definition conn_turn :: "nat \<Rightarrow> nat \<Rightarrow> Gate \<Rightarrow> Gate" where
  "conn_turn k p = on_conn k p (\<lambda>b. if bc_writer b = NoWriter then b else ClientSession_write_turn b)"

definition flush_conn :: "nat \<Rightarrow> nat \<Rightarrow> Gate \<Rightarrow> Gate" where
  "flush_conn k p g =
     (case conn k p g of None \<Rightarrow> g | Some b \<Rightarrow> (conn_turn k p ^^ Suc (length (bc_send_que b))) g)"

definition conn_bytes :: "nat \<Rightarrow> nat \<Rightarrow> Gate \<Rightarrow> Gate \<Rightarrow> byte list" where
  "conn_bytes k p g g' =
     (case (conn k p g, conn k p g') of
        (Some b, Some b') \<Rightarrow> concat (map sn_data (drop (length (bc_written b)) (bc_written b')))
      | _ \<Rightarrow> [])"

text \<open>A packet that arrives on a connection, with the deliveries it causes on other threads.\<close>

definition backend_packet :: "gate_env \<Rightarrow> int \<Rightarrow> nat \<Rightarrow> nat \<Rightarrow> RecvNode \<Rightarrow> Gate \<Rightarrow> Gate" where
  "backend_packet e now k p node g =
     (case conn k p g of
        None \<Rightarrow> g
      | Some b \<Rightarrow>
          (let (b', routed) = on_backend_packet (gv_codec e) now node b;
               g = on_conn k p (\<lambda>_. b') g
           in case routed of
                None \<Rightarrow> g
              | Some node \<Rightarrow> (let (effects, g) = BackendIngress_HandleMsg e k node g in fold run_effect effects g)))"

definition backend_read :: "gate_env \<Rightarrow> int \<Rightarrow> nat \<Rightarrow> nat \<Rightarrow> byte list \<Rightarrow> Gate \<Rightarrow> Gate" where
  "backend_read e now k p bytes g = fold (backend_packet e now k p) (ClientSession_read bytes) g"

definition client_turn :: "string \<Rightarrow> Gate \<Rightarrow> Gate" where
  "client_turn u g =
     (case um_find (gt_objs g) u of
        None \<Rightarrow> g
      | Some x \<Rightarrow> if cs_writer x = NoWriter then g else on_session u Csession_write_turn g)"

definition flush_client :: "string \<Rightarrow> Gate \<Rightarrow> Gate" where
  "flush_client u g =
     (case um_find (gt_objs g) u of None \<Rightarrow> g | Some x \<Rightarrow> (client_turn u ^^ Suc (length (cs_send_que x))) g)"

definition client_bytes :: "string \<Rightarrow> Gate \<Rightarrow> Gate \<Rightarrow> byte list" where
  "client_bytes u g g' =
     (case (um_find (gt_objs g) u, um_find (gt_objs g') u) of
        (Some x, Some y) \<Rightarrow> concat (map sn_data (drop (length (cs_written x)) (cs_written y)))
      | _ \<Rightarrow> [])"

text \<open>The first connection of a shard that is up and has something to send.\<close>

definition busy_conn :: "nat \<Rightarrow> Gate \<Rightarrow> nat option" where
  "busy_conn k g =
     List.find (\<lambda>p. case conn k p g of None \<Rightarrow> False | Some b \<Rightarrow> IsConnAvailable (Some b) \<and> bc_send_que b \<noteq> [])
       [0..<GAMESERVER_CONN_CNT]"

subsection \<open>Nothing to do\<close>

definition conn_rests :: "ClientSession \<Rightarrow> bool" where
  "conn_rests b \<longleftrightarrow> bc_state b = BConnected \<and> bc_send_que b = [] \<and> \<not> bc_is_writing b \<and> bc_writer b = NoWriter"

text \<open>Every connection of the pool that is up has nothing to send, and one is up.\<close>

definition pool_rests :: "GameServerConnPool \<Rightarrow> bool" where
  "pool_rests pool \<longleftrightarrow> pool_ok pool \<and> (\<exists>p < GAMESERVER_CONN_CNT. IsConnAvailable (cp_sessions pool ! p)) \<and>
     (\<forall>p < GAMESERVER_CONN_CNT. \<forall>b. cp_sessions pool ! p = Some b \<longrightarrow> IsConnAvailable (Some b) \<longrightarrow> conn_rests b)"

definition client_rests :: "Csession \<Rightarrow> bool" where
  "client_rests x \<longleftrightarrow> cs_state x = Conected \<and> cs_send_que x = [] \<and> \<not> cs_is_writing x \<and> cs_writer x = NoWriter"

text \<open>The session \<open>u\<close> is on shard \<open>k\<close>, bound to \<open>uid\<close>, and \<open>pool\<close> is the pool of the shard.\<close>

definition gate_rests :: "gate_env \<Rightarrow> string \<Rightarrow> nat \<Rightarrow> u64 \<Rightarrow> GameServerConnPool \<Rightarrow> Gate \<Rightarrow> bool" where
  "gate_rests e u k uid pool g \<longleftrightarrow> gate_run e g \<and>
     (\<exists>x. um_find (gt_objs g) u = Some x \<and> cs_shard x = k \<and> cs_uid x = uid \<and> client_rests x) \<and>
     ws_ConnPool (gt_shards g ! k) = Some pool \<and> pool_rests pool"

subsection \<open>Runs\<close>

lemma gate_run_same:
  assumes "gate_run e g" and "gate_step e g g'" and "who g' = who g"
  shows "gate_run e g'"
  using gate_run_step [OF assms(1,2)] gate_run_inv [OF assms(1)] assms(3) by (simp add: unique_uids_def)

lemma run_set_pool: "gate_run e g \<Longrightarrow> gate_run e (set_pool k pool g)"
  using gate_run_same [OF _ gate_pool] by (simp add: set_pool_def)

lemma who_send_data: "who (send_data u node g) = who g"
  by (simp add: send_data_def who_on_session SendData_identity)

lemma run_send_data: "gate_run e g \<Longrightarrow> gate_run e (send_data u node g)"
  using gate_run_same [OF _ gate_effect [of e g "PostSendData 0 u node"]] by (simp add: who_send_data)

lemma run_client_turn: "gate_run e g \<Longrightarrow> gate_run e (client_turn u g)"
proof -
  assume g: "gate_run e g"
  have "who (on_session u Csession_write_turn g) = who g"
    by (simp add: who_on_session Csession_write_turn_def split: list.split)
  then show ?thesis
    using gate_run_same [OF g gate_write] g by (simp add: client_turn_def split: option.split)
qed

lemma run_flush_client: "gate_run e g \<Longrightarrow> gate_run e (flush_client u g)"
proof -
  assume "gate_run e g"
  then have "gate_run e ((client_turn u ^^ n) g)" for n by (induction n) (simp_all add: run_client_turn)
  then show ?thesis using \<open>gate_run e g\<close> by (simp add: flush_client_def del: funpow.simps split: option.split)
qed


lemma run_on_conn: "gate_run e g \<Longrightarrow> gate_run e (on_conn k p f g)"
  by (simp add: on_conn_def run_set_pool split: option.split)

subsection \<open>The connection\<close>

definition has_pool :: "nat \<Rightarrow> GameServerConnPool \<Rightarrow> Gate \<Rightarrow> bool" where
  "has_pool k pool g \<longleftrightarrow> k < length (gt_shards g) \<and> ws_ConnPool (gt_shards g ! k) = Some pool"

lemma set_pool_simps [simp]:
  "gt_objs (set_pool k pool g) = gt_objs g" "gt_registry (set_pool k pool g) = gt_registry g"
  "set_pool k pool' (set_pool k pool g) = set_pool k pool' g" "logged_in (set_pool k pool g) = logged_in g"
  "length (gt_shards (set_pool k pool g)) = length (gt_shards g)"
  by (simp_all add: set_pool_def on_shard_def logged_in_def fun_eq_iff)
     (cases "k < length (gt_shards g)"; simp add: list_update_beyond)

lemma set_pool_send_data: "set_pool k pool (send_data u node g) = send_data u node (set_pool k pool g)"
  by (simp add: set_pool_def send_data_def on_session_def on_shard_def)

lemma has_pool_simps [simp]:
  "has_pool k pool (set_pool k pool' g) \<longleftrightarrow> k < length (gt_shards g) \<and> pool = pool'"
  "has_pool k pool (on_session u f g) \<longleftrightarrow> has_pool k pool g"
  "has_pool k pool (send_data u node g) \<longleftrightarrow> has_pool k pool g"
  by (auto simp: has_pool_def set_pool_def send_data_def)

lemma has_poolD: "has_pool k pool g \<Longrightarrow> k < length (gt_shards g)"
  by (simp add: has_pool_def)

lemma conn_pool:
  assumes "has_pool k pool g" and "p < length (cp_sessions pool)"
  shows "conn k p g = cp_sessions pool ! p"
  using assms by (simp add: has_pool_def conn_def)

lemma put_conn_simps [simp]:
  "length (cp_sessions (put_conn p b pool)) = length (cp_sessions pool)"
  "p < length (cp_sessions pool) \<Longrightarrow> cp_sessions (put_conn p b pool) ! p = Some b"
  "p' \<noteq> p \<Longrightarrow> cp_sessions (put_conn p b pool) ! p' = cp_sessions pool ! p'"
  "put_conn p b' (put_conn p b pool) = put_conn p b' pool"
  by (simp_all add: put_conn_def)

lemma on_conn_pool:
  assumes "has_pool k pool g" and "p < length (cp_sessions pool)" and "cp_sessions pool ! p = Some b"
  shows "on_conn k p f g = set_pool k (put_conn p (f b) pool) g"
  using assms conn_pool [OF assms(1,2)] by (simp add: on_conn_def has_pool_def)

text \<open>A connection at rest takes a packet and writes it.\<close>

definition conn_sent :: "SendNode \<Rightarrow> ClientSession \<Rightarrow> ClientSession" where
  "conn_sent packet b = b\<lparr>bc_accepted := bc_accepted b @ [packet], bc_written := bc_written b @ [packet]\<rparr>"

lemma conn_sent_rests: "conn_rests b \<Longrightarrow> conn_rests (conn_sent packet b)"
  by (simp add: conn_rests_def conn_sent_def)

lemma flush_conn_outcome:
  assumes pool: "has_pool k pool g" "p < length (cp_sessions pool)"
    and b: "cp_sessions pool ! p = Some (ClientSession_SendData packet b)" "conn_rests b"
  shows "flush_conn k p g = set_pool k (put_conn p (conn_sent packet b) pool) g"
    and "conn_bytes k p g (flush_conn k p g) = sn_data packet"
proof -
  let ?b1 = "ClientSession_SendData packet b"
  have b1: "bc_send_que ?b1 = [packet]" "bc_writer ?b1 = Spawned" "bc_written ?b1 = bc_written b"
    using b(2) by (simp_all add: conn_rests_def ClientSession_SendData_def kMaxSendQueueDepth_def Let_def)
  define b2 where "b2 = ClientSession_write_turn ?b1"
  have b2: "bc_writer b2 \<noteq> NoWriter" "ClientSession_write_turn b2 = conn_sent packet b"
    using b(2) by (cases b; simp add: b2_def conn_rests_def conn_sent_def ClientSession_SendData_def ClientSession_write_turn_def
        kMaxSendQueueDepth_def Let_def)+
  have 1: "conn_turn k p g = set_pool k (put_conn p b2 pool) g"
    unfolding conn_turn_def on_conn_pool [OF pool b(1)] by (simp add: b1(2) b2_def)
  have pool2: "has_pool k (put_conn p b2 pool) (set_pool k (put_conn p b2 pool) g)" using has_poolD [OF pool(1)] by simp
  have 2: "conn_turn k p (set_pool k (put_conn p b2 pool) g) = set_pool k (put_conn p (conn_sent packet b) pool) g"
    unfolding conn_turn_def by (subst on_conn_pool [OF pool2, where b = b2]) (use pool(2) b2 in simp_all)
  have c: "conn k p g = Some ?b1" using conn_pool [OF pool] b(1) by simp
  then show flush: "flush_conn k p g = set_pool k (put_conn p (conn_sent packet b) pool) g"
    using 1 2 by (simp add: flush_conn_def b1(1))
  have "conn k p (set_pool k (put_conn p (conn_sent packet b) pool) g) = Some (conn_sent packet b)"
    using has_poolD [OF pool(1)] pool(2) by (subst conn_pool [where pool = "put_conn p (conn_sent packet b) pool"]) simp_all
  then show "conn_bytes k p g (flush_conn k p g) = sn_data packet"
    by (simp add: flush conn_bytes_def c b1(3)) (simp add: conn_sent_def)
qed

subsection \<open>The pool\<close>

lemma pool_rests_post:
  assumes "pool_rests pool"
  obtains p b rr where "p < GAMESERVER_CONN_CNT" "p < length (cp_sessions pool)" "cp_sessions pool ! p = Some b" "conn_rests b"
    and "snd (Pool_PostMessage packet pool) = put_conn p (ClientSession_SendData packet b) (pool\<lparr>cp_rr_idx := rr\<rparr>)"
    and "\<forall>p' b'. p' < GAMESERVER_CONN_CNT \<longrightarrow> p' \<noteq> p \<longrightarrow> cp_sessions pool ! p' = Some b' \<longrightarrow>
           IsConnAvailable (Some b') \<longrightarrow> bc_send_que b' = []"
proof -
  have ok: "pool_ok pool" "length (cp_sessions pool) = GAMESERVER_CONN_CNT"
    using assms by (simp_all add: pool_rests_def pool_ok_def)
  obtain n where n: "IsConnAvailable (cp_sessions pool ! probe (cp_rr_idx pool) n)"
    "Pool_PostMessage packet pool = (True, pool\<lparr>cp_rr_idx := cp_rr_idx pool + of_nat (Suc n),
        cp_sessions := (cp_sessions pool)[probe (cp_rr_idx pool) n :=
          map_option (ClientSession_SendData packet) (cp_sessions pool ! probe (cp_rr_idx pool) n)]\<rparr>)"
    using Pool_PostMessage_spec [OF ok(1), of packet] assms by (auto simp: pool_rests_def split: if_splits)
  define p where "p = probe (cp_rr_idx pool) n"
  have p: "p < GAMESERVER_CONN_CNT" unfolding p_def by (rule probe_less)
  obtain b where b: "cp_sessions pool ! p = Some b"
    using n(1) by (auto simp: p_def IsConnAvailable_def split: option.splits)
  have rest: "conn_rests b" using assms p b n(1) by (auto simp: pool_rests_def p_def)
  have post: "snd (Pool_PostMessage packet pool) =
      put_conn p (ClientSession_SendData packet b) (pool\<lparr>cp_rr_idx := cp_rr_idx pool + of_nat (Suc n)\<rparr>)"
    using n(2) b by (simp add: put_conn_def p_def)
  have idle: "\<forall>p' b'. p' < GAMESERVER_CONN_CNT \<longrightarrow> p' \<noteq> p \<longrightarrow> cp_sessions pool ! p' = Some b' \<longrightarrow>
      IsConnAvailable (Some b') \<longrightarrow> bc_send_que b' = []"
    using assms by (auto simp: pool_rests_def conn_rests_def)
  show thesis by (rule that [OF p _ b rest post idle]) (use p ok(2) in simp)
qed

lemma pool_rests_put:
  assumes "pool_rests pool" and "conn_rests b" and "p < GAMESERVER_CONN_CNT"
  shows "pool_rests (put_conn p b (pool\<lparr>cp_rr_idx := rr\<rparr>))"
proof -
  have len: "length (cp_sessions pool) = GAMESERVER_CONN_CNT" using assms(1) by (simp add: pool_rests_def pool_ok_def)
  have "IsConnAvailable (Some b)" using assms(2) by (simp add: conn_rests_def IsConnAvailable_def)
  then have "\<exists>p' < GAMESERVER_CONN_CNT. IsConnAvailable (cp_sessions (put_conn p b (pool\<lparr>cp_rr_idx := rr\<rparr>)) ! p')"
    using assms(3) len by (intro exI [of _ p]) (simp add: put_conn_def)
  then show ?thesis
    using assms len by (auto simp: pool_rests_def pool_ok_def put_conn_def nth_list_update)
qed

subsection \<open>From the client to the connection\<close>

lemma gate_restsD:
  assumes "gate_rests e u k uid pool g"
  shows "gate_run e g" "k < WORK_SHARD_NUMBER" "has_pool k pool g" "pool_rests pool"
    "\<exists>x. um_find (gt_objs g) u = Some x \<and> cs_shard x = k \<and> cs_uid x = uid \<and> client_rests x"
    "uid \<noteq> 0 \<Longrightarrow> logged_in g u = Some uid"
proof -
  show g: "gate_run e g" "pool_rests pool"
    and x: "\<exists>x. um_find (gt_objs g) u = Some x \<and> cs_shard x = k \<and> cs_uid x = uid \<and> client_rests x"
    using assms by (simp_all add: gate_rests_def)
  then have "who g u = Some (uid, k)" by (auto simp: who_def)
  then show k: "k < WORK_SHARD_NUMBER" using gate_run_inv [OF g(1)] by (auto simp: gate_ok_def)
  then show "has_pool k pool g"
    using assms gate_run_inv [OF g(1)] by (simp add: gate_rests_def has_pool_def gate_ok_def)
  show "logged_in g u = Some uid" if "uid \<noteq> 0"
    using x that by (auto simp: logged_in_def client_open_def client_rests_def)
qed

lemma ingress_one:
  assumes "i \<noteq> 0" and "length body \<le> kMaxPacketBodyLen"
  shows "gate_ingress e now u (wire (i, kPacketFlagNone, body)) g = ClientIngress_HandleMsg e now i u body g"
  using assms handle_read_one [of i kPacketFlagNone body]
  by (simp add: gate_ingress_def Csession_read_eq wire_def sendable_def)

text \<open>A message for the game server ends on the queue of one connection.\<close>

lemma ingress_forwards:
  assumes rest: "gate_rests e u k uid pool g" and uid: "uid \<noteq> 0" and i: "i \<in> set client_forwards"
    and payload: "gc_serialize (gv_codec e) (GateToGameMsg (gate_envelope uid (get_session_id (gv_hash e) u) i body)) = Some payload"
      "length payload \<le> kMaxPacketBodyLen"
  shows "ClientIngress_HandleMsg e now i u body g =
    set_pool k (snd (Pool_PostMessage (SendNode_new payload GateToGameEnvelope kPacketFlagNone) pool)) g"
proof -
  note r = gate_restsD [OF rest]
  obtain x where x: "um_find (gt_objs g) u = Some x" "cs_shard x = k" "cs_uid x = uid" using r(5) by blast
  have "BuildGateToGameEnvelope (gv_codec e) uid (get_session_id (gv_hash e) u) i body =
      Some (SendNode_new payload GateToGameEnvelope kPacketFlagNone)"
    using payload by (simp add: BuildGateToGameEnvelope_def SerializeMessage_def BuildPacket_small)
  moreover have "i \<noteq> LoginReq" "i \<noteq> PingReq" using i by (auto simp: client_forwards_def)
  ultimately show ?thesis
    using x uid i r(3)
    by (simp add: ClientIngress_HandleMsg_def ForwardClientMsgToGame_def set_pool_def on_shard_def WorkShard_PostMessage_def has_pool_def)
qed

lemma busy_conn_posted:
  assumes pool: "has_pool k pool g" "p < GAMESERVER_CONN_CNT" "length (cp_sessions pool) = GAMESERVER_CONN_CNT"
    and p: "cp_sessions pool ! p = Some b" "IsConnAvailable (Some b)" "bc_send_que b \<noteq> []"
    and others: "\<forall>p' b'. p' < GAMESERVER_CONN_CNT \<longrightarrow> p' \<noteq> p \<longrightarrow> cp_sessions pool ! p' = Some b' \<longrightarrow>
           IsConnAvailable (Some b') \<longrightarrow> bc_send_que b' = []"
  shows "busy_conn k g = Some p"
  unfolding busy_conn_def
proof (rule find_unique)
  have c: "conn k p' g = cp_sessions pool ! p'" if "p' < GAMESERVER_CONN_CNT" for p'
    using conn_pool [OF pool(1)] pool(3) that by simp
  show "p < GAMESERVER_CONN_CNT" by (rule pool(2))
  show "case conn k p g of None \<Rightarrow> False | Some b \<Rightarrow> IsConnAvailable (Some b) \<and> bc_send_que b \<noteq> []"
    using c [OF pool(2)] p by simp
  show "p' = p" if "p' < GAMESERVER_CONN_CNT"
      "case conn k p' g of None \<Rightarrow> False | Some b \<Rightarrow> IsConnAvailable (Some b) \<and> bc_send_que b \<noteq> []" for p'
    using others that c [OF that(1)] by (cases "p' = p") (auto split: option.splits)
qed

text \<open>The connection writes the packet and is at rest again.\<close>

lemma request_sent:
  fixes now :: u64
  assumes rest: "gate_rests e u k uid pool g" and uid: "uid \<noteq> 0" and i: "i \<in> set client_forwards" "length body \<le> kMaxPacketBodyLen"
    and payload: "gc_serialize (gv_codec e) (GateToGameMsg (gate_envelope uid (get_session_id (gv_hash e) u) i body)) = Some payload"
      "length payload \<le> kMaxPacketBodyLen"
  defines "g1 \<equiv> gate_ingress e now u (wire (i, kPacketFlagNone, body)) g"
  shows "\<exists>p pool'. p < GAMESERVER_CONN_CNT \<and> IsConnAvailable (cp_sessions pool ! p) \<and> busy_conn k g1 = Some p \<and>
    gate_rests e u k uid pool' (flush_conn k p g1) \<and> conn_bytes k p g1 (flush_conn k p g1) = wire (GateToGameEnvelope, kPacketFlagNone, payload) \<and>
    (\<forall>p' < GAMESERVER_CONN_CNT. IsConnAvailable (cp_sessions pool' ! p') = IsConnAvailable (cp_sessions pool ! p')) \<and>
    gt_objs g1 = gt_objs g"
proof -
  note r = gate_restsD [OF rest]
  define packet where "packet = SendNode_new payload GateToGameEnvelope kPacketFlagNone"
  have "i \<noteq> 0" using i(1) by (auto simp: client_forwards_def)
  then have g1: "g1 = set_pool k (snd (Pool_PostMessage packet pool)) g"
    using ingress_forwards [OF rest uid i(1) payload] ingress_one i(2) by (simp add: g1_def packet_def)
  obtain p b rr where p: "p < GAMESERVER_CONN_CNT" "p < length (cp_sessions pool)" "cp_sessions pool ! p = Some b" "conn_rests b"
    and post: "snd (Pool_PostMessage packet pool) = put_conn p (ClientSession_SendData packet b) (pool\<lparr>cp_rr_idx := rr\<rparr>)"
    and others: "\<forall>p' b'. p' < GAMESERVER_CONN_CNT \<longrightarrow> p' \<noteq> p \<longrightarrow> cp_sessions pool ! p' = Some b' \<longrightarrow>
           IsConnAvailable (Some b') \<longrightarrow> bc_send_que b' = []"
    by (rule pool_rests_post [OF r(4), where packet = packet]) blast
  let ?pool1 = "put_conn p (ClientSession_SendData packet b) (pool\<lparr>cp_rr_idx := rr\<rparr>)"
  have pool1: "has_pool k ?pool1 g1" using has_poolD [OF r(3)] by (simp add: g1 post)
  have b1: "IsConnAvailable (Some (ClientSession_SendData packet b))" "bc_send_que (ClientSession_SendData packet b) \<noteq> []"
    using p(4) by (simp_all add: conn_rests_def IsConnAvailable_def ClientSession_SendData_def Let_def)
  have len: "length (cp_sessions pool) = GAMESERVER_CONN_CNT" using r(4) by (simp add: pool_rests_def pool_ok_def)
  have busy: "busy_conn k g1 = Some p"
    by (rule busy_conn_posted [OF pool1 p(1) _ _ b1]) (use len p others in \<open>simp_all add: put_conn_def\<close>)
  define pool' where "pool' = put_conn p (conn_sent packet b) (pool\<lparr>cp_rr_idx := rr\<rparr>)"
  have flush: "flush_conn k p g1 = set_pool k pool' g" "conn_bytes k p g1 (flush_conn k p g1) = sn_data packet"
    using flush_conn_outcome [OF pool1 _ _ p(4), where p = p and packet = packet] p(2) by (simp_all add: pool'_def g1)
  have "gate_rests e u k uid pool' (set_pool k pool' g)"
    using r run_set_pool [OF r(1)] has_poolD [OF r(3)] pool_rests_put [OF r(4) conn_sent_rests [OF p(4)] p(1)]
    by (simp add: gate_rests_def pool'_def has_pool_def [symmetric]) (simp add: set_pool_def)
  moreover have up: "IsConnAvailable (cp_sessions pool ! p)" "IsConnAvailable (cp_sessions pool' ! p)"
    using p by (simp_all add: conn_rests_def IsConnAvailable_def pool'_def put_conn_def conn_sent_def)
  moreover have "IsConnAvailable (cp_sessions pool' ! p') = IsConnAvailable (cp_sessions pool ! p')" for p'
    using up by (cases "p' = p") (simp_all add: pool'_def put_conn_def)
  moreover have "gt_objs g1 = gt_objs g" by (simp add: g1)
  ultimately show ?thesis
    using p(1) busy flush by (auto simp: wire_def packet_def)
qed

subsection \<open>From the connection to the client\<close>

text \<open>A packet of the game server that carries \<open>packet\<close> to the player \<open>uid\<close> alone.\<close>

definition carries_to :: "gate_codec \<Rightarrow> u64 \<Rightarrow> RecvNode \<Rightarrow> SendNode \<Rightarrow> bool" where
  "carries_to c uid node packet \<longleftrightarrow> rn_msg_id node = GameToGateEnvelope \<and>
     (\<exists>i payload. ParseProtoFromBytes (gc_game_to_gate c) (rn_data node) =
          Some \<lparr>gg_target_uids = [uid], gg_inner_msg_id = ucast (i :: MsgId), gg_payload = payload\<rparr> \<and>
        length payload < 2 ^ 32 \<and> packet = SendNode_new payload i kPacketFlagNone)"

lemma SendToUid_recipient:
  assumes "recipient k g uid = Some u" and "WorkShard_SendToUid k uid packet g = (ok, effects, g')"
  shows "fold run_effect effects g' = send_data u packet g"
  using assms by (auto simp: recipient_def WorkShard_SendToUid_def Registry_SendToUid_def alive_def split: option.splits if_splits)

lemma ingress_delivers:
  assumes run: "gate_run e g" "k < WORK_SHARD_NUMBER" "logged_in g u = Some uid" and node: "carries_to (gv_codec e) uid node packet"
    and handled: "BackendIngress_HandleMsg e k node g = (effects, g')"
  shows "fold run_effect effects g' = send_data u packet g"
proof -
  obtain i :: MsgId and payload where p: "rn_msg_id node = GameToGateEnvelope"
      "ParseProtoFromBytes (gc_game_to_gate (gv_codec e)) (rn_data node) =
          Some \<lparr>gg_target_uids = [uid], gg_inner_msg_id = ucast i, gg_payload = payload\<rparr>"
      "length payload < 2 ^ 32" "packet = SendNode_new payload i kPacketFlagNone"
    using node unfolding carries_to_def by blast
  have build: "BuildPacket (ucast (ucast i :: u32)) payload = Some packet"
    using p(3,4) by (simp add: BuildPacket_def ucast_msg_id)
  obtain ok posted g2 where w: "WorkShard_SendToUid k uid packet g = (ok, posted, g2)" by (rule prod_cases3)
  have "effects = posted" "g' = g2"
    using handled p(1,2) build w by (auto simp: BackendIngress_HandleMsg_def ForwardGameToClients_def send_to_uids_def Let_def)
  then show ?thesis using SendToUid_recipient [OF gate_run_recipient [OF run] w] by simp
qed

lemma logged_in_send_data [simp]: "logged_in (send_data v node g) = logged_in g"
  by (auto simp: fun_eq_iff logged_in_def send_data_def SendData_identity client_open_SendData split: option.split)

lemma backend_packet_delivers:
  assumes run: "gate_run e g" "k < WORK_SHARD_NUMBER" "logged_in g u = Some uid"
    and pool: "has_pool k pool g" "p < length (cp_sessions pool)" "cp_sessions pool ! p = Some b"
    and node: "carries_to (gv_codec e) uid node packet"
  shows "backend_packet e now k p node g = send_data u packet (set_pool k (put_conn p (b\<lparr>bc_last_recv_time := now\<rparr>) pool) g)"
proof -
  let ?b = "b\<lparr>bc_last_recv_time := now\<rparr>" and ?g = "set_pool k (put_conn p (b\<lparr>bc_last_recv_time := now\<rparr>) pool) g"
  have "rn_msg_id node \<noteq> PongRsp" using node by (simp add: carries_to_def)
  then have b: "on_backend_packet (gv_codec e) now node b = (?b, Some node)" by (simp add: on_backend_packet_def)
  obtain effects g' where h: "BackendIngress_HandleMsg e k node ?g = (effects, g')" by fastforce
  have "fold run_effect effects g' = send_data u packet ?g"
    using run by (intro ingress_delivers [OF run_set_pool [OF run(1)] run(2) _ node h]) simp
  then show ?thesis
    using b h on_conn_pool [OF pool, of "\<lambda>_. ?b"] conn_pool [OF pool(1,2)] pool(3) by (simp add: backend_packet_def)
qed

lemma backend_packets_deliver:
  assumes "gate_run e g" and "k < WORK_SHARD_NUMBER" and "logged_in g u = Some uid"
    and "has_pool k pool g" and "p < length (cp_sessions pool)" and "cp_sessions pool ! p = Some b"
    and "list_all2 (carries_to (gv_codec e) uid) nodes packets" and "nodes \<noteq> []"
  shows "fold (backend_packet e now k p) nodes g =
    fold (send_data u) packets (set_pool k (put_conn p (b\<lparr>bc_last_recv_time := now\<rparr>) pool) g)"
  using assms(7,1-6,8)
proof (induction nodes packets arbitrary: g pool b rule: list_all2_induct)
  case (Cons node nodes packet packets)
  let ?b = "b\<lparr>bc_last_recv_time := now\<rparr>"
  let ?pool = "put_conn p ?b pool"
  let ?g = "send_data u packet (set_pool k ?pool g)"
  have step: "backend_packet e now k p node g = ?g"
    by (rule backend_packet_delivers [OF Cons.prems(1-6) Cons.hyps(1)])
  show ?case
  proof (cases "nodes = []")
    case True
    then show ?thesis using step Cons.hyps(2) by simp
  next
    case False
    have "fold (backend_packet e now k p) nodes ?g =
        fold (send_data u) packets (set_pool k (put_conn p (?b\<lparr>bc_last_recv_time := now\<rparr>) ?pool) ?g)"
      using Cons.prems has_poolD [OF Cons.prems(4)] False
      by (intro Cons.IH run_send_data run_set_pool) simp_all
    then show ?thesis using step by (simp add: set_pool_send_data)
  qed
qed simp

text \<open>The writer of the session sends what was queued.\<close>

definition client_got :: "SendNode list \<Rightarrow> Csession \<Rightarrow> Csession" where
  "client_got packets x = x\<lparr>cs_accepted := cs_accepted x @ packets, cs_written := cs_written x @ packets\<rparr>"

lemma client_got_rests: "client_rests x \<Longrightarrow> client_rests (client_got packets x)"
  by (simp add: client_rests_def client_got_def)

lemma fold_SendData:
  assumes "client_rests x" and "packets \<noteq> []" and "length packets \<le> kMaxSendQueueDepth"
  shows "fold Csession_SendData packets x =
    x\<lparr>cs_send_que := packets, cs_accepted := cs_accepted x @ packets, cs_is_writing := True, cs_writer := Spawned\<rparr>"
  using assms(2,3)
proof (induction packets rule: rev_nonempty_induct)
  case (single p)
  then show ?case using assms(1) by (simp add: client_rests_def Csession_SendData_def kMaxSendQueueDepth_def Let_def)
next
  case (snoc p ps)
  then show ?case using assms(1) by (simp add: client_rests_def Csession_SendData_def Let_def)
qed

lemma client_turn_fields:
  assumes "um_find (gt_objs g) u = Some x"
  shows "um_find (gt_objs (client_turn u g)) u = Some (if cs_writer x = NoWriter then x else Csession_write_turn x)"
    and "gt_shards (client_turn u g) = gt_shards g"
  using assms by (simp_all add: client_turn_def)

lemma client_turns:
  assumes "um_find (gt_objs g) u = Some x" and "cs_writer x \<noteq> NoWriter" and "cs_state x = Conected"
  shows "um_find (gt_objs ((client_turn u ^^ Suc (length (cs_send_que x))) g)) u =
      Some (x\<lparr>cs_send_que := [], cs_written := cs_written x @ cs_send_que x, cs_is_writing := False, cs_writer := NoWriter\<rparr>) \<and>
    gt_shards ((client_turn u ^^ Suc (length (cs_send_que x))) g) = gt_shards g"
  using assms
proof (induction "cs_send_que x" arbitrary: x g)
  case Nil
  then show ?case using client_turn_fields [OF Nil(2)] by (cases x) (simp add: Csession_write_turn_def)
next
  case (Cons p q)
  let ?y = "x\<lparr>cs_send_que := q, cs_writer := Writing p, cs_written := cs_written x @ [p]\<rparr>"
  have que: "cs_send_que x = p # q" using Cons(2) by simp
  have y: "um_find (gt_objs (client_turn u g)) u = Some ?y" "gt_shards (client_turn u g) = gt_shards g"
    using client_turn_fields [OF Cons(3)] Cons(4,5) by (simp_all add: Csession_write_turn_def que)
  have "(client_turn u ^^ Suc (length (cs_send_que x))) g = (client_turn u ^^ Suc (length (cs_send_que ?y))) (client_turn u g)"
    by (simp add: que funpow_swap1)
  then show ?case using Cons(1) [OF _ y(1)] Cons(5) y(2) que by simp
qed

lemma flush_client_outcome:
  assumes "um_find (gt_objs g) u = Some (fold Csession_SendData packets x)" and "client_rests x"
    and "packets \<noteq> []" and "length packets \<le> kMaxSendQueueDepth"
  shows "um_find (gt_objs (flush_client u g)) u = Some (client_got packets x)" "gt_shards (flush_client u g) = gt_shards g"
    "client_bytes u g (flush_client u g) = concat (map sn_data packets)"
proof -
  let ?y = "x\<lparr>cs_send_que := packets, cs_accepted := cs_accepted x @ packets, cs_is_writing := True, cs_writer := Spawned\<rparr>"
  have y: "um_find (gt_objs g) u = Some ?y" using assms(1) fold_SendData [OF assms(2-4)] by simp
  have "flush_client u g = (client_turn u ^^ Suc (length (cs_send_que ?y))) g" by (simp add: flush_client_def y)
  then have f: "um_find (gt_objs (flush_client u g)) u =
      Some (?y\<lparr>cs_send_que := [], cs_written := cs_written ?y @ cs_send_que ?y, cs_is_writing := False, cs_writer := NoWriter\<rparr>) \<and>
      gt_shards (flush_client u g) = gt_shards g"
    using client_turns [OF y] assms(2) by (simp add: client_rests_def del: funpow.simps)
  moreover have "?y\<lparr>cs_send_que := [], cs_written := cs_written ?y @ cs_send_que ?y, cs_is_writing := False, cs_writer := NoWriter\<rparr> =
      client_got packets x"
    using assms(2) by (cases x) (simp add: client_got_def client_rests_def)
  ultimately show got: "um_find (gt_objs (flush_client u g)) u = Some (client_got packets x)"
    and "gt_shards (flush_client u g) = gt_shards g" by simp_all
  show "client_bytes u g (flush_client u g) = concat (map sn_data packets)"
    by (simp add: client_bytes_def y got) (simp add: client_got_def)
qed

lemma um_find_sends:
  "um_find (gt_objs (fold (send_data u) packets g)) u = map_option (fold Csession_SendData packets) (um_find (gt_objs g) u)"
  "gt_shards (fold (send_data u) packets g) = gt_shards g"
  by (induction packets arbitrary: g)
     (auto simp: um_find_send_data option.map_comp comp_def option.map_id, auto simp: send_data_def option.map_comp comp_def)

lemma run_sends: "gate_run e g \<Longrightarrow> gate_run e (fold (send_data u) packets g)"
  by (rule fold_invariant [where P = "gate_run e"]) (simp_all add: run_send_data)

text \<open>What the game server sends to a player over a connection ends, in order, in the client's hands.\<close>

lemma answers_reach_client:
  fixes now :: u64
  assumes rest: "gate_rests e u k uid pool g" and uid: "uid \<noteq> 0" and p: "p < GAMESERVER_CONN_CNT" "IsConnAvailable (cp_sessions pool ! p)"
    and nodes: "list_all2 (carries_to (gv_codec e) uid) (ClientSession_read bytes) packets" "packets \<noteq> []"
      "length packets \<le> kMaxSendQueueDepth"
  defines "g1 \<equiv> backend_read e (uint now) k p bytes g"
  shows "\<exists>pool'. gate_rests e u k uid pool' (flush_client u g1) \<and> client_bytes u g1 (flush_client u g1) = concat (map sn_data packets) \<and>
    (\<forall>p' < GAMESERVER_CONN_CNT. IsConnAvailable (cp_sessions pool' ! p') \<longrightarrow> IsConnAvailable (cp_sessions pool ! p'))"
proof -
  note r = gate_restsD [OF rest]
  obtain b where b: "cp_sessions pool ! p = Some b" "conn_rests b"
    using p r(4) by (auto simp: pool_rests_def IsConnAvailable_def split: option.splits)
  obtain x where x: "um_find (gt_objs g) u = Some x" "cs_shard x = k" "cs_uid x = uid" "client_rests x" using r(5) by blast
  have len: "p < length (cp_sessions pool)" using p(1) r(4) by (simp add: pool_rests_def pool_ok_def)
  define pool' where "pool' = put_conn p (b\<lparr>bc_last_recv_time := uint now\<rparr>) pool"
  have "ClientSession_read bytes \<noteq> []" using nodes(1,2) by auto
  then have g1: "g1 = fold (send_data u) packets (set_pool k pool' g)"
    unfolding g1_def backend_read_def pool'_def
    by (rule backend_packets_deliver [OF r(1,2) r(6) [OF uid] r(3) len b(1) nodes(1)])
  have "um_find (gt_objs g1) u = Some (fold Csession_SendData packets x)" by (simp add: g1 um_find_sends x(1))
  note f = flush_client_outcome [OF this x(4) nodes(2,3)]
  have "conn_rests (b\<lparr>bc_last_recv_time := uint now\<rparr>)" using b(2) by (simp add: conn_rests_def)
  then have pool': "pool_rests pool'"
    using pool_rests_put [OF r(4) _ p(1), where rr = "cp_rr_idx pool"] by (simp add: pool'_def)
  have "ws_ConnPool (gt_shards g1 ! k) = Some pool'"
    using has_poolD [OF r(3)] by (simp add: g1 um_find_sends set_pool_def)
  moreover have "gate_run e (flush_client u g1)"
    unfolding g1 by (intro run_flush_client run_sends run_set_pool r(1))
  ultimately have "gate_rests e u k uid pool' (flush_client u g1)"
    using f(1,2) x(2,3) client_got_rests [OF x(4)] pool' by (simp add: gate_rests_def) (simp add: client_got_def)
  moreover have "IsConnAvailable (cp_sessions pool ! p')" if "IsConnAvailable (cp_sessions pool' ! p')" for p'
    using that p(2) by (cases "p' = p") (simp_all add: pool'_def put_conn_def)
  ultimately show ?thesis using f(3) by auto
qed

subsection \<open>Logging in\<close>

lemma BindUid_fields:
  assumes x: "um_find (gt_objs g) u = Some x" and uid: "uid \<noteq> 0" and k: "cs_shard x < length (gt_shards g)"
  shows "gt_objs (BindUid e u uid g) = um_adjust u (\<lambda>s. s\<lparr>cs_uid := uid\<rparr>) (gt_objs g)"
    "ws_ConnPool (gt_shards (BindUid e u uid g) ! cs_shard x) = ws_ConnPool (gt_shards g ! cs_shard x)"
  using assms by (simp_all add: BindUid_def Let_def on_session_def on_shard_def) (simp_all add: add_uid_def delete_uid_def)

lemma no_busy_conn:
  assumes "pool_rests pool" and "ws_ConnPool (gt_shards g ! k) = Some pool"
  shows "busy_conn k g = None"
  using assms
  by (auto simp: busy_conn_def find_None_iff conn_def pool_rests_def pool_ok_def conn_rests_def split: option.split)

lemma login_answered:
  fixes now :: u64
  assumes rest: "gate_rests e u k old pool g" and body: "length body \<le> kMaxPacketBodyLen" "gc_login (gv_codec e) body = Some (account, token)"
    and uid: "uid = MakeLoginUid (gv_hash e) u account token" "\<forall>v j. v \<noteq> u \<longrightarrow> who g v \<noteq> Some (uid, j)"
    and payload: "gc_serialize (gv_codec e) (LoginRspMsg ERROR_NONE uid []) = Some payload" "length payload \<le> kMaxPacketBodyLen"
  defines "g1 \<equiv> gate_ingress e now u (wire (LoginReq, kPacketFlagNone, body)) g"
  shows "busy_conn k g1 = None" "gate_rests e u k uid pool (flush_client u g1)"
    "client_bytes u g1 (flush_client u g1) = wire (LoginRsp, kPacketFlagNone, payload)"
    "\<exists>x. um_find (gt_objs g1) u = Some x \<and> cs_shard x = k"
proof -
  note r = gate_restsD [OF rest]
  obtain x where x: "um_find (gt_objs g) u = Some x" "cs_shard x = k" "client_rests x" using r(5) by blast
  have nz: "uid \<noteq> 0" unfolding uid(1) by (rule MakeLoginUid_nonzero)
  note bind = BindUid_fields [OF x(1) nz, where e = e, unfolded x(2), OF has_poolD [OF r(3)]]
  define packet where "packet = SendNode_new payload LoginRsp kPacketFlagNone"
  let ?x = "x\<lparr>cs_uid := uid\<rparr>"
  have g1: "g1 = send_data u packet (BindUid e u uid g)"
    using ingress_one [of LoginReq body e now u g] body payload
    by (simp add: g1_def ClientIngress_HandleMsg_def HandleLoginReq_def ParseProtoFromBytes_small uid(1) [symmetric] reply_def
        SendToClient_def BuildPacket_small packet_def)
  have pool: "ws_ConnPool (gt_shards g1 ! k) = Some pool"
    using bind(2) r(3) by (simp add: g1 send_data_def has_pool_def)
  show "busy_conn k g1 = None" by (rule no_busy_conn [OF r(4) pool])
  have session: "um_find (gt_objs g1) u = Some (fold Csession_SendData [packet] ?x)"
    by (simp add: g1 um_find_send_data bind(1) x(1))
  have "who g1 v = (if v = u then Some (uid, k) else who g v)" for v
    using x by (simp add: g1 who_send_data) (simp add: who_def bind(1))
  then have "unique_uids g1"
    using gate_run_inv [OF r(1)] uid(2) unfolding unique_uids_def by (metis option.inject prod.inject)
  moreover have "gate_step e g g1"
    using ingress_one [of LoginReq body e now u g] body(1) gate_packet [of e g now LoginReq u body] by (simp add: g1_def)
  ultimately have run: "gate_run e g1" using gate_run_step [OF r(1)] by blast
  have "client_rests ?x" "[packet] \<noteq> []" "length [packet] \<le> kMaxSendQueueDepth"
    using x(3) by (simp_all add: client_rests_def kMaxSendQueueDepth_def)
  note f = flush_client_outcome [OF session this]
  show "gate_rests e u k uid pool (flush_client u g1)"
    using f(1,2) x(2) client_got_rests [of ?x] x(3) pool r(4) run_flush_client [OF run]
    by (simp add: gate_rests_def client_rests_def) (simp add: client_got_def)
  show "client_bytes u g1 (flush_client u g1) = wire (LoginRsp, kPacketFlagNone, payload)"
    using f(3) by (simp add: packet_def wire_def)
  show "\<exists>x. um_find (gt_objs g1) u = Some x \<and> cs_shard x = k"
    using session x(2) SendData_identity by simp
qed

end
