(* ===== verification/ClientGame.thy ===== *)
theory ClientGame
  imports LoneGame GateExchange
begin

text \<open>
  A client of the end-to-end load generator, the gate and the game server together. \<open>play_round\<close> is one round
  trip: the client's queue is written, the gate reads it, what is for the game server goes over the
  connection the pool chose and the link at its other end through the server and back, the gate's session
  writes what was queued for the client, and the client handles it.
\<close>

subsection \<open>Round trips\<close>

type_synonym world = "Client \<times> Gate \<times> GameServer"

definition client_hears :: "tool_codec \<Rightarrow> bool \<Rightarrow> u64 \<Rightarrow> byte list \<Rightarrow> Client \<Rightarrow> Client" where
  "client_hears tc going now bytes c = fold (\<lambda>(i, body). OnMessage tc going now i body) (e2e_read bytes) c"

definition session_shard :: "string \<Rightarrow> Gate \<Rightarrow> nat" where
  "session_shard u g = (case um_find (gt_objs g) u of None \<Rightarrow> 0 | Some x \<Rightarrow> cs_shard x)"

text \<open>\<open>line p\<close> is the network shard and the slot of the link at the other end of connection \<open>p\<close>.\<close>

definition through_server ::
  "env \<Rightarrow> gate_env \<Rightarrow> (nat \<Rightarrow> nat \<times> nat) \<Rightarrow> u64 \<Rightarrow> nat \<Rightarrow> Gate \<Rightarrow> GameServer \<Rightarrow> Gate \<times> GameServer" where
  "through_server e ge line now k g s =
     (case busy_conn k g of
        None \<Rightarrow> (g, s)
      | Some p \<Rightarrow>
          (let (j, i) = line p;
               g1 = flush_conn k p g;
               s1 = serve e now j i (conn_bytes k p g g1) s
           in (backend_read ge (uint now) k p (written_bytes j i s s1) g1, s1)))"

definition play_round :: "env \<Rightarrow> gate_env \<Rightarrow> tool_codec \<Rightarrow> (nat \<Rightarrow> nat \<times> nat) \<Rightarrow> string \<Rightarrow> u64 \<Rightarrow> world \<Rightarrow> world" where
  "play_round e ge tc line u now w =
     (let (c, g, s) = w;
          g1 = gate_ingress ge now u (concat (cl_outq c)) g;
          (g2, s') = through_server e ge line now (session_shard u g1) g1 s;
          g3 = flush_client u g2
      in (client_hears tc True now (client_bytes u g2 g3) ((on_written True ^^ length (cl_outq c)) c), g3, s'))"

lemma play_round_eq:
  assumes "cl_outq c = [packet]" and "gate_ingress ge now u packet g = g1"
    and "through_server e ge line now (session_shard u g1) g1 s = (g2, s')"
    and "e2e_read (client_bytes u g2 (flush_client u g2)) = ms"
  shows "play_round e ge tc line u now (c, g, s) =
    (fold (\<lambda>(i, body). OnMessage tc True now i body) ms (on_written True c), flush_client u g2, s')"
  using assms by (simp add: play_round_def client_hears_def Let_def)

subsection \<open>Assumptions on the generated code\<close>

text \<open>Beyond what C15 needs: the gate parses the replies of the game server and the server the envelopes of
  the gate, the route hint of a request to be ready is its room, and small messages are serialised.\<close>

definition play_codecs :: "tool_codec \<Rightarrow> gate_codec \<Rightarrow> codec \<Rightarrow> bool" where
  "play_codecs tc gc c \<longleftrightarrow> small_messages tc c \<and> tool_codec_ok tc c \<and> envelope_roundtrip gc c \<and> reply_roundtrip c gc \<and>
     (\<forall>r. cd_route_hint c (tc_player_ready tc r True) = Some r) \<and>
     (\<forall>env. length (ge_payload env) \<le> 64 \<longrightarrow>
        (\<exists>bytes. gc_serialize gc (GateToGameMsg env) = Some bytes \<and> length bytes \<le> kMaxPacketBodyLen)) \<and>
     (\<forall>uid. \<exists>bytes. gc_serialize gc (LoginRspMsg ERROR_NONE uid []) = Some bytes \<and> length bytes \<le> kMaxPacketBodyLen)"

subsection \<open>Wires\<close>

text \<open>Every connection that is up ends in an open link with nothing to send.\<close>

definition wired :: "(nat \<Rightarrow> nat \<times> nat) \<Rightarrow> GameServerConnPool \<Rightarrow> GameServer \<Rightarrow> bool" where
  "wired line pool s \<longleftrightarrow> (\<forall>p < GAMESERVER_CONN_CNT. IsConnAvailable (cp_sessions pool ! p) \<longrightarrow>
     fst (line p) < 2 ^ 32 \<and> (\<exists>x. connected (fst (line p)) (snd (line p)) x s \<and> resting x))"

lemma wired_mono:
  assumes "wired line pool s" and "links_kept s s'"
    and "\<And>p. p < GAMESERVER_CONN_CNT \<Longrightarrow> IsConnAvailable (cp_sessions pool' ! p) \<Longrightarrow> IsConnAvailable (cp_sessions pool ! p)"
  shows "wired line pool' s'"
  using assms unfolding wired_def links_kept_def by metis

definition server_rests :: "env \<Rightarrow> GameServer \<Rightarrow> bool" where
  "server_rests e s \<longleftrightarrow> server_reachable e s \<and> quiet s \<and> \<not> gs_stopping s"

lemma at_rest_server: "at_rest e j i x s \<longleftrightarrow> server_rests e s \<and> connected j i x s \<and> resting x"
  by (auto simp: at_rest_def server_rests_def)

text \<open>What the client reads of a list of answers.\<close>

definition heard :: "env \<Rightarrow> (MsgId \<times> ServerMsg) list \<Rightarrow> (u16 \<times> byte list) list" where
  "heard e ms = map (\<lambda>(i, m). (i, the (cd_serialize (e_codec e) m))) ms"

definition answer_nodes :: "env \<Rightarrow> (MsgId \<times> ServerMsg) list \<Rightarrow> SendNode list" where
  "answer_nodes e ms = map (\<lambda>(i, m). SendNode_new (the (cd_serialize (e_codec e) m)) i kPacketFlagNone) ms"

lemma lone_payload:
  assumes "small_messages tc (e_codec e)" and "lone_msg m"
  shows "length (the (cd_serialize (e_codec e) m)) \<le> 8192"
  using assms unfolding small_messages_def by fastforce

lemma answers_carried:
  assumes codec: "play_codecs tc (gv_codec ge) (e_codec e)" and ms: "\<forall>(i, m) \<in> set ms. lone_msg m"
  shows "list_all2 (carries_to (gv_codec ge) uid) (ClientSession_read (concat (map wire (answer_wires e uid ms)))) (answer_nodes e ms)"
proof -
  have c: "small_messages tc (e_codec e)" "tool_codec_ok tc (e_codec e)" "reply_roundtrip (e_codec e) (gv_codec ge)"
    using codec by (simp_all add: play_codecs_def)
  have read: "ClientSession_read (concat (map wire (answer_wires e uid ms))) =
      map (\<lambda>(i, m). \<lparr>rn_msg_id = GameToGateEnvelope, rn_flags = kPacketFlagNone, rn_data = answer_packet e uid i m 0\<rparr>) ms"
    using server_reader.reads_all [OF answers_framed [OF c(1,2) ms, of uid]]
    by (simp add: ClientSession_read_eq received_def answer_wires_def comp_def split_beta)
  have "carries_to (gv_codec ge) uid \<lparr>rn_msg_id = GameToGateEnvelope, rn_flags = kPacketFlagNone, rn_data = answer_packet e uid i m 0\<rparr>
      (SendNode_new (the (cd_serialize (e_codec e) m)) i kPacketFlagNone)" if lone: "lone_msg m" for i m
  proof -
    obtain bytes where b: "cd_serialize (e_codec e) (GameToGateMsg [uid] i 0 (the (cd_serialize (e_codec e) m))) = Some bytes"
      using c(1) lone_payload [OF c(1) lone] unfolding small_messages_def by blast
    then have "gc_game_to_gate (gv_codec ge) bytes =
        Some \<lparr>gg_target_uids = [uid], gg_inner_msg_id = ucast i, gg_payload = the (cd_serialize (e_codec e) m)\<rparr>"
      using c(3) by (simp add: reply_roundtrip_def)
    moreover have "length (answer_packet e uid i m 0) \<le> kMaxPacketBodyLen" by (rule answer_wrapped(2) [OF c(1,2) lone])
    ultimately show ?thesis
      using lone_payload [OF c(1) lone] b by (auto simp: carries_to_def answer_packet_def ParseProtoFromBytes_small)
  qed
  then show ?thesis
    using ms unfolding read answer_nodes_def by (auto simp: list_all2_map1 list_all2_map2 list_all2_same split_beta)
qed

lemma client_reads_answers:
  assumes codec: "small_messages tc (e_codec e)" and ms: "\<forall>(i, m) \<in> set ms. lone_msg m"
  shows "e2e_read (concat (map sn_data (answer_nodes e ms))) = heard e ms"
proof -
  let ?ws = "map (\<lambda>(i, m). (i, kPacketFlagNone, the (cd_serialize (e_codec e) m))) ms"
  have "list_all framed ?ws"
    using ms lone_payload [OF codec] by (fastforce simp: list_all_iff framed_def)
  then have "e2e_read (concat (map wire ?ws)) = map unflagged ?ws" by (rule e2e_reader.reads_all)
  moreover have "map wire ?ws = map sn_data (answer_nodes e ms)"
    by (simp add: answer_nodes_def wire_def split_beta)
  ultimately show ?thesis by (simp add: heard_def unflagged_def comp_def split_beta)
qed

subsection \<open>A request through gate and server\<close>

text \<open>What the gate makes of a request of its client.\<close>

definition gate_request :: "gate_env \<Rightarrow> string \<Rightarrow> u64 \<Rightarrow> MsgId \<Rightarrow> byte list \<Rightarrow> Envelope" where
  "gate_request ge u uid i body = gate_envelope uid (get_session_id (gv_hash ge) u) i body"

definition request_body :: "gate_env \<Rightarrow> string \<Rightarrow> u64 \<Rightarrow> MsgId \<Rightarrow> byte list \<Rightarrow> byte list" where
  "request_body ge u uid i body = the (gc_serialize (gv_codec ge) (GateToGameMsg (gate_request ge u uid i body)))"

lemma request_by_gate:
  assumes "play_codecs tc (gv_codec ge) c" and "length body \<le> 64"
  shows "gc_serialize (gv_codec ge) (GateToGameMsg (gate_request ge u uid i body)) = Some (request_body ge u uid i body)"
    and "request c uid i (request_body ge u uid i body) (gate_request ge u uid i body)"
proof -
  let ?env = "gate_request ge u uid i body"
  have "length (ge_payload ?env) \<le> 64" using assms(2) by (simp add: gate_request_def gate_envelope_def)
  then obtain bytes where b: "gc_serialize (gv_codec ge) (GateToGameMsg ?env) = Some bytes" "length bytes \<le> kMaxPacketBodyLen"
    using assms(1) unfolding play_codecs_def by blast
  moreover have "cd_envelope c bytes = Some ?env"
    using assms(1) b(1) by (simp add: play_codecs_def envelope_roundtrip_def)
  ultimately show "gc_serialize (gv_codec ge) (GateToGameMsg ?env) = Some (request_body ge u uid i body)"
      "request c uid i (request_body ge u uid i body) ?env"
    using assms(2)
    by (simp_all add: request_body_def request_def) (simp_all add: gate_request_def gate_envelope_def kMaxPacketBodyLen_def)
qed

text \<open>The server answers the bytes on a link with some messages to \<open>uid\<close>, and \<open>Q\<close> holds of them and its new state.\<close>

definition answers :: "env \<Rightarrow> u64 \<Rightarrow> u64 \<Rightarrow> nat \<times> nat \<Rightarrow> byte list \<Rightarrow> GameServer \<Rightarrow>
    ((MsgId \<times> ServerMsg) list \<Rightarrow> GameServer \<Rightarrow> bool) \<Rightarrow> bool" where
  "answers e uid now link bytes s Q \<longleftrightarrow>
     (\<exists>ms s'. serve e now (fst link) (snd link) bytes s = s' \<and> Q ms s' \<and> links_kept s s' \<and>
        written_bytes (fst link) (snd link) s s' = concat (map wire (answer_wires e uid ms)) \<and>
        ms \<noteq> [] \<and> length ms \<le> kMaxSendQueueDepth \<and> (\<forall>(i, m) \<in> set ms. lone_msg m))"

lemma round_trip:
  fixes now :: u64
  assumes codec: "play_codecs tc (gv_codec ge) (e_codec e)" and rest: "gate_rests ge u k uid pool g" and uid: "uid \<noteq> 0"
    and i: "i \<in> set client_forwards" "length body \<le> 64" and wired: "wired line pool s"
    and server: "\<And>p. p < GAMESERVER_CONN_CNT \<Longrightarrow> IsConnAvailable (cp_sessions pool ! p) \<Longrightarrow>
      answers e uid now (line p) (Frame GateToGameEnvelope (request_body ge u uid i body)) s Q"
    and client: "e2e_ok c" "cl_outq c = [Frame i body]"
  shows "\<exists>g' s' pool' ms. play_round e ge tc line u now (c, g, s) =
      (fold (\<lambda>(i, body). OnMessage tc True now i body) (heard e ms) (on_written True c), g', s') \<and>
    gate_rests ge u k uid pool' g' \<and> wired line pool' s' \<and> Q ms s'"
proof -
  define req where "req = request_body ge u uid i body"
  define g1 where "g1 = gate_ingress ge now u (wire (i, kPacketFlagNone, body)) g"
  have small: "length body \<le> kMaxPacketBodyLen" "length body < 2 ^ 32" using i(2) by (simp_all add: kMaxPacketBodyLen_def)
  note r = request_by_gate [OF codec i(2), where u = u and uid = uid and i = i, folded req_def]
  have len: "length req \<le> kMaxPacketBodyLen" "length req < 2 ^ 32" using r(2) by (simp_all add: request_def kMaxPacketBodyLen_def)
  obtain p pool1 where p: "p < GAMESERVER_CONN_CNT" "IsConnAvailable (cp_sessions pool ! p)" "busy_conn k g1 = Some p"
      "gate_rests ge u k uid pool1 (flush_conn k p g1)"
      "conn_bytes k p g1 (flush_conn k p g1) = wire (GateToGameEnvelope, kPacketFlagNone, req)"
      "\<forall>p < GAMESERVER_CONN_CNT. IsConnAvailable (cp_sessions pool1 ! p) = IsConnAvailable (cp_sessions pool ! p)"
      "gt_objs g1 = gt_objs g"
    using request_sent [OF rest uid i(1) small(1) r(1) [unfolded gate_request_def] len(1), where now = now, folded g1_def] by blast
  obtain j l where jl: "line p = (j, l)" by fastforce
  obtain ms s' where serve: "serve e now j l (Frame GateToGameEnvelope req) s = s'" and s': "Q ms s'" "links_kept s s'"
      "written_bytes j l s s' = concat (map wire (answer_wires e uid ms))"
    and ms: "ms \<noteq> []" "length ms \<le> kMaxSendQueueDepth" "\<forall>(i, m) \<in> set ms. lone_msg m"
    using server [OF p(1,2), folded req_def] jl by (auto simp: answers_def)
  define g2 where "g2 = backend_read ge (uint now) k p (written_bytes j l s s') (flush_conn k p g1)"
  have nodes: "list_all2 (carries_to (gv_codec ge) uid) (ClientSession_read (written_bytes j l s s')) (answer_nodes e ms)"
    unfolding s'(3) by (rule answers_carried [OF codec ms(3)])
  have "answer_nodes e ms \<noteq> []" "length (answer_nodes e ms) \<le> kMaxSendQueueDepth" using ms(1,2) by (simp_all add: answer_nodes_def)
  note returned = answers_reach_client [OF p(4) uid p(1) _ nodes this, where now = now, folded g2_def]
  have "IsConnAvailable (cp_sessions pool1 ! p)" using p by blast
  then obtain pool2 where pool2: "gate_rests ge u k uid pool2 (flush_client u g2)"
      "client_bytes u g2 (flush_client u g2) = concat (map sn_data (answer_nodes e ms))"
      "\<forall>p' < GAMESERVER_CONN_CNT. IsConnAvailable (cp_sessions pool2 ! p') \<longrightarrow> IsConnAvailable (cp_sessions pool1 ! p')"
    using returned by blast
  have "session_shard u g1 = k"
    using gate_restsD(5) [OF rest] p(7) by (auto simp: session_shard_def)
  then have through: "through_server e ge line now (session_shard u g1) g1 s = (g2, s')"
    using p(3,5) jl Frame_wire [OF len(2), of GateToGameEnvelope]
    by (simp add: through_server_def g2_def serve [symmetric] Let_def del: kPacketFlagNone_def)
  have "small_messages tc (e_codec e)" using codec by (simp add: play_codecs_def)
  then have read: "e2e_read (client_bytes u g2 (flush_client u g2)) = heard e ms"
    unfolding pool2(2) using ms(3) by (rule client_reads_answers)
  have "gate_ingress ge now u (Frame i body) g = g1" using Frame_wire [OF small(2), of i] by (simp add: g1_def)
  note play_round_eq [OF client(2) this through read, where tc = tc]
  moreover have "wired line pool2 s'"
    using p(6) pool2(3) by (intro wired_mono [OF wired s'(2)]) blast
  ultimately show ?thesis using pool2(1) s'(1) by blast
qed

subsection \<open>Logging in\<close>

lemma login_trip:
  fixes now :: u64
  assumes rest: "gate_rests ge u k old pool g" and codec: "play_codecs tc (gv_codec ge) c"
    and body: "length body \<le> kMaxPacketBodyLen" "gc_login (gv_codec ge) body = Some (account, token)"
    and uid: "uid = MakeLoginUid (gv_hash ge) u account token" "\<forall>v j. v \<noteq> u \<longrightarrow> who g v \<noteq> Some (uid, j)"
    and client: "e2e_ok cl" "cl_outq cl = [Frame LoginReq body]"
  shows "\<exists>g' payload. play_round e ge tc line u now (cl, g, s) = (OnMessage tc True now LoginRsp payload (on_written True cl), g', s) \<and>
    gate_rests ge u k uid pool g'"
proof -
  obtain payload where payload: "gc_serialize (gv_codec ge) (LoginRspMsg ERROR_NONE uid []) = Some payload"
      "length payload \<le> kMaxPacketBodyLen"
    using codec unfolding play_codecs_def by blast
  define g1 where "g1 = gate_ingress ge now u (wire (LoginReq, kPacketFlagNone, body)) g"
  note l = login_answered [OF rest body uid payload, where now = now, folded g1_def]
  have small: "length body < 2 ^ 32" "length payload < 2 ^ 32" using body(1) payload(2) by (simp_all add: kMaxPacketBodyLen_def)
  have shard: "session_shard u g1 = k" using l(4) by (auto simp: session_shard_def)
  have "e2e_read (wire (LoginRsp, kPacketFlagNone, payload)) = [(LoginRsp, payload)]"
    using e2e_read_wire [OF small(2), of LoginRsp kPacketFlagNone "[]"] by (simp add: e2e_read_Nil)
  then have read: "e2e_read (client_bytes u g1 (flush_client u g1)) = [(LoginRsp, payload)]" by (simp only: l(3))
  have "gate_ingress ge now u (Frame LoginReq body) g = g1" using Frame_wire [OF small(1), of LoginReq] by (simp add: g1_def)
  moreover have "through_server e ge line now (session_shard u g1) g1 s = (g1, s)" by (simp add: through_server_def shard l(1))
  ultimately have "play_round e ge tc line u now (cl, g, s) =
      (fold (\<lambda>(i, body). OnMessage tc True now i body) [(LoginRsp, payload)] (on_written True cl), flush_client u g1, s)"
    by (rule play_round_eq [OF client(2) _ _ read])
  then show ?thesis using l(2) by auto
qed

subsection \<open>The client\<close>

lemma started_client:
  "e2e_ok (Client_Start tc now (Client_new idx))"
  "cl_outq (Client_Start tc now (Client_new idx)) = [Frame LoginReq (tc_login tc (''p'' @ to_string (unat idx)) ''t'')]"
  by (simp_all add: Client_Start_def Client_new_def Client_Send_def Client_DoWrite_def e2e_ok_def e2e_Frame_eq Let_def)

lemma written_one:
  assumes "cl_outq c = [packet]"
  shows "on_written True c = c\<lparr>cl_outq := [], cl_written := cl_written c @ [packet], cl_writing := False\<rparr>"
  using assms by (simp add: on_written_def Let_def)

lemma hears_login:
  fixes now :: u64 and payload :: "byte list" and tc :: tool_codec
  assumes "cl_outq c = [packet]"
  defines "c' \<equiv> OnMessage tc True now LoginRsp payload (on_written True c)"
  shows "e2e_ok c'" "cl_outq c' = [Frame CreateRoomReq (tc_create_room tc 1)]" "cl_phase c' = 1"
  using assms by (simp_all add: written_one OnMessage_def Client_Send_def Client_DoWrite_def e2e_ok_def e2e_Frame_eq Let_def)

lemma hears_created:
  fixes e :: env and now uid :: u64
  assumes "cl_outq c = [packet]" and "tc_create_rsp tc (the (cd_serialize (e_codec e) (created_msg room_id))) = Some room_id"
    and "room_id \<noteq> 0"
  defines "c' \<equiv> fold (\<lambda>(i, body). OnMessage tc True now i body) (heard e (create_answers uid room_id)) (on_written True c)"
  shows "e2e_ok c'" "cl_outq c' = [Frame PlayerReadyReq (tc_player_ready tc room_id True)]" "cl_phase c' = cl_phase c" "cl_room_id c' = room_id"
  using assms
  by (simp_all add: heard_def create_answers_def written_one OnMessage_def Client_Send_def Client_DoWrite_def e2e_ok_def e2e_Frame_eq Let_def)

lemma hears_started:
  fixes now :: u64
  assumes "cl_outq c = [packet]" and "cl_phase c = 1" and "sv_units view \<noteq> []"
    and "tc_snapshot tc (the (cd_serialize (e_codec e) (snapshot_msg (e_ord e) (lone_world e room_id uid)))) = Some view"
  defines "c' \<equiv> fold (\<lambda>(i, body). OnMessage tc True now i body) (heard e (ready_answers e uid room_id)) (on_written True c)"
  shows "cl_phase c' = 2" "cl_room_id c' = cl_room_id c" "cl_units c' = sv_units view" "cl_timers c' = cl_timers c + 1" "cl_outq c' = []"
  using assms
  by (simp_all add: heard_def ready_answers_def written_one OnMessage_def client_tick_def ArmMove_def Let_def)

subsection \<open>The server's part\<close>

text \<open>A room for the player, on the shard whose turn it is.\<close>

definition room_made :: "env \<Rightarrow> u64 \<Rightarrow> (MsgId \<times> ServerMsg) list \<Rightarrow> GameServer \<Rightarrow> bool" where
  "room_made e uid ms s \<longleftrightarrow> server_rests e s \<and>
     (\<exists>k room_id. k < length (gs_logic_shards s) \<and> room_id \<noteq> 0 \<and> ms = create_answers uid room_id \<and>
        id_space_left (gs_logic_shards s ! k) \<and>
        um_find (ls_rooms (gs_logic_shards s ! k)) room_id = Some (lone_room room_id uid False))"

lemma create_answered:
  assumes e: "orders_ok e" and codec: "play_codecs tc (gv_codec ge) (e_codec e)" and uid: "uid \<noteq> 0"
    and s: "server_rests e s" "gs_logic_shards s \<noteq> []"
    and link: "fst link < 2 ^ 32" "connected (fst link) (snd link) x s" "resting x"
    and shards: "\<forall>l \<in> set (gs_logic_shards s). um_find (ls_uid_to_room l) uid = None \<and>
      unat (ls_shard_id l) + unat (ls_shard_count l) * (unat (ls_next_room_id l) + 2) < 2 ^ 64"
  shows "answers e uid now link (Frame GateToGameEnvelope (request_body ge u uid CreateRoomReq (tc_create_room tc 1))) s (room_made e uid)"
proof -
  obtain j i where ji: "link = (j, i)" by fastforce
  have c: "small_messages tc (e_codec e)" "tool_codec_ok tc (e_codec e)" using codec by (simp_all add: play_codecs_def)
  have small: "length (tc_create_room tc 1) \<le> 64" using c(1) by (simp add: small_messages_def)
  note req = request_by_gate(2) [OF codec small, where u = u and uid = uid and i = CreateRoomReq]
  have parse: "cd_create_room (e_codec e) (ge_payload (gate_request ge u uid CreateRoomReq (tc_create_room tc 1))) =
      Some \<lparr>cr_room_name = [], cr_max_players = 1\<rparr>"
    using c(2) by (simp add: tool_codec_ok_def gate_request_def gate_envelope_def)
  have rest: "at_rest e j i x s" using s(1) link ji by (simp add: at_rest_server)
  define k l where "k = next_home j s" and "l = gs_logic_shards s ! k"
  have k: "k < length (gs_logic_shards s)" using next_home_less [OF s(2)] by (simp add: k_def)
  then have l: "um_find (ls_uid_to_room l) uid = None"
      "unat (ls_shard_id l) + unat (ls_shard_count l) * (unat (ls_next_room_id l) + 2) < 2 ^ 64"
    using shards by (simp_all add: l_def)
  have ids: "room_ids_ok l" using at_restD(1) [OF rest e] k by (simp add: server_ok_def l_def)
  note fresh = next_room [OF ids l(2)]
  have j: "j < 2 ^ 32" using link(1) ji by simp
  note x = create_round [OF e c rest j uid s(2) req parse k_def l_def l(1) fresh(1), where now = now]
  obtain l1 where l1: "gs_logic_shards (exchange e now j i k (Frame GateToGameEnvelope
      (request_body ge u uid CreateRoomReq (tc_create_room tc 1))) s) = (gs_logic_shards s)[k := l1]" "id_space_left l1"
      "um_find (ls_rooms l1) (new_room_id l) = Some (lone_room (new_room_id l) uid False)"
    using created_shard [OF x(2) ids l(2) refl] by blast
  have "room_made e uid (create_answers uid (new_room_id l)) (exchange e now j i k (Frame GateToGameEnvelope
      (request_body ge u uid CreateRoomReq (tc_create_room tc 1))) s)"
    using x(1) l1 k fresh(2) by (auto simp: room_made_def at_rest_server intro!: exI [of _ k])
  moreover have "\<forall>(i, m) \<in> set (create_answers uid (new_room_id l)). lone_msg m"
    by (simp add: create_answers_def created_msg_def state_msg_def)
  ultimately show ?thesis
    unfolding answers_def ji fst_conv snd_conv
    using x(3,4,5) by (intro exI conjI) (auto simp: create_answers_def kMaxSendQueueDepth_def)
qed

definition game_started :: "env \<Rightarrow> u64 \<Rightarrow> u64 \<Rightarrow> nat \<Rightarrow> (MsgId \<times> ServerMsg) list \<Rightarrow> GameServer \<Rightarrow> bool" where
  "game_started e uid room_id k ms s \<longleftrightarrow> server_rests e s \<and> k < length (gs_logic_shards s) \<and> ms = ready_answers e uid room_id \<and>
     um_find (ls_rooms (gs_logic_shards s ! k)) room_id = Some (ClearFrameChanges (lone_world e room_id uid))"

lemma ready_answered:
  assumes e: "orders_ok e" and codec: "play_codecs tc (gv_codec ge) (e_codec e)" and uid: "uid \<noteq> 0"
    and s: "server_rests e s" "k < length (gs_logic_shards s)" "id_space_left (gs_logic_shards s ! k)"
      "um_find (ls_rooms (gs_logic_shards s ! k)) room_id = Some (lone_room room_id uid False)" "room_id \<noteq> 0"
    and link: "fst link < 2 ^ 32" "connected (fst link) (snd link) x s" "resting x"
  shows "answers e uid now link (Frame GateToGameEnvelope (request_body ge u uid PlayerReadyReq (tc_player_ready tc room_id True))) s
    (game_started e uid room_id k)"
proof -
  obtain j i where ji: "link = (j, i)" by fastforce
  have c: "small_messages tc (e_codec e)" "tool_codec_ok tc (e_codec e)"
      "cd_route_hint (e_codec e) (tc_player_ready tc room_id True) = Some room_id"
    using codec by (simp_all add: play_codecs_def)
  have it: "iter_ok (e_ord e)" using e by (simp add: orders_ok_def)
  have small: "length (tc_player_ready tc room_id True) \<le> 64" using c(1) by (simp add: small_messages_def)
  let ?env = "gate_request ge u uid PlayerReadyReq (tc_player_ready tc room_id True)"
  note req = request_by_gate(2) [OF codec small, where u = u and uid = uid and i = PlayerReadyReq]
  have parse: "cd_player_ready (e_codec e) (ge_payload ?env) = Some \<lparr>pr_room_id = room_id, pr_ready = True\<rparr>"
    using c(2) by (simp add: tool_codec_ok_def gate_request_def gate_envelope_def)
  have routed: "routed_to (e_codec e) ?env room_id"
    using c(3) body_sizes(4) [OF c(1), of room_id]
    by (simp add: routed_to_def gate_request_def gate_envelope_def ParseProtoFromBytes_small)
  have rest: "at_rest e j i x s" using s(1) link ji by (simp add: at_rest_server)
  have j: "j < 2 ^ 32" using link(1) ji by simp
  note x = ready_round [OF e c(1,2) rest j uid req parse routed s(2) refl s(4,5,3), where now = now]
  have "length (gs_logic_shards (exchange e now j i k (Frame GateToGameEnvelope (request_body ge u uid PlayerReadyReq
      (tc_player_ready tc room_id True))) s)) = length (gs_logic_shards s)"
    using arg_cong [OF x(2), of length] by simp
  then have "game_started e uid room_id k (ready_answers e uid room_id) (exchange e now j i k (Frame GateToGameEnvelope
      (request_body ge u uid PlayerReadyReq (tc_player_ready tc room_id True))) s)"
    using x(1,3) s(2) by (auto simp: game_started_def at_rest_server)
  moreover have "\<forall>(i, m) \<in> set (ready_answers e uid room_id). lone_msg m"
    using snapshot_small [OF it, of room_id uid] by (simp add: ready_answers_def start_msg_def state_msg_def)
  ultimately show ?thesis
    unfolding answers_def ji fst_conv snd_conv
    using x(4,5,6) by (intro exI conjI) (auto simp: ready_answers_def kMaxSendQueueDepth_def)
qed

subsection \<open>The client in its game\<close>

lemma created_parsed:
  fixes e :: env
  assumes "small_messages tc (e_codec e)" and "tool_codec_ok tc (e_codec e)"
  shows "tc_create_rsp tc (the (cd_serialize (e_codec e) (created_msg room_id))) = Some room_id"
proof -
  have "lone_msg (created_msg room_id)" by (simp add: created_msg_def)
  then have "cd_serialize (e_codec e) (created_msg room_id) = Some (the (cd_serialize (e_codec e) (created_msg room_id)))"
    by (rule answer_wrapped(4) [OF assms])
  then show ?thesis using assms(2) unfolding created_msg_def by (simp add: tool_codec_ok_def)
qed

lemma client_in_game:
  fixes now :: u64
  assumes it: "iter_ok (e_ord e)" and codec: "small_messages tc (e_codec e)" "tool_codec_ok tc (e_codec e)"
    and started: "game_started e uid room_id i ms s" and c: "cl_outq c = [packet]" "cl_phase c = 1" "cl_room_id c = room_id"
  defines "c' \<equiv> fold (\<lambda>(i, body). OnMessage tc True now i body) (heard e ms) (on_written True c)"
  shows "cl_phase c' = 2 \<and> cl_timers c' \<noteq> 0 \<and> cl_outq c' = [] \<and>
    (\<exists>room. um_find (ls_rooms (gs_logic_shards s ! i)) (cl_room_id c') = Some room \<and>
       dr_started room \<and> \<not> dr_game_over room \<and> um_keys (dr_players room) = [uid] \<and>
       cl_units c' \<noteq> [] \<and> mset (cl_units c') = mset (um_keys (dr_units room)))"
proof -
  let ?w = "ClearFrameChanges (lone_world e room_id uid)"
  have s: "ms = ready_answers e uid room_id" "um_find (ls_rooms (gs_logic_shards s ! i)) room_id = Some ?w"
    using started by (simp_all add: game_started_def)
  have "mset (sv_units (lone_view e)) = {#2, 3, 4, 5, 6, 7#}" using it by (simp add: lone_view_def iter_ok_def)
  then have view: "mset (sv_units (lone_view e)) = {#2, 3, 4, 5, 6, 7#}" "sv_units (lone_view e) \<noteq> []" by auto
  have "tc_snapshot tc (the (cd_serialize (e_codec e) (snapshot_msg (e_ord e) (lone_world e room_id uid)))) = Some (lone_view e)"
    using lone_snapshot_view [OF it codec(2)] answer_wrapped(4) [OF codec snapshot_small [OF it]] by blast
  note c' = hears_started [OF c(1,2) view(2) this, where now = now, folded s(1), folded c'_def]
  have "dr_started ?w" "\<not> dr_game_over ?w" "um_keys (dr_players ?w) = [uid]" "um_keys (dr_units ?w) = [2, 3, 4, 5, 6, 7]"
    using lone_world_fields [OF it, of room_id uid] lone_world_shape [OF it, of room_id uid]
    by (simp_all add: ClearFrameChanges_def shape_def)
  then show ?thesis using c' c(3) s(2) view by simp
qed

end
