(* ===== verification/PlayTheorems.thy ===== *)
theory PlayTheorems
  imports ClientGame LoadTheorems GateTheorems
begin

text \<open>
  The property of the whole system: a client that connects to the gate ends up in a running game, and its
  instance on concrete codecs, a gate with one connection to the game server and a server at rest.
\<close>

subsection \<open>A concrete system\<close>

definition play_tool :: tool_codec where
  "play_tool = example_tool\<lparr>tc_login := (\<lambda>account token. map of_char (account @ token))\<rparr>"

definition play_gate_codec :: gate_codec where
  "play_gate_codec = example_gate_codec\<lparr>gc_login :=
     (\<lambda>bs. let s = map (char_of \<circ> unat) bs in if s = [] then None else Some (butlast s, [last s]))\<rparr>"

definition play_gate_env :: gate_env where
  "play_gate_env = example_gate_env\<lparr>gv_codec := play_gate_codec\<rparr>"

text \<open>The first connection of the client's shard has come up and written its greeting.\<close>

definition play_conn :: ClientSession where
  "play_conn = ClientSession_write_turn (ClientSession_write_turn (ClientSession_write_turn
     (on_connect play_gate_codec False 0 0 (CreateConn 0 0))))"

definition play_pool :: GameServerConnPool where
  "play_pool = put_conn 0 play_conn (Pool_Init 0 GameServerConnPool_new)"

definition play_gate :: Gate where
  "play_gate = set_pool 0 play_pool example_accepted"

lemma play_codecs_ok: "play_codecs play_tool (gv_codec play_gate_env) (e_codec load_env)"
proof -
  have small: "small_messages play_tool (e_codec load_env)" using load_codec_small by (simp add: small_messages_def play_tool_def)
  have ok: "tool_codec_ok play_tool (e_codec load_env)" using load_codec_ok by (simp add: tool_codec_ok_def play_tool_def)
  have env: "envelope_roundtrip (gv_codec play_gate_env) (e_codec load_env)" "reply_roundtrip (e_codec load_env) (gv_codec play_gate_env)"
    by (auto simp: envelope_roundtrip_def reply_roundtrip_def play_gate_env_def play_gate_codec_def load_env_def load_codec_def
        example_codec_def example_gate_codec_def dec_enc_envelope intro: dec_enc_reply)
  have "\<exists>bytes. gc_serialize (gv_codec play_gate_env) (GateToGameMsg env) = Some bytes \<and> length bytes \<le> kMaxPacketBodyLen"
    if "length (ge_payload env) \<le> 64" for env
    using that by (simp add: play_gate_env_def play_gate_codec_def example_gate_codec_def enc_envelope_def kMaxPacketBodyLen_def)
  then show ?thesis
    using small ok env unfolding play_codecs_def
    by (simp add: play_gate_env_def play_gate_codec_def example_gate_codec_def play_tool_def example_tool_def load_env_def load_codec_def
        example_codec_def kMaxPacketBodyLen_def)
qed

lemma accepted_run: "gate_run e example_accepted"
proof -
  have "unique_uids (Cserver_start 0 ''a'' Gate_new)" "unique_uids example_accepted" by (rule unique_uids_one, code_simp)+
  then show ?thesis using example_accepted_steps by (blast intro: gate_run.intros)
qed

lemma play_pool_fields:
  "pool_ok play_pool" "cp_sessions play_pool ! 0 = Some play_conn" "conn_rests play_conn"
  "list_all (\<lambda>p. \<not> IsConnAvailable (cp_sessions play_pool ! p)) [1..<GAMESERVER_CONN_CNT]"
  by code_simp+

lemma play_pool_up:
  assumes "p < GAMESERVER_CONN_CNT" and "IsConnAvailable (cp_sessions play_pool ! p)"
  shows "p = 0"
proof (rule ccontr)
  assume "p \<noteq> 0"
  then have "p \<in> set [1..<GAMESERVER_CONN_CNT]" using assms(1) by simp
  then show False using play_pool_fields(4) assms(2) by (simp only: list_all_iff)
qed

lemma play_gate_rests: "gate_rests play_gate_env ''a'' 0 0 play_pool play_gate"
proof -
  have up: "\<exists>p < GAMESERVER_CONN_CNT. IsConnAvailable (cp_sessions play_pool ! p)"
    using play_pool_fields(2,3) by (intro exI [of _ 0]) (simp add: conn_rests_def IsConnAvailable_def GAMESERVER_CONN_CNT_def)
  have "conn_rests b" if "p < GAMESERVER_CONN_CNT" "cp_sessions play_pool ! p = Some b" "IsConnAvailable (Some b)" for p b
    using that play_pool_up [OF that(1)] play_pool_fields(2,3) by auto
  then have "pool_rests play_pool" using play_pool_fields(1) up unfolding pool_rests_def by blast
  moreover have "gate_run play_gate_env play_gate" unfolding play_gate_def by (rule run_set_pool [OF accepted_run])
  moreover have "um_find (gt_objs play_gate) ''a'' = Some (Csession_start (Csession_new ''a'' 0))"
      "ws_ConnPool (gt_shards play_gate ! 0) = Some play_pool" by code_simp+
  ultimately show ?thesis
    by (simp add: gate_rests_def client_rests_def Csession_start_def Csession_new_def)
qed

lemma play_gate_strangers: "uid \<noteq> 0 \<Longrightarrow> who play_gate v \<noteq> Some (uid, j)"
proof -
  assume uid: "uid \<noteq> 0"
  have "list_all (\<lambda>(v, x). cs_uid x = 0) (gt_objs play_gate)" by code_simp
  then show ?thesis
    using uid by (auto simp: who_def list_all_iff dest!: um_find_in_set)
qed

subsection \<open>The property\<close>

text \<open>C7: the whole system plays. A client of the end-to-end load generator has just connected: its session at
  the gate and the connections of the session's shard have nothing to send, at least one connection is
  up, each that is up ends in an open link of a game server at rest, and nobody else is logged in under
  the id the client will get. Then three round trips, through whichever connections the pool chooses and
  whichever logic shard is next, log the client in, create its room and start the game: the client knows
  the room's id and exactly its units, has armed its move timer, and its queue is empty; the room runs on
  the server with the client's player in it. Gate and server are in reachable states.\<close>

theorem client_plays:
  fixes e :: env and ge :: gate_env and tc :: tool_codec and t0 t1 t2 t3 :: u64
  assumes e: "orders_ok e" and codec: "play_codecs tc (gv_codec ge) (e_codec e)"
    and login: "account = ''p'' @ to_string (unat idx)" "gc_login (gv_codec ge) (tc_login tc account ''t'') = Some (account, ''t'')"
      "length (tc_login tc account ''t'') \<le> kMaxPacketBodyLen"
    and gate: "gate_rests ge u k 0 pool g"
    and uid: "uid = MakeLoginUid (gv_hash ge) u account ''t''" "\<forall>v j. v \<noteq> u \<longrightarrow> who g v \<noteq> Some (uid, j)"
    and server: "server_rests e s" "gs_logic_shards s \<noteq> []" and wired: "wired line pool s"
    and shards: "\<forall>l \<in> set (gs_logic_shards s). um_find (ls_uid_to_room l) uid = None \<and>
      unat (ls_shard_id l) + unat (ls_shard_count l) * (unat (ls_next_room_id l) + 2) < 2 ^ 64"
    and run: "(c', g', s') = fold (play_round e ge tc line u) [t1, t2, t3] (Client_Start tc t0 (Client_new idx), g, s)"
  shows "gate_run ge g' \<and> logged_in g' u = Some uid \<and> server_reachable e s' \<and> quiet s' \<and>
    cl_phase c' = 2 \<and> cl_timers c' \<noteq> 0 \<and> cl_outq c' = [] \<and>
    (\<exists>i < length (gs_logic_shards s'). \<exists>room. um_find (ls_rooms (gs_logic_shards s' ! i)) (cl_room_id c') = Some room \<and>
       dr_started room \<and> \<not> dr_game_over room \<and> um_keys (dr_players room) = [uid] \<and>
       cl_units c' \<noteq> [] \<and> mset (cl_units c') = mset (um_keys (dr_units room)))"
proof -
  have it: "iter_ok (e_ord e)" using e by (simp add: orders_ok_def)
  have c: "small_messages tc (e_codec e)" "tool_codec_ok tc (e_codec e)" using codec by (simp_all add: play_codecs_def)
  have nz: "uid \<noteq> 0" unfolding uid(1) by (rule MakeLoginUid_nonzero)
  have links: "\<exists>x. fst (line p) < 2 ^ 32 \<and> connected (fst (line p)) (snd (line p)) x s \<and> resting x"
    if "wired line pool s" "p < GAMESERVER_CONN_CNT" "IsConnAvailable (cp_sessions pool ! p)" for pool s p
    using that by (auto simp: wired_def)
  have sizes: "length (tc_create_room tc 1) \<le> 64" "\<And>r. length (tc_player_ready tc r True) \<le> 64"
    using c(1) by (simp_all add: small_messages_def)
  have fwd: "CreateRoomReq \<in> set client_forwards" "PlayerReadyReq \<in> set client_forwards" by (simp_all add: client_forwards_def)
  let ?c0 = "Client_Start tc t0 (Client_new idx)"
  note c0 = started_client [of tc t0 idx, folded login(1)]
  obtain g1 payload where 1: "play_round e ge tc line u t1 (?c0, g, s) = (OnMessage tc True t1 LoginRsp payload (on_written True ?c0), g1, s)"
      "gate_rests ge u k uid pool g1"
    using login_trip [OF gate codec login(3,2) uid c0] by blast
  define c1 where "c1 = OnMessage tc True t1 LoginRsp payload (on_written True ?c0)"
  note c1 = hears_login [OF c0(2), where tc = tc and now = t1 and payload = payload, folded c1_def]
  obtain g2 s2 pool2 ms where 2: "play_round e ge tc line u t2 (c1, g1, s) =
      (fold (\<lambda>(i, body). OnMessage tc True t2 i body) (heard e ms) (on_written True c1), g2, s2)"
      "gate_rests ge u k uid pool2 g2" "wired line pool2 s2" "room_made e uid ms s2"
    using round_trip [OF codec 1(2) nz fwd(1) sizes(1) wired _ c1(1,2), where Q = "room_made e uid" and now = t2]
      create_answered [OF e codec nz server _ _ _ shards] links [OF wired] by blast
  obtain i room_id where room: "server_rests e s2" "i < length (gs_logic_shards s2)" "room_id \<noteq> 0" "ms = create_answers uid room_id"
      "id_space_left (gs_logic_shards s2 ! i)" "um_find (ls_rooms (gs_logic_shards s2 ! i)) room_id = Some (lone_room room_id uid False)"
    using 2(4) by (auto simp: room_made_def)
  define c2 where "c2 = fold (\<lambda>(i, body). OnMessage tc True t2 i body) (heard e ms) (on_written True c1)"
  note c2 = hears_created [OF c1(2) created_parsed [OF c] room(3), where now = t2 and uid = uid, folded room(4), folded c2_def]
  obtain g3 s3 pool3 ms' where 3: "play_round e ge tc line u t3 (c2, g2, s2) =
      (fold (\<lambda>(i, body). OnMessage tc True t3 i body) (heard e ms') (on_written True c2), g3, s3)"
      "gate_rests ge u k uid pool3 g3" "game_started e uid room_id i ms' s3"
    using round_trip [OF codec 2(2) nz fwd(2) sizes(2) 2(3) _ c2(1,2), where Q = "game_started e uid room_id i" and now = t3]
      ready_answered [OF e codec nz room(1,2,5,6,3)] links [OF 2(3)] by blast
  have "c' = fold (\<lambda>(i, body). OnMessage tc True t3 i body) (heard e ms') (on_written True c2)" "g' = g3" "s' = s3"
    using run 1(1) [folded c1_def] 2(1) [folded c2_def] 3(1) by simp_all
  then show ?thesis
    using client_in_game [OF it c 3(3) c2(2) c2(3) [unfolded c1(3)] c2(4), where now = t3] gate_restsD(1,6) [OF 3(2)] nz 3(3)
    by (auto simp: game_started_def server_rests_def)
qed

theorem client_plays_witness:
  "\<exists>c' g' s'. fold (play_round load_env play_gate_env play_tool (\<lambda>_. (0, 0)) ''a'') [1, 2, 3]
       (Client_Start play_tool 0 (Client_new 3), play_gate, example_server1) = (c', g', s') \<and>
     cl_phase c' = 2 \<and> cl_units c' \<noteq> [] \<and>
     logged_in g' ''a'' = Some (MakeLoginUid example_hash ''a'' ''p3'' ''t'')"
proof -
  have login: "''p3'' = ''p'' @ to_string (unat (3 :: u64))"
      "gc_login (gv_codec play_gate_env) (tc_login play_tool ''p3'' ''t'') = Some (''p3'', ''t'')"
      "length (tc_login play_tool ''p3'' ''t'') \<le> kMaxPacketBodyLen"
    by (code_simp, code_simp, simp add: play_tool_def kMaxPacketBodyLen_def)
  define uid where "uid = MakeLoginUid (gv_hash play_gate_env) ''a'' ''p3'' ''t''"
  have strangers: "\<forall>v j. v \<noteq> ''a'' \<longrightarrow> who play_gate v \<noteq> Some (uid, j)"
    using play_gate_strangers MakeLoginUid_nonzero by (simp add: uid_def)
  have server: "server_rests load_env example_server1"
    using load_server_reachable load_server_fields by (simp add: server_rests_def)
  have wired: "wired (\<lambda>_. (0, 0)) play_pool example_server1"
    using load_server_fields(4,5) by (auto simp: wired_def)
  have "list_all (\<lambda>l. ls_uid_to_room l = [] \<and> unat (ls_shard_id l) \<le> 1 \<and> ls_shard_count l = 2 \<and> ls_next_room_id l = 1)
      (gs_logic_shards example_server1)"
    by code_simp
  then have shards: "\<forall>l \<in> set (gs_logic_shards example_server1). um_find (ls_uid_to_room l) uid = None \<and>
      unat (ls_shard_id l) + unat (ls_shard_count l) * (unat (ls_next_room_id l) + 2) < 2 ^ 64"
    by (auto simp: list_all_iff um_find_def)
  obtain c' g' s' where run: "(c', g', s') = fold (play_round load_env play_gate_env play_tool (\<lambda>_. (0, 0)) ''a'') [1, 2, 3]
      (Client_Start play_tool 0 (Client_new 3), play_gate, example_server1)"
    by (metis prod_cases3)
  have "cl_phase c' = 2 \<and> cl_units c' \<noteq> [] \<and> logged_in g' ''a'' = Some uid"
    using client_plays [OF load_env_ok play_codecs_ok login play_gate_rests uid_def strangers server load_server_fields(3) wired shards run]
    by blast
  then show ?thesis using run [symmetric] by (auto simp: uid_def play_gate_env_def example_gate_env_def)
qed

end
