(* ===== verification/Spec2Isabelle.thy ===== *)
theory Spec2Isabelle
  imports RoomRules VictoryTheorems UnitTests ShardLifecycle TransportTheorems GateTheorems ServerTheorems EntryTheorems
    LoadTheorems PlayTheorems
begin

text \<open>
  A verification of the server side of a real-time strategy game: two processes, the gate server that
  holds the clients' connections and the game server that runs the rooms, both in C++20 on Boost.Asio.

  \<^bold>\<open>The program.\<close> A client connects to a work shard of the gate (\<^verbatim>\<open>src/GateServer\<close>), logs in and sends
  packets. The gate answers logins and pings itself and forwards everything else, wrapped in an
  envelope with the player's id, over one of eight pooled connections to the game server
  (\<^verbatim>\<open>src/GameServer\<close>). There a network shard reads the envelope, finds the logic shard the message is
  for from the room number, and posts a task with the way back: network shard, link slot and the
  slot's generation. A logic shard keeps the rooms whose number is its own modulo the number of
  shards, handles one task at a time and twenty times a second ticks every running room: the queued
  commands are applied, the simulation advances one step, and what has changed is sent to the
  players of the room, as a delta or once a second as a full snapshot. The answers go back through
  the network shards to the gate, which hands them to the sessions of the addressed players. The
  shards of both processes are threads that share nothing but message queues (the gate's sessions are
  also reachable through a registry under a mutex), so each operation is a function on the state of
  one shard, and runs are sequences of such steps in any order.

  \<^bold>\<open>Shared vocabulary.\<close> \<open>Prelude\<close>: integer types as words and generic lemmas. \<open>Float32\<close>: IEEE 754 binary32
  with rounding, infinities and NaN, executable. \<open>Containers\<close>: unordered maps and sets as association
  lists, with the locale \<open>unordered_map\<close>; the unspecified iteration order of a container is the
  parameter \<open>iter_order\<close>, of which the theorems assume only that every element is visited once
  (\<open>iter_ok\<close>).

  \<^bold>\<open>The room\<close> (\<^verbatim>\<open>DungeonRoom.h\<close>). \<open>DungeonTypes\<close> has its structs and cost tables, \<open>DungeonLobby\<close> players,
  teams, spawning, frame lists and the victory rule, \<open>DungeonCommands\<close> the nine commands, \<open>DungeonStep\<close>
  the simulation: movement, automatic targets, combat, gathering, returning, picking up, constructing,
  training, removing the dead. The two loops of the simulation are recursive functions with a
  termination proof, so nothing needs fuel. \<open>RoomActions\<close> describes everything a unit can do to its room by
  eleven kinds of small steps (\<open>act\<close>) and shows that every order and every \<^verbatim>\<open>Step*\<close> member is a sequence
  of them; \<open>RoomInvariants\<close> turns this into the locales \<open>room_relation\<close> and \<open>effect_relation\<close>: a relation
  between rooms that the small steps, payments, spawns and removals satisfy holds from the start to
  the end of every frame. The interpretations are the room invariants: \<open>RoomSync\<close> (every visible change
  is on a change list, C1), \<open>RoomStock\<close> (no resources out of nothing, C2), \<open>RoomLineage\<close> (fresh ids C3,
  nothing changes sides C4), \<open>RoomFrame\<close> (the lobby part is left alone), \<open>RoomVictory\<close> (crystals only lose hit
  points and none is built). \<open>RoomTheorems\<close> states C1 to C4 and holds a concrete room; \<open>VictoryTheorems\<close>
  follows whole games, commands, departures and ticks in any order (\<open>game_run\<close>): who has lost is out and a
  decided game stays decided (C5); \<open>RoomRules\<close> has the rules one by one: commands cannot touch other players'
  entities (C13), orders are paid in full or refused (C20), the nearest enemy (C21), tables stay well
  formed (C40), and two players can get one team (\<open>teams_collide\<close>). \<open>UnitTests\<close> runs fourteen of the
  repository's test cases on the model.

  \<^bold>\<open>The game server.\<close> \<open>Protocol\<close> is the packet format and its reader (\<^verbatim>\<open>Protocol.h\<close>, \<^verbatim>\<open>MsgNode.cc\<close>) with the
  locale \<open>packet_reader\<close>, of which the readers of servers and tools are interpretations, \<open>Messages\<close> the
  messages of \<^verbatim>\<open>rts.proto\<close> as values; the generated protobuf code is the parameter \<open>codec\<close>. \<open>LogicShard\<close> and
  \<open>LogicHandlers\<close> are \<^verbatim>\<open>LogicShard.cc\<close> and \<^verbatim>\<open>LogicRouter.cc\<close>: a handler maps a task and the shard to the list of
  its effects and the new shard. \<open>SendQueue\<close> is the abstract bounded queue with one writer, with the
  locales \<open>send_queue\<close>, \<open>queue_writer\<close> and \<open>armed_writer\<close>; \<open>LinkSession\<close>
  (\<^verbatim>\<open>GatewayLinkSession.cc\<close>) is one interpretation. \<open>NetworkShard\<close> is \<^verbatim>\<open>NetworkShard.cc\<close>, \<open>NetEvents\<close> its
  events as a step relation and the meaning of generations, \<open>Delivery\<close> the grouping of receivers and the
  routing by room number, \<open>Metrics\<close> is \<^verbatim>\<open>Metrics.h\<close>, and \<open>GameServer\<close> (\<^verbatim>\<open>GameServer.cc\<close>) puts the shards
  together: \<open>server_step\<close> is one step of any shard, \<open>server_reachable\<close> the states of all runs.
  \<open>ShardInvariants\<close> proves that the tables of a logic shard agree, \<open>ClientReplica\<close> that a client that
  applies what a tick sends shows the room as it is. \<open>ShardLifecycle\<close> is the thread
  of a logic shard with its tick loops over starts and stops (C30). \<open>ServerTheorems\<close>: clients stay in step
  (C6), membership (C8), rooms have one home (C17), rooms tick independently (C19), a command is the
  sender's (C22), disconnects (C26, C27), joining (C28), starting (C29). \<open>TransportTheorems\<close>: routes and
  generations (C12), queues (C14, C18, C25), framing (C16, C34), fan-out (C39), the window of tick times
  (\<open>tick_window\<close>).

  \<^bold>\<open>The gate server.\<close> \<open>GateSessions\<close> has the readers and \<^verbatim>\<open>Csession.cc\<close>'s queue, \<open>GateProtocol\<close> is
  \<^verbatim>\<open>GateProtocol.cc\<close> over the parameter \<open>gate_codec\<close>, \<open>BackendLink\<close> is \<^verbatim>\<open>ClientSession.cc\<close> and
  \<^verbatim>\<open>GameServerConnPool.cc\<close>, \<open>Gate\<close> the registry, the work shards, both routers and \<^verbatim>\<open>Cserver.cc\<close>.
  Shared pointers are the store \<open>gt_objs\<close> from uuids to sessions: the tables hold uuids, and an object
  is released only when no table owns it. \<open>GateInvariants\<close> and \<open>GateRuns\<close> prove that the tables name
  the right sessions in every reachable state. \<open>GateTheorems\<close>: nothing is delivered to the wrong
  player (C11), logging in (C23) and closing (C24), the pool (\<open>pool_posts_once\<close>, C35), before the login (C33), dead
  links (C36), and what a second login leaves behind (\<open>relogin_leaves_ghost\<close>).

  \<^bold>\<open>The processes.\<close> \<open>Config\<close> is \<^verbatim>\<open>IniConfig.h\<close> and \<^verbatim>\<open>LoadConfig\<close> over boost's property tree, a parameter with the
  laws \<open>ptree_ok\<close>; \<open>MetricsEndpoint\<close> is \<^verbatim>\<open>MetricsServer.cc\<close>; \<open>EntryPoints\<close> has the two \<^verbatim>\<open>main\<close>s, split into
  start-up and shutdown, \<^verbatim>\<open>Singleton.h\<close> and \<^verbatim>\<open>NetworkRouter.cc\<close>. \<open>EntryTheorems\<close>: what start-up does with every
  configuration (C31), that a client of the metrics endpoint reads back what is rendered (C37), and
  the round trip of the gateway's settings.

  \<^bold>\<open>The load generators.\<close> \<open>LoadTest\<close> is \<^verbatim>\<open>tools/loadtest.cc\<close>, \<open>E2ELoadTest\<close> \<^verbatim>\<open>tools/e2e_loadtest.cc\<close>; the generated
  code they use is the parameter \<open>tool_codec\<close>. \<open>Exchange\<close> follows one packet through all threads of a game
  server that is at rest and back to the link, \<open>LonePlayer\<close> what the logic shard does for a player alone
  in a room, whoever wrote the envelope, \<open>LoneGame\<close> the two requests that make and start its game with
  every answer the link carries. \<open>LoadTheorems\<close>: a virtual player gets into a running game and knows it
  (C15), all framings and readers agree (C32), the queue of an end-to-end client (C38).

  \<^bold>\<open>End to end.\<close> \<open>EndToEnd\<close> joins both servers under the assumption that the generated code parses what
  it serialised (\<open>envelope_roundtrip\<close>, \<open>reply_roundtrip\<close>; \<open>WireExample\<close> has a codec that satisfies it).
  This theory states that a client's message reaches its room (C9) and an answer its player (C10).
  \<open>GateExchange\<close> follows a request and its answers through a gate whose writers are idle, and \<open>ClientGame\<close>
  puts client, gate and game server together: \<open>play_round\<close> is one round trip of the end-to-end client through
  both processes. \<open>PlayTheorems\<close>: three round trips take a client from its connection into a running game (C7).

  \<^bold>\<open>Bounds.\<close> Counters are 64-bit words as in the code. Where a wrap-around would break a property its
  absence is a hypothesis: fewer than \<open>2^64\<close> entities in a room, rooms on a shard (\<open>id_space_left\<close>) and
  steps between the making and the use of a route. A server has at most \<open>2^32\<close> logic shards and links
  per network shard, as their 32-bit ids require. Player ids are hashes: C10 and C23 are about runs in
  which no two sessions share one (\<open>gate_run\<close>), C11 and C24 about all runs. C15 is about a server that has
  no other work (\<open>quiet\<close>), and about messages of a lone player that are serialised to at most 8 KiB
  (\<open>small_messages\<close>), as rooms with seven entities and eight fields are; C7 is about such a server, a gate
  without other traffic on the session's shard (\<open>gate_rests\<close>), connections that end in open links (\<open>wired\<close>)
  and generated code that parses what it serialised (\<open>play_codecs\<close>).

  \<^bold>\<open>Not modelled.\<close> Sockets, timers, threads and logging appear only as the events they cause. The
  command lines of the load generators and the averages they print, which are sums of doubles, are
  left out; which rooms are counted is not. \<^verbatim>\<open>sin\<close>, \<^verbatim>\<open>cos\<close> and \<^verbatim>\<open>atan2\<close> are parameters (\<open>libm\<close>), since the C++
  standard does not fix their last bit; so are \<^verbatim>\<open>std::hash\<close>, the uuids and the generated message code. The
  gate's acceptor adds a session to a shard's table from another thread without a lock; the model
  makes that one step. The handlers of an end-to-end client can run on several threads at once; the
  model runs them one after the other. The nine test cases under \<^verbatim>\<open>src/tests\<close> that take
  twenty and more simulation steps or many square roots are not run, since the kernel evaluates every float
  operation. What else the sources hold is duplicated between the servers (\<^verbatim>\<open>MsgNode\<close>, \<^verbatim>\<open>IniConfig.h\<close>,
  \<^verbatim>\<open>Singleton.h\<close>, modelled once), generated by the build, or declares what is defined elsewhere.
\<close>

subsection \<open>From a client to its room\<close>

text \<open>C9: a client's message finds its room. The gate wraps a message of player \<open>uid\<close> into an envelope and
  sends it; if the generated code parses what it serialised, the game server reads exactly one packet
  and, when the message names a room that exists, posts one task to the logic shard that holds the room
  and to no other: with the player's id, the message id, the way back to this very link and the
  client's bytes.\<close>

theorem message_reaches_room:
  assumes codec: "envelope_roundtrip gc (e_codec e)"
    and packet: "BuildGateToGameEnvelope gc uid session_id msgid body = Some packet"
    and msgid: "msgid \<in> set client_forwards" "msgid \<noteq> CreateRoomReq" and "uid \<noteq> 0"
    and s: "server_reachable e s" "iter_ok (e_ord e)" "\<not> gs_stopping s"
    and j: "j < length (gs_network_shards s)" "\<not> ns_stopping (gs_network_shards s ! j)"
    and hint: "ParseProtoFromBytes (cd_route_hint (e_codec e)) body = Some room_id" "room_id \<noteq> 0"
    and room: "i < length (gs_logic_shards s)" "room_id \<in> set (um_keys (ls_rooms (gs_logic_shards s ! i)))"
  shows "\<exists>node task. handle_read (sn_data packet) = [node] \<and>
    lt_msg_id task = msgid \<and> lt_uid task = uid \<and> lt_origin task = MakeRoute link_id (gs_network_shards s ! j) \<and>
    map_option ge_payload (ParseProtoFromBytes (cd_envelope (e_codec e)) (lt_body task)) = Some body \<and>
    gs_logic_queues (run_packet e now_unix_ms link_id (rn_msg_id node) (rn_data node) j s) =
      (gs_logic_queues s)[i := gs_logic_queues s ! i @ [task]]"
proof -
  let ?n = "gs_network_shards s ! j" and ?env = "gate_envelope uid session_id msgid body"
  have ok: "server_ok s" using server_reachable_ok [OF s(1,2)] .
  have count: "unat (LogicShardCount s) = length (gs_logic_shards s)"
    using ok by (simp add: server_ok_def LogicShardCount_def unat_of_nat)
  then have nz: "LogicShardCount s \<noteq> 0" using room(1) by auto
  obtain node shard task n' where t: "handle_read (sn_data packet) = [node]"
      "OnPacket (e_codec e) (LogicShardCount s) now_unix_ms link_id (rn_msg_id node) 0 (rn_data node) ?n = ([PostToLogic shard task], n')"
      "lt_msg_id task = msgid" "lt_uid task = uid" "lt_origin task = MakeRoute link_id ?n"
      "ParseProtoFromBytes (cd_envelope (e_codec e)) (lt_body task) = Some ?env"
      "(shard, n') = ResolveLogicShard (e_codec e) (LogicShardCount s) msgid ?env ?n"
    using forwarded_to_logic [OF codec packet msgid(1) \<open>uid \<noteq> 0\<close> j(2) nz] by metis
  have "shard = ucast (room_id mod LogicShardCount s)"
    using t(7) nz msgid(2) hint by (simp add: ResolveLogicShard_def gate_envelope_def Let_def)
  moreover have "unat (room_id mod LogicShardCount s) = i"
    using room_home [OF ok room] count by (simp add: unat_mod_distrib)
  moreover have "i < 2 ^ 32" using room(1) ok by (simp add: server_ok_def)
  ultimately have "unat shard = i" by (simp add: unsigned_ucast_eq take_bit_nat_eq_self)
  then have "gs_logic_queues (run_packet e now_unix_ms link_id (rn_msg_id node) (rn_data node) j s) =
      (gs_logic_queues s)[i := gs_logic_queues s ! i @ [task]]"
    using t(2) s(3) room(1) by (simp add: run_packet_def GameServer_PostToLogic_def)
  then show ?thesis using t by (auto simp: gate_envelope_def)
qed

theorem message_reaches_room_witness:
  "\<exists>packet node task. BuildGateToGameEnvelope example_gate_codec 9 1 JoinRoomReq (enc64 2) = Some packet \<and>
     handle_read (sn_data packet) = [node] \<and> lt_uid task = 9 \<and>
     gs_logic_queues (run_packet example_env 0 0 (rn_msg_id node) (rn_data node) 0 example_server) =
       (gs_logic_queues example_server)[0 := gs_logic_queues example_server ! 0 @ [task]]"
proof -
  have c: "envelope_roundtrip example_gate_codec (e_codec example_env)"
    using example_codec_ok(1) by (simp add: example_env_def)
  have "BuildGateToGameEnvelope example_gate_codec 9 1 JoinRoomReq (enc64 2) \<noteq> None" by code_simp
  then obtain packet where p: "BuildGateToGameEnvelope example_gate_codec 9 1 JoinRoomReq (enc64 2) = Some packet" by blast
  have m: "JoinRoomReq \<in> set client_forwards" "JoinRoomReq \<noteq> CreateRoomReq" "(9 :: u64) \<noteq> 0" "(2 :: u64) \<noteq> 0"
    by (simp_all add: client_forwards_def)
  have h: "ParseProtoFromBytes (cd_route_hint (e_codec example_env)) (enc64 2) = Some 2"
    using dec64_enc64 [of 2 "[]"] by (simp add: example_env_def example_codec_def number_def ParseProtoFromBytes_def)
  show ?thesis
    using message_reaches_room [OF c p m(1-3) example_server_reachable example_env_ok example_server_room(6) _ _ h m(4), of 0 0 0 0]
      p example_server_room by auto
qed

text \<open>C10: an answer finds its player. A logic shard hands a message for some players to a network shard, which
  wraps it for the gate; in every run of the gate without shared player ids, the gate reads one packet
  and queues the logic shard's packet, byte for byte, on the open session logged in as an addressed
  player, as often as the player is addressed, and on no session that no addressee is bound to.\<close>

theorem reply_reaches_player:
  assumes codec: "reply_roundtrip c (gv_codec e)"
    and bytes: "cd_serialize c (GameToGateMsg uids (nk_msg_id task) (nk_seq task) payload) = Some bytes"
      "length bytes \<le> kMaxPacketBodyLen"
    and body: "nk_body task = SendNode_new payload (nk_msg_id task) kPacketFlagNone" "length payload < 2 ^ 32"
    and uids: "uids \<noteq> []" "uid \<in> set uids"
    and gate: "gate_run e g" "k < WORK_SHARD_NUMBER" "logged_in g u = Some uid"
    and packet: "BuildGameToGatewayEnvelope c task uids = Some packet"
    and read: "ClientSession_read (sn_data packet) = nodes"
    and handled: "BackendIngress_HandleMsg e k (hd nodes) g = (effects, g')"
  shows "length nodes = 1 \<and>
    um_find (gt_objs (fold run_effect effects g')) u =
      map_option (Csession_SendData (nk_body task) ^^ count_list uids uid) (um_find (gt_objs g) u) \<and>
    ((\<forall>i \<in> set uids. recipient k g i \<noteq> Some v) \<longrightarrow>
      um_find (gt_objs (fold run_effect effects g')) v = um_find (gt_objs g) v)"
  using reply_delivered [OF codec bytes body uids(1) gate(1,2) packet read handled] gate(3) by blast

definition example_pong :: NetworkTask where
  "example_pong = \<lparr>nk_msg_id = PongRsp, nk_seq = 0, nk_targets = [], nk_body = SendNode_new [5] PongRsp kPacketFlagNone\<rparr>"

theorem reply_reaches_player_witness:
  "\<exists>uid packet nodes effects g'. logged_in example_gate ''a'' = Some uid \<and>
     BuildGameToGatewayEnvelope example_codec example_pong [uid] = Some packet \<and>
     BackendIngress_HandleMsg example_gate_env 3 (hd nodes) example_gate = (effects, g') \<and>
     um_find (gt_objs (fold run_effect effects g')) ''a'' =
       map_option (Csession_SendData (SendNode_new [5] PongRsp kPacketFlagNone)) (um_find (gt_objs example_gate) ''a'')"
proof -
  have c: "reply_roundtrip example_codec (gv_codec example_gate_env)"
    using example_codec_ok(2) by (simp add: example_gate_env_def)
  have "logged_in example_gate ''a'' \<noteq> None" by code_simp
  then obtain uid where l: "logged_in example_gate ''a'' = Some uid" by blast
  define bytes where "bytes = enc64 (of_nat 1) @ enc64 (ucast PongRsp) @ enc64 uid @ [5]"
  have b: "cd_serialize example_codec (GameToGateMsg [uid] (nk_msg_id example_pong) (nk_seq example_pong) [5]) = Some bytes"
    by (simp add: example_codec_def example_pong_def enc_reply_def bytes_def)
  have n: "length bytes \<le> kMaxPacketBodyLen" by (simp add: bytes_def kMaxPacketBodyLen_def)
  have p: "nk_body example_pong = SendNode_new [5] (nk_msg_id example_pong) kPacketFlagNone" "length [5 :: byte] < 2 ^ 32"
    by (simp_all add: example_pong_def)
  have k: "3 < WORK_SHARD_NUMBER" by (simp add: WORK_SHARD_NUMBER_def)
  have packet: "BuildGameToGatewayEnvelope example_codec example_pong [uid] = Some (SendNode_new bytes GameToGateEnvelope kPacketFlagNone)"
    by (rule BuildGameToGatewayEnvelope_eq [OF b p])
  obtain effects g' where h: "BackendIngress_HandleMsg example_gate_env 3
      (hd (ClientSession_read (sn_data (SendNode_new bytes GameToGateEnvelope kPacketFlagNone)))) example_gate = (effects, g')"
    by fastforce
  have "um_find (gt_objs (fold run_effect effects g')) ''a'' =
       map_option (Csession_SendData (nk_body example_pong) ^^ count_list [uid] uid) (um_find (gt_objs example_gate) ''a'')"
    using reply_reaches_player [OF c b n p _ _ example_gate_run(2) k l packet refl h] by simp
  then have "um_find (gt_objs (fold run_effect effects g')) ''a'' =
      map_option (Csession_SendData (SendNode_new [5] PongRsp kPacketFlagNone)) (um_find (gt_objs example_gate) ''a'')"
    by (simp add: example_pong_def)
  then show ?thesis using l packet h by blast
qed

end
